theory Spec2Isabelle
  imports Main "HOL-Library.AList" "HOL-Library.Sublist"
begin

section \<open>Bundle handling of the PDF template playground\<close>

text \<open>
  A shallow embedding of \<^verbatim>\<open>src/components/composables/bundle-handling.ts\<close>:
  \<^verbatim>\<open>packBundle\<close>, and the functions \<^verbatim>\<open>loadBundle\<close>, \<^verbatim>\<open>getBundle\<close>, \<^verbatim>\<open>storeBundle\<close> and the
  file-input watcher that \<^verbatim>\<open>useBundleHandling\<close> closes over one reactive view model.

  Strings are character lists; a text and its UTF-8 bytes are identified, so a member
  of an archive and a blob are strings too.
\<close>

subsection \<open>JSON values\<close>

text \<open>
  What \<^verbatim>\<open>JSON.parse\<close> returns. An object is an association list in insertion order.
  The numbers are the integers and the two infinite values, which \<^verbatim>\<open>JSON.parse\<close> returns for
  a numeral beyond the range of a double (\<^verbatim>\<open>1e999\<close>) and \<^verbatim>\<open>JSON.stringify\<close> prints as
  \<^verbatim>\<open>null\<close>; fractions and the negative zero are outside this model.
\<close>

datatype json =
    JNull
  | JBool bool
  | JNum int
  | JInfinity
  | JMinusInfinity
  | JStr string
  | JArr "json list"
  | JObj "(string \<times> json) list"

text \<open>Decimal digits of a natural number, as \<^verbatim>\<open>String(i)\<close> prints an array index.\<close>

definition digit_char :: "nat \<Rightarrow> char" where
  "digit_char d = ''0123456789'' ! d"

fun show_nat :: "nat \<Rightarrow> string" where
  "show_nat n =
     (if n < 10 then [digit_char n]
      else show_nat (n div 10) @ [digit_char (n mod 10)])"

text \<open>
  The own enumerable properties that an object spread \<^verbatim>\<open>{...v}\<close> copies: the members of
  an object, the indexed elements of an array, the indexed characters of a string, and
  nothing for null, a boolean or a number.
\<close>

definition own_properties :: "json \<Rightarrow> (string \<times> json) list" where
  "own_properties v =
     (case v of
        JObj kvs \<Rightarrow> kvs
      | JArr vs \<Rightarrow> zip (map show_nat [0..<length vs]) vs
      | JStr s \<Rightarrow> zip (map show_nat [0..<length s]) (map (\<lambda>c. JStr [c]) s)
      | _ \<Rightarrow> [])"

text \<open>
  Spreading properties into an object literal under construction: each property is
  assigned in order, so a later one replaces the value of an earlier one of the same key
  and keeps its place.
\<close>

definition spread_into :: "(string \<times> json) list \<Rightarrow> (string \<times> json) list \<Rightarrow> (string \<times> json) list" where
  "spread_into acc kvs = fold (\<lambda>kv obj. AList.update (fst kv) (snd kv) obj) kvs acc"

subsection \<open>The data model\<close>

record Asset =
  name :: string
  blob :: string

text \<open>
  \<^verbatim>\<open>RenderTemplateDataViewModel\<close>, with the fields that the bundle code reads and writes.
  The three templates are optional (\<^verbatim>\<open>None\<close> is \<^verbatim>\<open>undefined\<close>); \<^verbatim>\<open>options\<close> is an object.
\<close>

record RenderTemplateDataViewModel =
  htmlTemplate :: "string option"
  headerHtmlTemplate :: "string option"
  footerHtmlTemplate :: "string option"
  options :: "(string \<times> json) list"
  model :: json
  modelStr :: string
  assets :: "Asset list"
  templateEngine :: "string option"

text \<open>\<^verbatim>\<open>IncludedFiles\<close>: a flag that is missing is falsy, so each flag is a boolean.\<close>

record IncludedFiles =
  incl_index :: bool
  incl_header :: bool
  incl_footer :: bool
  incl_options :: bool
  incl_assets :: bool
  incl_exampleModel :: bool

record BundleInfo =
  bundle_id :: string
  bundle_name :: string

definition includedFilesAll :: IncludedFiles where
  "includedFilesAll =
     \<lparr>incl_index = True, incl_header = True, incl_footer = True,
      incl_options = True, incl_assets = True, incl_exampleModel = True\<rparr>"

subsection \<open>Archives\<close>

text \<open>
  The \<^verbatim>\<open>files\<close> object of a JSZip instance: member names with their contents, in insertion
  order. The bytes of an archive are abstracted by what \<^verbatim>\<open>JsZip.loadAsync\<close> makes of them:
  either it rejects them, or it returns the members. A folder is a member whose name ends
  in a slash; it has no content.
\<close>

type_synonym zip = "(string \<times> string) list"

datatype archive = NotAZip | Zip zip

text \<open>
  \<^verbatim>\<open>zip.file(path, data)\<close> is \<^verbatim>\<open>fileAdd\<close> of JSZip 3 with its default options, of which
  \<^verbatim>\<open>createFolders\<close> is true: before it assigns \<^verbatim>\<open>files[path]\<close> it adds the folder of the
  path, and \<^verbatim>\<open>folderAdd\<close> adds a folder that is not a member yet through \<^verbatim>\<open>fileAdd\<close> again,
  so the folders above it come first. \<^verbatim>\<open>parentFolder\<close> is the path up to its last slash
  (one at the very end apart), empty when there is none or the slash is the first
  character.
\<close>

definition forceTrailingSlash :: "string \<Rightarrow> string" where
  "forceTrailingSlash path =
     (if path \<noteq> [] \<and> last path = CHR ''/'' then path else path @ ''/'')"

definition parentFolder :: "string \<Rightarrow> string" where
  "parentFolder path =
     (let p = (if path \<noteq> [] \<and> last path = CHR ''/'' then butlast path else path)
      in rev (drop 1 (dropWhile (\<lambda>c. c \<noteq> CHR ''/'') (rev p))))"

function folderAdd :: "string \<Rightarrow> zip \<Rightarrow> zip" where
  "folderAdd folder z =
     (let n = forceTrailingSlash folder in
      if map_of z n \<noteq> None then z
      else AList.update n []
             (let parent = parentFolder n in if parent \<noteq> [] then folderAdd parent z else z))"
  by pat_completeness auto
termination
proof (relation "measure (\<lambda>(folder, z). length (forceTrailingSlash folder))")
  show "wf (measure (\<lambda>(folder, z). length (forceTrailingSlash folder)))"
    by simp
next
  fix folder :: string and z :: zip and n parent
  assume n: "n = forceTrailingSlash folder" and p: "parent = parentFolder n"
    and ne: "parent \<noteq> []"
  have slash: "n \<noteq> [] \<and> last n = CHR ''/''"
    by (simp add: n forceTrailingSlash_def)
  then have "parent = rev (drop 1 (dropWhile (\<lambda>c. c \<noteq> CHR ''/'') (rev (butlast n))))"
    by (simp add: p parentFolder_def)
  then have "length parent = length (dropWhile (\<lambda>c. c \<noteq> CHR ''/'') (rev (butlast n))) - 1"
    by simp
  also have "\<dots> \<le> length (rev (butlast n)) - 1"
    using length_dropWhile_le [of "\<lambda>c. c \<noteq> CHR ''/''" "rev (butlast n)"] by (rule diff_le_mono)
  finally have "length parent \<le> length n - 1 - 1"
    by simp
  moreover have "0 < length parent"
    using ne by simp
  ultimately have "Suc (length parent) < length n"
    by linarith
  moreover have "length (forceTrailingSlash parent) \<le> Suc (length parent)"
    by (simp add: forceTrailingSlash_def)
  ultimately have "length (forceTrailingSlash parent) < length (forceTrailingSlash folder)"
    unfolding n by linarith
  then show "((parent, z), (folder, z)) \<in> measure (\<lambda>(folder, z). length (forceTrailingSlash folder))"
    by simp
qed

declare folderAdd.simps [simp del]

definition fileAdd :: "string \<Rightarrow> string \<Rightarrow> zip \<Rightarrow> zip" where
  "fileAdd path data z =
     AList.update path data
       (let parent = parentFolder path in if parent \<noteq> [] then folderAdd parent z else z)"

definition zip_file :: "zip \<Rightarrow> string \<Rightarrow> string \<Rightarrow> zip" where
  "zip_file z n c = fileAdd n c z"

text \<open>
  The folders that \<^verbatim>\<open>zip.file(path, data)\<close> adds to an archive without members: the
  folders above the path, the outermost first.
\<close>

definition folders :: "string \<Rightarrow> string list" where
  "folders path =
     (let parent = parentFolder path in if parent \<noteq> [] then map fst (folderAdd parent []) else [])"

text \<open>
  \<^verbatim>\<open>zip.generateAsync\<close> writes the members in their order, and what it writes is read
  back by \<^verbatim>\<open>JsZip.loadAsync\<close> member by member; a member whose name ends in a slash is read
  back as a folder, without the content it was written with.
\<close>

definition generateAsync :: "zip \<Rightarrow> archive" where
  "generateAsync z =
     Zip (map (\<lambda>(n, c). (n, if n \<noteq> [] \<and> last n = CHR ''/'' then [] else c)) z)"

text \<open>
  The exceptions of the bundle code, by the statement that raises them: \<^verbatim>\<open>JsZip.loadAsync\<close>
  on bytes that are no archive (the specification's CorruptArchive), \<^verbatim>\<open>JSON.parse\<close> on a
  text that is no JSON (a \<^verbatim>\<open>SyntaxError\<close>, the specification's MalformedModel), and a
  rejected request (TransportFailure).
\<close>

datatype error = CorruptArchive | SyntaxError | TransportFailure

subsection \<open>The environment\<close>

text \<open>
  The reply to \<^verbatim>\<open>fetch\<close>: the request is rejected, or a response arrives with its \<^verbatim>\<open>ok\<close>
  flag, its status text and its form data (\<^verbatim>\<open>None\<close> when \<^verbatim>\<open>res.formData()\<close> rejects). The
  casts of the form fields (\<^verbatim>\<open>as File\<close>, \<^verbatim>\<open>as string\<close>) are taken at their word.
\<close>

record form_data =
  form_bundle :: archive
  form_templateEngine :: string
  form_name :: string

datatype fetch_result =
    FetchRejected
  | Response bool string "form_data option"

record save_request =
  req_bundle :: archive
  req_name :: string
  req_id :: string
  req_templateEngine :: "string option"

text \<open>
  What the bundle code imports and calls but does not define: the JSON functions of the
  platform (\<^verbatim>\<open>JSON_stringify2\<close> is \<^verbatim>\<open>JSON.stringify(v, null, 2)\<close>), the constants and
  defaults of \<^verbatim>\<open>@/models\<close>, the enumeration of the template engines, and the remote
  store. They are parameters of the model. So is \<^verbatim>\<open>error_text\<close>, the text that the
  platform puts for a caught exception \<^verbatim>\<open>e\<close> in a template literal \<^verbatim>\<open>${e}\<close>: the code
  fixes no message.
\<close>

record env =
  JSON_parse :: "string \<Rightarrow> json option"
  JSON_stringify :: "json \<Rightarrow> string"
  JSON_stringify2 :: "json \<Rightarrow> string"
  getBaseOptions :: "(string \<times> json) list"
  getBaseRenderData :: RenderTemplateDataViewModel
  BundleAssetsFolder :: string
  EnumRenderTemplateDataTemplateEngine :: "string \<Rightarrow> string option"
  serverBaseUrl :: string
  fetch :: "string \<Rightarrow> fetch_result"
  SaveHtmlBundleService_htmlBundle :: "save_request \<Rightarrow> error + string"
  error_text :: "error \<Rightarrow> string"

subsection \<open>packBundle\<close>

text \<open>
  The statements of \<^verbatim>\<open>packBundle\<close> in their order. \<^verbatim>\<open>JSON.parse\<close> of the model string throws
  out of the function (\<^verbatim>\<open>Inl\<close>); the assets are written under the literal \<^verbatim>\<open>assets/\<close>.
  The result stands for the bytes that \<^verbatim>\<open>generateAsync\<close> produces.
\<close>

definition pack_index :: "RenderTemplateDataViewModel \<Rightarrow> IncludedFiles \<Rightarrow> zip \<Rightarrow> zip" where
  "pack_index data includedFiles z =
     (if incl_index includedFiles
      then zip_file z ''index.html'' (case htmlTemplate data of None \<Rightarrow> [] | Some s \<Rightarrow> s)
      else z)"

definition pack_header :: "RenderTemplateDataViewModel \<Rightarrow> IncludedFiles \<Rightarrow> zip \<Rightarrow> zip" where
  "pack_header data includedFiles z =
     (case headerHtmlTemplate data of
        None \<Rightarrow> z
      | Some s \<Rightarrow> if incl_header includedFiles \<and> s \<noteq> [] then zip_file z ''header.html'' s else z)"

definition pack_footer :: "RenderTemplateDataViewModel \<Rightarrow> IncludedFiles \<Rightarrow> zip \<Rightarrow> zip" where
  "pack_footer data includedFiles z =
     (case footerHtmlTemplate data of
        None \<Rightarrow> z
      | Some s \<Rightarrow> if incl_footer includedFiles \<and> s \<noteq> [] then zip_file z ''footer.html'' s else z)"

definition pack_options :: "env \<Rightarrow> RenderTemplateDataViewModel \<Rightarrow> IncludedFiles \<Rightarrow> zip \<Rightarrow> zip" where
  "pack_options E data includedFiles z =
     (if incl_options includedFiles
      then zip_file z ''options.json'' (JSON_stringify E (JObj (options data)))
      else z)"

definition pack_exampleModel ::
    "env \<Rightarrow> RenderTemplateDataViewModel \<Rightarrow> IncludedFiles \<Rightarrow> zip \<Rightarrow> error + zip" where
  "pack_exampleModel E data includedFiles z =
     (if incl_exampleModel includedFiles
      then (case JSON_parse E (modelStr data) of
              None \<Rightarrow> Inl SyntaxError
            | Some m \<Rightarrow> Inr (zip_file z ''example-model.json'' (JSON_stringify E m)))
      else Inr z)"

definition asset_path :: "Asset \<Rightarrow> string" where
  "asset_path a = ''assets/'' @ name a"

definition pack_assets :: "RenderTemplateDataViewModel \<Rightarrow> IncludedFiles \<Rightarrow> zip \<Rightarrow> zip" where
  "pack_assets data includedFiles z =
     (if incl_assets includedFiles
      then fold (\<lambda>a zz. zip_file zz (asset_path a) (blob a)) (assets data) z
      else z)"

text \<open>The five members before the assets, in the order of the statements.\<close>

definition pack_members ::
    "env \<Rightarrow> RenderTemplateDataViewModel \<Rightarrow> IncludedFiles \<Rightarrow> error + zip" where
  "pack_members E data includedFiles =
     pack_exampleModel E data includedFiles
       (pack_options E data includedFiles
         (pack_footer data includedFiles
           (pack_header data includedFiles
             (pack_index data includedFiles []))))"

definition packBundle :: "env \<Rightarrow> RenderTemplateDataViewModel \<Rightarrow> IncludedFiles \<Rightarrow> error + archive" where
  "packBundle E data includedFiles =
     (case pack_members E data includedFiles of
        Inl e \<Rightarrow> Inl e
      | Inr z \<Rightarrow> Inr (generateAsync (pack_assets data includedFiles z)))"

subsection \<open>loadBundle\<close>

text \<open>
  The loop over the keys of \<^verbatim>\<open>zip.files\<close>: a key that starts with the assets path and is
  not the path itself gives an asset, named by the rest of the key.
\<close>

fun read_assets :: "string \<Rightarrow> zip \<Rightarrow> string list \<Rightarrow> Asset list" where
  "read_assets assetFolderPath z [] = []"
| "read_assets assetFolderPath z (fKey # ks) =
     (if prefix assetFolderPath fKey \<and> fKey \<noteq> assetFolderPath
      then (case map_of z fKey of
              None \<Rightarrow> read_assets assetFolderPath z ks
            | Some b \<Rightarrow>
                \<lparr>name = drop (length assetFolderPath) fKey, blob = b\<rparr>
                  # read_assets assetFolderPath z ks)
      else read_assets assetFolderPath z ks)"

text \<open>A string that may be \<^verbatim>\<open>undefined\<close> is truthy when it is defined and not empty.\<close>

definition truthy :: "string option \<Rightarrow> bool" where
  "truthy s = (case s of None \<Rightarrow> False | Some x \<Rightarrow> x \<noteq> [])"

text \<open>The three assignments of lines 89 to 97.\<close>

definition load_templates :: "zip \<Rightarrow> RenderTemplateDataViewModel \<Rightarrow> RenderTemplateDataViewModel" where
  "load_templates z target =
     (let indexStr = map_of z ''index.html'';
          headerStr = map_of z ''header.html'';
          footerStr = map_of z ''footer.html'';
          t1 = (if truthy indexStr then target\<lparr>htmlTemplate := indexStr\<rparr> else target);
          t2 = (if truthy headerStr then t1\<lparr>headerHtmlTemplate := headerStr\<rparr> else t1)
      in if truthy footerStr then t2\<lparr>footerHtmlTemplate := footerStr\<rparr> else t2)"

text \<open>Lines 98 to 100: the base options, overlaid with the parsed member.\<close>

definition load_options ::
    "env \<Rightarrow> zip \<Rightarrow> RenderTemplateDataViewModel \<Rightarrow> error + RenderTemplateDataViewModel" where
  "load_options E z target =
     (case map_of z ''options.json'' of
        None \<Rightarrow> Inr target
      | Some optionsStr \<Rightarrow>
          if optionsStr = [] then Inr target
          else (case JSON_parse E optionsStr of
                  None \<Rightarrow> Inl SyntaxError
                | Some v \<Rightarrow>
                    Inr (target\<lparr>options :=
                      spread_into (spread_into [] (getBaseOptions E)) (own_properties v)\<rparr>)))"

text \<open>Line 76: the text of the example model, \<^verbatim>\<open>{}\<close> when the member is missing.\<close>

definition exampleModelStr :: "zip \<Rightarrow> string" where
  "exampleModelStr z =
     (case map_of z ''example-model.json'' of None \<Rightarrow> ''{}'' | Some s \<Rightarrow> s)"

text \<open>Lines 101 to 105.\<close>

definition load_exampleModel ::
    "env \<Rightarrow> zip \<Rightarrow> RenderTemplateDataViewModel \<Rightarrow> error + RenderTemplateDataViewModel" where
  "load_exampleModel E z target =
     (if exampleModelStr z = [] then Inr target
      else (case JSON_parse E (exampleModelStr z) of
              None \<Rightarrow> Inl SyntaxError
            | Some m \<Rightarrow> Inr (target\<lparr>model := m, modelStr := JSON_stringify2 E m\<rparr>)))"

text \<open>Lines 107 to 109.\<close>

definition load_assets :: "env \<Rightarrow> zip \<Rightarrow> RenderTemplateDataViewModel \<Rightarrow> RenderTemplateDataViewModel" where
  "load_assets E z target =
     (let found = read_assets (BundleAssetsFolder E @ ''/'') z (map fst z)
      in if found \<noteq> [] then target\<lparr>assets := found\<rparr> else target)"

text \<open>
  \<^verbatim>\<open>loadBundle\<close> mutates its target in place, so the model returns the target as the call
  leaves it together with the outcome: \<^verbatim>\<open>None\<close> when the promise resolves (with that
  target), the exception when it rejects. A write made before a later statement throws
  stays in the target.
\<close>

definition loadBundle ::
    "env \<Rightarrow> archive \<Rightarrow> RenderTemplateDataViewModel \<Rightarrow> error option \<times> RenderTemplateDataViewModel" where
  "loadBundle E bundleBufferSrc target =
     (case bundleBufferSrc of
        NotAZip \<Rightarrow> (Some CorruptArchive, target)
      | Zip z \<Rightarrow>
          (let t3 = load_templates z target in
           case load_options E z t3 of
             Inl e \<Rightarrow> (Some e, t3)
           | Inr t4 \<Rightarrow>
               (case load_exampleModel E z t4 of
                  Inl e \<Rightarrow> (Some e, t4)
                | Inr t5 \<Rightarrow> (None, load_assets E z t5))))"

subsection \<open>The state that useBundleHandling closes over\<close>

text \<open>
  \<^verbatim>\<open>session\<close> is the reactive view model passed to \<^verbatim>\<open>useBundleHandling\<close>; the other
  fields are its refs, and the \<^verbatim>\<open>currentBundle\<close> item of the local storage.
\<close>

record state =
  session :: RenderTemplateDataViewModel
  currentBundle :: "BundleInfo option"
  dirty :: bool
  bundleError :: "string option"
  bundleFileInputModel :: "archive option"
  localStorage_currentBundle :: "string option"

definition cleanLocalStorageBundle :: "state \<Rightarrow> state" where
  "cleanLocalStorageBundle st = st\<lparr>localStorage_currentBundle := None\<rparr>"

text \<open>The address that \<^verbatim>\<open>getBundle\<close> fetches.\<close>

definition bundle_url :: "env \<Rightarrow> string \<Rightarrow> string" where
  "bundle_url E ident = serverBaseUrl E @ ''/api/html-bundle/'' @ ident"

text \<open>
  The watcher of the view model (lines 217 to 219). The view model is a reactive object
  of the framework: an assignment to one of its fields that changes the field queues the
  callback of the watcher, and the framework runs a queued callback once, in a microtask,
  when the statements that are running reach their next \<^verbatim>\<open>await\<close> or their end. The
  fields are properties that the object has, with the value \<^verbatim>\<open>undefined\<close> where the model
  has \<^verbatim>\<open>None\<close>, so that an assignment adds no property.
\<close>

definition session_watch :: "state \<Rightarrow> state" where
  "session_watch st = st\<lparr>dirty := True\<rparr>"

definition flushJobs :: "bool \<Rightarrow> state \<Rightarrow> state" where
  "flushJobs queued st = (if queued then session_watch st else st)"

text \<open>
  Whether an assignment changes a field is the framework's \<^verbatim>\<open>hasChanged\<close>, the negation of
  \<^verbatim>\<open>Object.is\<close>: an object or an array that was just made differs from every value the
  field had; a string, a number, a boolean or \<^verbatim>\<open>null\<close> differs from a value that is not
  equal to it.
\<close>

definition hasChanged :: "json \<Rightarrow> json \<Rightarrow> bool" where
  "hasChanged v oldValue = (case v of JObj kvs \<Rightarrow> True | JArr vs \<Rightarrow> True | _ \<Rightarrow> v \<noteq> oldValue)"

text \<open>
  Whether the assignments of \<^verbatim>\<open>loadBundle\<close> (lines 89 to 109) queue the watcher when the
  target is the view model: a text that differs from the field, the options (a new
  object), a model or a model string that differs, or the assets (a new array). An
  assignment that an exception keeps the call from reaching queues nothing.
\<close>

definition loadBundle_triggers :: "env \<Rightarrow> archive \<Rightarrow> RenderTemplateDataViewModel \<Rightarrow> bool" where
  "loadBundle_triggers E bundleBufferSrc target =
     (case bundleBufferSrc of
        NotAZip \<Rightarrow> False
      | Zip z \<Rightarrow>
          load_templates z target \<noteq> target \<or>
          (case load_options E z target of
             Inl e \<Rightarrow> False
           | Inr t4 \<Rightarrow>
               truthy (map_of z ''options.json'') \<or>
               (case load_exampleModel E z target of
                  Inl e \<Rightarrow> False
                | Inr t5 \<Rightarrow>
                    (exampleModelStr z \<noteq> [] \<and>
                       (hasChanged (model t5) (model target) \<or> modelStr t5 \<noteq> modelStr target)) \<or>
                    read_assets (BundleAssetsFolder E @ ''/'') z (map fst z) \<noteq> [])))"

text \<open>
  \<^verbatim>\<open>getBundle\<close>, with the watcher of the view model where the framework runs it. The
  target of \<^verbatim>\<open>loadBundle\<close> is the view model, so what \<^verbatim>\<open>loadBundle\<close> wrote before it threw
  is in the session when the \<^verbatim>\<open>catch\<close> block runs. The watcher that the writes of
  \<^verbatim>\<open>loadBundle\<close> queued runs before the statement after the \<^verbatim>\<open>await\<close> (or the \<^verbatim>\<open>catch\<close>
  block) does; the watcher that the write of the template engine on line 166 queued runs
  after line 169, when the function has ended.
\<close>

definition getBundle :: "env \<Rightarrow> string \<Rightarrow> state \<Rightarrow> state" where
  "getBundle E ident st =
     (case fetch E (bundle_url E ident) of
        FetchRejected \<Rightarrow>
          st\<lparr>bundleError := Some (''Error loading bundle: '' @ error_text E TransportFailure)\<rparr>
      | Response ok statusText form \<Rightarrow>
          if \<not> ok then st\<lparr>bundleError := Some (''Error loading bundle: '' @ statusText)\<rparr>
          else (case form of
                  None \<Rightarrow>
                    st\<lparr>bundleError :=
                      Some (''Error loading bundle: '' @ error_text E TransportFailure)\<rparr>
                | Some data \<Rightarrow>
                    (let queued = loadBundle_triggers E (form_bundle data) (session st) in
                     case loadBundle E (form_bundle data) (session st) of
                       (Some e, t) \<Rightarrow>
                         (flushJobs queued (st\<lparr>session := t\<rparr>))
                           \<lparr>bundleError := Some (''Error loading bundle: '' @ error_text E e)\<rparr>
                     | (None, t) \<Rightarrow>
                         (let st1 = flushJobs queued (st\<lparr>session := t\<rparr>);
                              engine = EnumRenderTemplateDataTemplateEngine E
                                         (form_templateEngine data)
                          in flushJobs (engine \<noteq> templateEngine t)
                               (st1\<lparr>session := t\<lparr>templateEngine := engine\<rparr>,
                                    currentBundle :=
                                      Some \<lparr>bundle_id = ident, bundle_name = form_name data\<rparr>,
                                    dirty := False\<rparr>)))))"

text \<open>
  \<^verbatim>\<open>storeBundle\<close> returns the identifier with the state. \<^verbatim>\<open>packBundle\<close> throws inside the
  \<^verbatim>\<open>try\<close> block, before the service is called.
\<close>

definition storeBundle :: "env \<Rightarrow> string \<Rightarrow> state \<Rightarrow> string \<times> state" where
  "storeBundle E nm st =
     (case packBundle E (session st) includedFilesAll of
        Inl e \<Rightarrow> ([], st\<lparr>bundleError := Some (''Error saving bundle: '' @ error_text E e)\<rparr>)
      | Inr bundle \<Rightarrow>
          (case SaveHtmlBundleService_htmlBundle E
                  \<lparr>req_bundle = bundle, req_name = nm,
                   req_id = (case currentBundle st of None \<Rightarrow> [] | Some b \<Rightarrow> bundle_id b),
                   req_templateEngine = templateEngine (session st)\<rparr> of
             Inl e \<Rightarrow> ([], st\<lparr>bundleError := Some (''Error saving bundle: '' @ error_text E e)\<rparr>)
           | Inr res_id \<Rightarrow>
               (res_id,
                st\<lparr>currentBundle := Some \<lparr>bundle_id = res_id, bundle_name = nm\<rparr>,
                   dirty := False\<rparr>)))"

text \<open>
  The watcher of \<^verbatim>\<open>bundleFileInputModel\<close> (lines 207 to 215), called with the new value
  \<^verbatim>\<open>b\<close> of the ref: the writes of the callback itself, which never assigns the dirty
  flag; the watcher of the view model is the transition \<^verbatim>\<open>session_watch\<close> beside it. When
  \<^verbatim>\<open>loadBundle\<close> rejects, the callback ends there: nothing catches the exception and the
  statements after the \<^verbatim>\<open>await\<close> do not run.
\<close>

definition bundleFileInput_watch :: "env \<Rightarrow> archive option \<Rightarrow> state \<Rightarrow> state" where
  "bundleFileInput_watch E b st =
     (case b of
        None \<Rightarrow> st\<lparr>bundleFileInputModel := None\<rparr>
      | Some file \<Rightarrow>
          (case loadBundle E file (session st) of
             (Some e, t) \<Rightarrow> st\<lparr>session := t\<rparr>
           | (None, t) \<Rightarrow>
               (cleanLocalStorageBundle (st\<lparr>session := t, currentBundle := None\<rparr>))
                 \<lparr>bundleFileInputModel := None\<rparr>))"

text \<open>The selection that \<^verbatim>\<open>downloadBundle\<close> passes to \<^verbatim>\<open>packBundle\<close> for each of its modes.\<close>

datatype only =
    DocumentWithoutHeaderAndFooter | OnlyBody | OnlyHeader | OnlyFooter | OnlyOptions | OnlyAssets

definition noFiles :: IncludedFiles where
  "noFiles =
     \<lparr>incl_index = False, incl_header = False, incl_footer = False,
      incl_options = False, incl_assets = False, incl_exampleModel = False\<rparr>"

definition downloadBundle_includedFiles :: "only option \<Rightarrow> IncludedFiles" where
  "downloadBundle_includedFiles x =
     (case x of
        None \<Rightarrow> includedFilesAll
      | Some DocumentWithoutHeaderAndFooter \<Rightarrow>
          noFiles\<lparr>incl_index := True, incl_options := True, incl_assets := True\<rparr>
      | Some OnlyBody \<Rightarrow> noFiles\<lparr>incl_index := True\<rparr>
      | Some OnlyHeader \<Rightarrow> noFiles\<lparr>incl_header := True\<rparr>
      | Some OnlyFooter \<Rightarrow> noFiles\<lparr>incl_footer := True\<rparr>
      | Some OnlyOptions \<Rightarrow> noFiles\<lparr>incl_options := True\<rparr>
      | Some OnlyAssets \<Rightarrow> noFiles\<lparr>incl_assets := True\<rparr>)"

subsection \<open>A reference JSON platform\<close>

text \<open>
  An instance of the JSON parameters, used where a statement is evaluated at concrete
  data. It covers the fragment of JSON with strings whose only escapes are the quote and
  the backslash and with numerals that have no fraction: an integer up to \<^verbatim>\<open>2^53\<close>, which a
  double holds exactly, also written with an exponent, and a numeral with an exponent of
  309 or more, which is beyond every double and parses to an infinite value.
  \<^verbatim>\<open>ref_parse\<close> rejects every other text.
  \<^verbatim>\<open>ref_stringify\<close> prints as \<^verbatim>\<open>JSON.stringify(v)\<close> does and \<^verbatim>\<open>ref_stringify2\<close> as
  \<^verbatim>\<open>JSON.stringify(v, null, 2)\<close>, for values of that fragment: an integer in decimal digits,
  an infinite number as \<^verbatim>\<open>null\<close>. The parsers take a list as fuel, one element for each
  nesting level; \<^verbatim>\<open>ref_parse\<close> supplies more than the text can use.
\<close>

definition dquote :: char where "dquote = CHR 0x22"
definition backslash :: char where "backslash = CHR 0x5C"
definition newline :: char where "newline = CHR 0x0A"

definition show_int :: "int \<Rightarrow> string" where
  "show_int i = (if i < 0 then CHR ''-'' # show_nat (nat (- i)) else show_nat (nat i))"

definition quote :: "string \<Rightarrow> string" where
  "quote s =
     dquote # concat (map (\<lambda>c. if c = dquote \<or> c = backslash then [backslash, c] else [c]) s)
       @ [dquote]"

fun commas :: "string \<Rightarrow> string list \<Rightarrow> string" where
  "commas sep [] = []"
| "commas sep [x] = x"
| "commas sep (x # y # ys) = x @ sep @ commas sep (y # ys)"

fun ref_stringify :: "json \<Rightarrow> string" where
  "ref_stringify JNull = ''null''"
| "ref_stringify (JBool b) = (if b then ''true'' else ''false'')"
| "ref_stringify (JNum i) = show_int i"
| "ref_stringify JInfinity = ''null''"
| "ref_stringify JMinusInfinity = ''null''"
| "ref_stringify (JStr s) = quote s"
| "ref_stringify (JArr vs) = ''['' @ commas '','' (map ref_stringify vs) @ '']''"
| "ref_stringify (JObj kvs) =
     ''{'' @ commas '','' (map (\<lambda>kv. quote (fst kv) @ '':'' @ ref_stringify (snd kv)) kvs) @ ''}''"

fun ref_stringify2 :: "nat \<Rightarrow> json \<Rightarrow> string" where
  "ref_stringify2 ind (JArr vs) =
     (if vs = [] then ''[]''
      else ''['' @ [newline]
        @ commas ('','' @ [newline])
            (map (\<lambda>v. replicate (ind + 2) CHR '' '' @ ref_stringify2 (ind + 2) v) vs)
        @ [newline] @ replicate ind CHR '' '' @ '']'')"
| "ref_stringify2 ind (JObj kvs) =
     (if kvs = [] then ''{}''
      else ''{'' @ [newline]
        @ commas ('','' @ [newline])
            (map (\<lambda>kv. replicate (ind + 2) CHR '' '' @ quote (fst kv) @ '': ''
                        @ ref_stringify2 (ind + 2) (snd kv)) kvs)
        @ [newline] @ replicate ind CHR '' '' @ ''}'')"
| "ref_stringify2 ind v = ref_stringify v"

definition is_ws :: "char \<Rightarrow> bool" where
  "is_ws c = (c = CHR '' '' \<or> c = newline \<or> c = CHR 0x0D \<or> c = CHR 0x09)"

definition is_digit :: "char \<Rightarrow> bool" where
  "is_digit c = ((48::nat) \<le> of_char c \<and> of_char c \<le> (57::nat))"

definition skip_ws :: "string \<Rightarrow> string" where
  "skip_ws cs = dropWhile is_ws cs"

fun parse_chars :: "string \<Rightarrow> (string \<times> string) option" where
  "parse_chars [] = None"
| "parse_chars (c # cs) =
     (if c = dquote then Some ([], cs)
      else if c = backslash then
        (case cs of
           [] \<Rightarrow> None
         | e # cs' \<Rightarrow>
             if e = dquote \<or> e = backslash
             then (case parse_chars cs' of None \<Rightarrow> None | Some (s, r) \<Rightarrow> Some (e # s, r))
             else None)
      else if of_char c < (32::nat) then None
      else (case parse_chars cs of None \<Rightarrow> None | Some (s, r) \<Rightarrow> Some (c # s, r)))"

definition digits_value :: "string \<Rightarrow> nat" where
  "digits_value ds = foldl (\<lambda>a c. 10 * a + (of_char c - 48)) 0 ds"

text \<open>
  The digits of a numeral and its exponent, if it has one: the value when it is an
  integer that a double holds exactly, \<^verbatim>\<open>None\<close> for it when it is beyond every double.
\<close>

definition parse_magnitude :: "string \<Rightarrow> (nat option \<times> string) option" where
  "parse_magnitude cs =
     (let ds = takeWhile is_digit cs; r = dropWhile is_digit cs; m = digits_value ds
      in if ds = [] \<or> (hd ds = CHR ''0'' \<and> tl ds \<noteq> []) then None
         else if r \<noteq> [] \<and> hd r = CHR ''.'' then None
         else if r \<noteq> [] \<and> (hd r = CHR ''e'' \<or> hd r = CHR ''E'') then
           (let r1 = (if tl r \<noteq> [] \<and> hd (tl r) = CHR ''+'' then tl (tl r) else tl r);
                es = takeWhile is_digit r1; r2 = dropWhile is_digit r1
            in if es = [] then None
               else if m = 0 then Some (Some 0, r2)
               else if 309 \<le> digits_value es then Some (None, r2)
               else if m * 10 ^ digits_value es \<le> 9007199254740992
                 then Some (Some (m * 10 ^ digits_value es), r2)
               else None)
         else if m \<le> 9007199254740992 then Some (Some m, r)
         else None)"

definition parse_number :: "string \<Rightarrow> (json \<times> string) option" where
  "parse_number cs =
     (case cs of
        [] \<Rightarrow> None
      | c # r \<Rightarrow>
          if c = CHR ''-''
          then (case parse_magnitude r of
                  None \<Rightarrow> None
                | Some (None, r') \<Rightarrow> Some (JMinusInfinity, r')
                | Some (Some n, r') \<Rightarrow> if n = 0 then None else Some (JNum (- int n), r'))
          else (case parse_magnitude cs of
                  None \<Rightarrow> None
                | Some (None, r') \<Rightarrow> Some (JInfinity, r')
                | Some (Some n, r') \<Rightarrow> Some (JNum (int n), r')))"

definition parse_literal :: "string \<Rightarrow> json \<Rightarrow> string \<Rightarrow> (json \<times> string) option" where
  "parse_literal w v cs = (if prefix w cs then Some (v, drop (length w) cs) else None)"

fun parse_value :: "'f list \<Rightarrow> string \<Rightarrow> (json \<times> string) option"
  and parse_elements :: "'f list \<Rightarrow> json list \<Rightarrow> string \<Rightarrow> (json \<times> string) option"
  and parse_members :: "'f list \<Rightarrow> (string \<times> json) list \<Rightarrow> string \<Rightarrow> (json \<times> string) option"
where
  "parse_value [] cs = None"
| "parse_value (f # fuel) cs =
     (case skip_ws cs of
        [] \<Rightarrow> None
      | c # r \<Rightarrow>
          if c = CHR ''{'' then
            (case skip_ws r of
               [] \<Rightarrow> None
             | d # r' \<Rightarrow> if d = CHR ''}'' then Some (JObj [], r') else parse_members fuel [] r)
          else if c = CHR ''['' then
            (case skip_ws r of
               [] \<Rightarrow> None
             | d # r' \<Rightarrow> if d = CHR '']'' then Some (JArr [], r') else parse_elements fuel [] r)
          else if c = dquote then
            (case parse_chars r of None \<Rightarrow> None | Some (s, r') \<Rightarrow> Some (JStr s, r'))
          else if c = CHR ''t'' then parse_literal ''true'' (JBool True) (c # r)
          else if c = CHR ''f'' then parse_literal ''false'' (JBool False) (c # r)
          else if c = CHR ''n'' then parse_literal ''null'' JNull (c # r)
          else parse_number (c # r))"
| "parse_elements [] acc cs = None"
| "parse_elements (f # fuel) acc cs =
     (case parse_value fuel cs of
        None \<Rightarrow> None
      | Some (v, r) \<Rightarrow>
          (case skip_ws r of
             [] \<Rightarrow> None
           | d # r' \<Rightarrow>
               if d = CHR '','' then parse_elements fuel (acc @ [v]) r'
               else if d = CHR '']'' then Some (JArr (acc @ [v]), r')
               else None))"
| "parse_members [] acc cs = None"
| "parse_members (f # fuel) acc cs =
     (case skip_ws cs of
        [] \<Rightarrow> None
      | q # r0 \<Rightarrow>
          if q \<noteq> dquote then None
          else (case parse_chars r0 of
                  None \<Rightarrow> None
                | Some (k, r1) \<Rightarrow>
                    (case skip_ws r1 of
                       [] \<Rightarrow> None
                     | c # r2 \<Rightarrow>
                         if c \<noteq> CHR '':'' then None
                         else (case parse_value fuel r2 of
                                 None \<Rightarrow> None
                               | Some (v, r3) \<Rightarrow>
                                   (case skip_ws r3 of
                                      [] \<Rightarrow> None
                                    | d # r4 \<Rightarrow>
                                        if d = CHR '','' then parse_members fuel (AList.update k v acc) r4
                                        else if d = CHR ''}'' then Some (JObj (AList.update k v acc), r4)
                                        else None)))))"

definition ref_parse :: "string \<Rightarrow> json option" where
  "ref_parse s =
     (case parse_value (CHR ''.'' # s) s of
        None \<Rightarrow> None
      | Some (v, r) \<Rightarrow> if skip_ws r = [] then Some v else None)"

subsection \<open>Example data\<close>

text \<open>
  An instance of the environment over the reference platform, with base options of the
  kind the specification names (orientation, page format, margins), and a session.
  The remote store of this instance rejects every request, and the text of an exception
  is the name of its class.
\<close>

definition exampleBaseOptions :: "(string \<times> json) list" where
  "exampleBaseOptions =
     [(''landscape'', JBool False),
      (''pageFormat'', JStr ''A4''),
      (''margins'', JObj [(''top'', JNum 25), (''right'', JNum 25),
                          (''bottom'', JNum 20), (''left'', JNum 25)])]"

definition exampleSession :: RenderTemplateDataViewModel where
  "exampleSession =
     \<lparr>htmlTemplate = Some ''<p>old body</p>'',
      headerHtmlTemplate = Some ''<h1>old header</h1>'',
      footerHtmlTemplate = Some ''<i>old footer</i>'',
      options = [(''landscape'', JBool True), (''pageFormat'', JStr ''A5''),
                 (''margins'', JObj [(''top'', JNum 10), (''right'', JNum 10),
                                     (''bottom'', JNum 10), (''left'', JNum 10)])],
      model = JObj [(''title'', JStr ''Report'')],
      modelStr = ref_stringify2 0 (JObj [(''title'', JStr ''Report'')]),
      assets = [\<lparr>name = ''logo.png'', blob = ''PNG-bytes''\<rparr>],
      templateEngine = Some ''golang''\<rparr>"

text \<open>
  The session of the specification's end-to-end scenario: a body, two options, the model
  string \<^verbatim>\<open>{}\<close>, no header, no footer and no assets. It serves as the default data of
  the example environment too.
\<close>

definition scenarioSession :: RenderTemplateDataViewModel where
  "scenarioSession =
     \<lparr>htmlTemplate = Some ''<p>hi</p>'',
      headerHtmlTemplate = None,
      footerHtmlTemplate = None,
      options = [(''pageFormat'', JStr ''A4''), (''landscape'', JBool False)],
      model = JObj [],
      modelStr = ''{}'',
      assets = [],
      templateEngine = None\<rparr>"

definition exampleEnv :: env where
  "exampleEnv =
     \<lparr>JSON_parse = ref_parse,
      JSON_stringify = ref_stringify,
      JSON_stringify2 = ref_stringify2 0,
      getBaseOptions = exampleBaseOptions,
      getBaseRenderData = scenarioSession,
      BundleAssetsFolder = ''assets'',
      EnumRenderTemplateDataTemplateEngine =
        (\<lambda>tag. if tag \<in> set [''golang'', ''handlebars'', ''django''] then Some tag else None),
      serverBaseUrl = ''http://localhost:8000'',
      fetch = (\<lambda>url. FetchRejected),
      SaveHtmlBundleService_htmlBundle = (\<lambda>req. Inl TransportFailure),
      error_text =
        (\<lambda>e. case e of
               CorruptArchive \<Rightarrow> ''Error''
             | SyntaxError \<Rightarrow> ''SyntaxError''
             | TransportFailure \<Rightarrow> ''TypeError'')\<rparr>"

text \<open>
  The state of a session that is linked to a stored bundle and has unsaved changes, and
  replies of the remote store: a bundle whose example model is no JSON, a complete bundle,
  and a store that saves under the empty identifier.
\<close>

definition exampleState :: state where
  "exampleState =
     \<lparr>session = exampleSession,
      currentBundle = Some \<lparr>bundle_id = ''b0'', bundle_name = ''Old''\<rparr>,
      dirty = True,
      bundleError = None,
      bundleFileInputModel = None,
      localStorage_currentBundle = Some ''b0''\<rparr>"

definition brokenBundle :: archive where
  "brokenBundle = Zip [(''index.html'', ''<p>new</p>''), (''example-model.json'', ''{not json'')]"

definition invoiceBundle :: archive where
  "invoiceBundle =
     Zip [(''index.html'', ''<p>invoice</p>''),
          (''options.json'', ''{\"landscape\":false}''),
          (''example-model.json'', ''{\"total\":12}'')]"

definition replyWith :: "archive \<Rightarrow> string \<Rightarrow> fetch_result" where
  "replyWith a url =
     Response True ''OK''
       (Some \<lparr>form_bundle = a, form_templateEngine = ''handlebars'', form_name = ''Invoice''\<rparr>)"

subsection \<open>Notions of the specification\<close>

text \<open>
  The invariant of the example model, in the words of the specification: the model
  string is valid JSON and the model is the value that parsing the string gives.
\<close>

definition model_in_sync :: "env \<Rightarrow> RenderTemplateDataViewModel \<Rightarrow> bool" where
  "model_in_sync E t = (JSON_parse E (modelStr t) = Some (model t))"

text \<open>
  A property of the platform at one text: if the text parses, the indented print of its
  value parses back to that value. \<^verbatim>\<open>JSON.parse\<close> and \<^verbatim>\<open>JSON.stringify\<close> are parameters, so
  where a statement depends on this it says so, for the text of the example model that
  an archive holds.
\<close>

definition reparses :: "env \<Rightarrow> string \<Rightarrow> bool" where
  "reparses E s =
     (case JSON_parse E s of
        None \<Rightarrow> True
      | Some m \<Rightarrow> JSON_parse E (JSON_stringify2 E m) = Some m)"

definition reparses_archive :: "env \<Rightarrow> archive \<Rightarrow> bool" where
  "reparses_archive E a = (case a of NotAZip \<Rightarrow> True | Zip z \<Rightarrow> reparses E (exampleModelStr z))"

text \<open>
  The name of a file: not empty, without a slash, and not one of the names \<^verbatim>\<open>.\<close> and
  \<^verbatim>\<open>..\<close>, which stand for folders and which a reader of archives may resolve.
\<close>

definition plain_name :: "string \<Rightarrow> bool" where
  "plain_name n = (n \<noteq> [] \<and> CHR ''/'' \<notin> set n \<and> n \<noteq> ''.'' \<and> n \<noteq> ''..'')"

text \<open>Unpacking what the full selection packs: \<^verbatim>\<open>loadBundle(await packBundle(s), target)\<close>.\<close>

definition pack_then_load ::
    "env \<Rightarrow> RenderTemplateDataViewModel \<Rightarrow> RenderTemplateDataViewModel
      \<Rightarrow> error option \<times> RenderTemplateDataViewModel" where
  "pack_then_load E s target =
     (case packBundle E s includedFilesAll of
        Inl e \<Rightarrow> (Some e, target)
      | Inr a \<Rightarrow> loadBundle E a target)"

section \<open>Properties\<close>

subsection \<open>Unfolding\<close>

lemmas ref_codec_defs = ref_parse_def skip_ws_def is_ws_def newline_def dquote_def backslash_def
  parse_literal_def parse_number_def parse_magnitude_def digits_value_def is_digit_def quote_def
  show_int_def digit_char_def

lemmas example_defs = exampleEnv_def exampleSession_def exampleBaseOptions_def

lemmas load_defs = loadBundle_def load_templates_def load_options_def load_exampleModel_def
  load_assets_def exampleModelStr_def truthy_def spread_into_def own_properties_def

lemmas zip_defs = zip_file_def fileAdd_def folderAdd.simps parentFolder_def
  forceTrailingSlash_def generateAsync_def

lemmas pack_defs = packBundle_def pack_members_def asset_path_def pack_index_def pack_header_def pack_footer_def
  pack_options_def pack_exampleModel_def pack_assets_def zip_defs includedFilesAll_def
  noFiles_def downloadBundle_includedFiles_def

subsection \<open>What loadBundle leaves in its target\<close>

lemma load_templates_other [simp]:
  "options (load_templates z t) = options t"
  "model (load_templates z t) = model t"
  "modelStr (load_templates z t) = modelStr t"
  "assets (load_templates z t) = assets t"
  "templateEngine (load_templates z t) = templateEngine t"
  by (simp_all add: load_templates_def Let_def)

lemma load_templates_fields:
  "htmlTemplate (load_templates z t) =
     (if truthy (map_of z ''index.html'') then map_of z ''index.html'' else htmlTemplate t)"
  "headerHtmlTemplate (load_templates z t) =
     (if truthy (map_of z ''header.html'') then map_of z ''header.html''
      else headerHtmlTemplate t)"
  "footerHtmlTemplate (load_templates z t) =
     (if truthy (map_of z ''footer.html'') then map_of z ''footer.html''
      else footerHtmlTemplate t)"
  by (simp_all add: load_templates_def Let_def)

lemma load_options_other:
  assumes "load_options E z t = Inr t'"
  shows "htmlTemplate t' = htmlTemplate t" "headerHtmlTemplate t' = headerHtmlTemplate t"
    "footerHtmlTemplate t' = footerHtmlTemplate t" "model t' = model t"
    "modelStr t' = modelStr t" "assets t' = assets t" "templateEngine t' = templateEngine t"
  using assms by (auto simp: load_options_def split: option.splits if_splits)

lemma load_exampleModel_other:
  assumes "load_exampleModel E z t = Inr t'"
  shows "htmlTemplate t' = htmlTemplate t" "headerHtmlTemplate t' = headerHtmlTemplate t"
    "footerHtmlTemplate t' = footerHtmlTemplate t" "options t' = options t"
    "assets t' = assets t" "templateEngine t' = templateEngine t"
  using assms by (auto simp: load_exampleModel_def split: option.splits if_splits)

lemma load_assets_other [simp]:
  "htmlTemplate (load_assets E z t) = htmlTemplate t"
  "headerHtmlTemplate (load_assets E z t) = headerHtmlTemplate t"
  "footerHtmlTemplate (load_assets E z t) = footerHtmlTemplate t"
  "options (load_assets E z t) = options t"
  "model (load_assets E z t) = model t"
  "modelStr (load_assets E z t) = modelStr t"
  "templateEngine (load_assets E z t) = templateEngine t"
  by (simp_all add: load_assets_def Let_def)

text \<open>The outcome of loadBundle on an archive, as a case distinction.\<close>

lemma loadBundle_cases:
  obtains
    (options_fail) "load_options E z (load_templates z t) = Inl SyntaxError"
      "loadBundle E (Zip z) t = (Some SyntaxError, load_templates z t)"
  | (model_fail) t4 where "load_options E z (load_templates z t) = Inr t4"
      "load_exampleModel E z t4 = Inl SyntaxError"
      "loadBundle E (Zip z) t = (Some SyntaxError, t4)"
  | (ok) t4 t5 where "load_options E z (load_templates z t) = Inr t4"
      "load_exampleModel E z t4 = Inr t5"
      "loadBundle E (Zip z) t = (None, load_assets E z t5)"
proof (cases "load_options E z (load_templates z t)")
  case (Inl e)
  then have "e = SyntaxError"
    by (auto simp: load_options_def split: option.splits if_splits)
  with Inl show ?thesis
    using options_fail by (simp add: loadBundle_def)
next
  case (Inr t4)
  show ?thesis
  proof (cases "load_exampleModel E z t4")
    case (Inl e)
    then have "e = SyntaxError"
      by (auto simp: load_exampleModel_def split: option.splits if_splits)
    with Inl Inr show ?thesis
      using model_fail by (simp add: loadBundle_def)
  next
    case (Inr t5)
    with \<open>load_options E z (load_templates z t) = Inr t4\<close> show ?thesis
      using ok by (simp add: loadBundle_def)
  qed
qed

lemma loadBundle_templates:
  "htmlTemplate (snd (loadBundle E (Zip z) t)) =
     (if truthy (map_of z ''index.html'') then map_of z ''index.html'' else htmlTemplate t)"
  "headerHtmlTemplate (snd (loadBundle E (Zip z) t)) =
     (if truthy (map_of z ''header.html'') then map_of z ''header.html''
      else headerHtmlTemplate t)"
  "footerHtmlTemplate (snd (loadBundle E (Zip z) t)) =
     (if truthy (map_of z ''footer.html'') then map_of z ''footer.html''
      else footerHtmlTemplate t)"
  "templateEngine (snd (loadBundle E (Zip z) t)) = templateEngine t"
  by (cases E z t rule: loadBundle_cases;
      simp add: load_templates_fields load_options_other load_exampleModel_other)+

lemma loadBundle_options:
  "options (snd (loadBundle E (Zip z) t)) =
     (case map_of z ''options.json'' of
        None \<Rightarrow> options t
      | Some s \<Rightarrow>
          if s = [] then options t
          else (case JSON_parse E s of
                  None \<Rightarrow> options t
                | Some v \<Rightarrow> spread_into (spread_into [] (getBaseOptions E)) (own_properties v)))"
proof (cases E z t rule: loadBundle_cases)
  case options_fail
  then show ?thesis
    by (auto simp: load_options_def split: option.splits if_splits)
next
  case (model_fail t4)
  then show ?thesis
    by (auto simp: load_options_def split: option.splits if_splits)
next
  case (ok t4 t5)
  then show ?thesis
    by (auto simp: load_options_def load_exampleModel_other split: option.splits if_splits)
qed

lemma loadBundle_outcome:
  "fst (loadBundle E (Zip z) t) =
     (if (case map_of z ''options.json'' of
            None \<Rightarrow> False
          | Some s \<Rightarrow> s \<noteq> [] \<and> JSON_parse E s = None)
         \<or> (exampleModelStr z \<noteq> [] \<and> JSON_parse E (exampleModelStr z) = None)
      then Some SyntaxError else None)"
  by (cases E z t rule: loadBundle_cases)
     (auto simp: load_options_def load_exampleModel_def split: option.splits if_splits)

lemma loadBundle_model_fail:
  assumes "fst (loadBundle E a t) \<noteq> None"
  shows "model (snd (loadBundle E a t)) = model t"
    "modelStr (snd (loadBundle E a t)) = modelStr t"
    "assets (snd (loadBundle E a t)) = assets t"
proof -
  show "model (snd (loadBundle E a t)) = model t"
  proof (cases a)
    case NotAZip
    then show ?thesis by (simp add: loadBundle_def)
  next
    case (Zip z)
    with assms show ?thesis
      by (cases E z t rule: loadBundle_cases) (auto simp: load_options_other)
  qed
  show "modelStr (snd (loadBundle E a t)) = modelStr t"
  proof (cases a)
    case NotAZip
    then show ?thesis by (simp add: loadBundle_def)
  next
    case (Zip z)
    with assms show ?thesis
      by (cases E z t rule: loadBundle_cases) (auto simp: load_options_other)
  qed
  show "assets (snd (loadBundle E a t)) = assets t"
  proof (cases a)
    case NotAZip
    then show ?thesis by (simp add: loadBundle_def)
  next
    case (Zip z)
    with assms show ?thesis
      by (cases E z t rule: loadBundle_cases) (auto simp: load_options_other)
  qed
qed

lemma loadBundle_model_ok:
  assumes "fst (loadBundle E (Zip z) t) = None"
  shows "(model (snd (loadBundle E (Zip z) t)), modelStr (snd (loadBundle E (Zip z) t))) =
     (if exampleModelStr z = [] then (model t, modelStr t)
      else (case JSON_parse E (exampleModelStr z) of
              None \<Rightarrow> (model t, modelStr t)
            | Some m \<Rightarrow> (m, JSON_stringify2 E m)))"
  using assms
  by (cases E z t rule: loadBundle_cases)
     (auto simp: load_exampleModel_def load_options_other split: option.splits if_splits)

lemma loadBundle_assets_ok:
  assumes "fst (loadBundle E (Zip z) t) = None"
  shows "assets (snd (loadBundle E (Zip z) t)) =
     (if read_assets (BundleAssetsFolder E @ ''/'') z (map fst z) = [] then assets t
      else read_assets (BundleAssetsFolder E @ ''/'') z (map fst z))"
  using assms
  by (cases E z t rule: loadBundle_cases)
     (auto simp: load_assets_def Let_def load_exampleModel_other load_options_other)

subsection \<open>Members and the assets path\<close>

lemma prefix_slash: "prefix (f @ ''/'') k \<Longrightarrow> CHR ''/'' \<in> set k"
  by (auto simp: prefix_def)

lemma read_assets_none:
  "(\<And>k. k \<in> set ks \<Longrightarrow> \<not> prefix p k \<or> k = p) \<Longrightarrow> read_assets p z ks = []"
  by (induction ks) auto

lemma read_assets_removeAll:
  "\<not> prefix p k \<Longrightarrow> read_assets p (AList.delete k z) (removeAll k ks) = read_assets p z ks"
  by (induction ks) (auto simp: AList.delete_conv' split: option.splits)

lemma read_assets_delete:
  "\<not> prefix p k \<Longrightarrow>
     read_assets p (AList.delete k z) (map fst (AList.delete k z)) = read_assets p z (map fst z)"
  by (simp add: AList.delete_keys read_assets_removeAll)

lemma loadBundle_delete:
  assumes "\<not> prefix (BundleAssetsFolder E @ ''/'') k"
    and "k \<noteq> ''options.json''" and "k \<noteq> ''example-model.json''"
    and "load_templates (AList.delete k z) t = load_templates z t"
  shows "loadBundle E (Zip (AList.delete k z)) t = loadBundle E (Zip z) t"
proof -
  have o: "load_options E (AList.delete k z) u = load_options E z u" for u
    using assms(2) by (simp add: load_options_def AList.delete_conv')
  have m: "load_exampleModel E (AList.delete k z) u = load_exampleModel E z u" for u
    using assms(3) by (simp add: load_exampleModel_def exampleModelStr_def AList.delete_conv')
  have a: "load_assets E (AList.delete k z) u = load_assets E z u" for u
    using assms(1) by (simp add: load_assets_def read_assets_delete)
  show ?thesis
    by (simp add: loadBundle_def assms(4) o m a cong: sum.case_cong)
qed

lemma no_slash_no_asset:
  "CHR ''/'' \<notin> set k \<Longrightarrow> \<not> prefix (f @ ''/'') k"
  using prefix_slash by blast

lemma loadBundle_delete_empty_index:
  assumes "map_of z ''index.html'' = Some []"
  shows "loadBundle E (Zip (AList.delete ''index.html'' z)) t = loadBundle E (Zip z) t"
proof (rule loadBundle_delete)
  show "load_templates (AList.delete ''index.html'' z) t = load_templates z t"
    using assms by (simp add: load_templates_def truthy_def AList.delete_conv')
  show "\<not> prefix (BundleAssetsFolder E @ ''/'') ''index.html''"
    by (rule no_slash_no_asset) simp
qed simp_all

lemma loadBundle_delete_empty_header:
  assumes "map_of z ''header.html'' = Some []"
  shows "loadBundle E (Zip (AList.delete ''header.html'' z)) t = loadBundle E (Zip z) t"
proof (rule loadBundle_delete)
  show "load_templates (AList.delete ''header.html'' z) t = load_templates z t"
    using assms by (simp add: load_templates_def truthy_def AList.delete_conv')
  show "\<not> prefix (BundleAssetsFolder E @ ''/'') ''header.html''"
    by (rule no_slash_no_asset) simp
qed simp_all

lemma loadBundle_delete_empty_footer:
  assumes "map_of z ''footer.html'' = Some []"
  shows "loadBundle E (Zip (AList.delete ''footer.html'' z)) t = loadBundle E (Zip z) t"
proof (rule loadBundle_delete)
  show "load_templates (AList.delete ''footer.html'' z) t = load_templates z t"
    using assms by (simp add: load_templates_def truthy_def AList.delete_conv')
  show "\<not> prefix (BundleAssetsFolder E @ ''/'') ''footer.html''"
    by (rule no_slash_no_asset) simp
qed simp_all

lemma loadBundle_NotAZip [simp]: "loadBundle E NotAZip t = (Some CorruptArchive, t)"
  by (simp add: loadBundle_def)

lemma loadBundle_never_empties:
  "htmlTemplate (snd (loadBundle E a t)) = Some [] \<Longrightarrow> htmlTemplate t = Some []"
  "headerHtmlTemplate (snd (loadBundle E a t)) = Some [] \<Longrightarrow> headerHtmlTemplate t = Some []"
  "footerHtmlTemplate (snd (loadBundle E a t)) = Some [] \<Longrightarrow> footerHtmlTemplate t = Some []"
proof -
  show "htmlTemplate (snd (loadBundle E a t)) = Some [] \<Longrightarrow> htmlTemplate t = Some []"
    by (cases a) (simp_all add: loadBundle_templates truthy_def split: if_splits)
  show "headerHtmlTemplate (snd (loadBundle E a t)) = Some [] \<Longrightarrow> headerHtmlTemplate t = Some []"
    by (cases a) (simp_all add: loadBundle_templates truthy_def split: if_splits)
  show "footerHtmlTemplate (snd (loadBundle E a t)) = Some [] \<Longrightarrow> footerHtmlTemplate t = Some []"
    by (cases a) (simp_all add: loadBundle_templates truthy_def split: if_splits)
qed

text \<open>
  C10. A text member (\<^verbatim>\<open>index.html\<close>, \<^verbatim>\<open>header.html\<close>, \<^verbatim>\<open>footer.html\<close>) that is present
  with empty content leaves its field of the target unchanged, and the whole call does
  what it does on the archive without that member. So loadBundle never sets the body,
  the header or the footer to the empty string: a field that is empty afterwards was
  empty before.
\<close>

theorem loadBundle_empty_text_member:
  "(map_of z ''index.html'' = Some [] \<longrightarrow>
      htmlTemplate (snd (loadBundle E (Zip z) t)) = htmlTemplate t \<and>
      loadBundle E (Zip z) t = loadBundle E (Zip (AList.delete ''index.html'' z)) t) \<and>
   (map_of z ''header.html'' = Some [] \<longrightarrow>
      headerHtmlTemplate (snd (loadBundle E (Zip z) t)) = headerHtmlTemplate t \<and>
      loadBundle E (Zip z) t = loadBundle E (Zip (AList.delete ''header.html'' z)) t) \<and>
   (map_of z ''footer.html'' = Some [] \<longrightarrow>
      footerHtmlTemplate (snd (loadBundle E (Zip z) t)) = footerHtmlTemplate t \<and>
      loadBundle E (Zip z) t = loadBundle E (Zip (AList.delete ''footer.html'' z)) t) \<and>
   (htmlTemplate (snd (loadBundle E a t)) = Some [] \<longrightarrow> htmlTemplate t = Some []) \<and>
   (headerHtmlTemplate (snd (loadBundle E a t)) = Some [] \<longrightarrow> headerHtmlTemplate t = Some []) \<and>
   (footerHtmlTemplate (snd (loadBundle E a t)) = Some [] \<longrightarrow> footerHtmlTemplate t = Some [])"
proof -
  have i: "htmlTemplate (snd (loadBundle E (Zip z) t)) = htmlTemplate t"
    if "map_of z ''index.html'' = Some []"
    using that by (simp add: loadBundle_templates truthy_def)
  have h: "headerHtmlTemplate (snd (loadBundle E (Zip z) t)) = headerHtmlTemplate t"
    if "map_of z ''header.html'' = Some []"
    using that by (simp add: loadBundle_templates truthy_def)
  have f: "footerHtmlTemplate (snd (loadBundle E (Zip z) t)) = footerHtmlTemplate t"
    if "map_of z ''footer.html'' = Some []"
    using that by (simp add: loadBundle_templates truthy_def)
  note d = loadBundle_delete_empty_index [of z E t] loadBundle_delete_empty_header [of z E t]
    loadBundle_delete_empty_footer [of z E t]
  note n = loadBundle_never_empties [of E a t]
  from i h f d n show ?thesis
    by simp
qed

theorem loadBundle_empty_text_member_witness:
  "map_of [(''index.html'', []), (''header.html'', ''<h1>new</h1>'')] ''index.html'' = Some [] \<and>
   htmlTemplate (snd (loadBundle exampleEnv
      (Zip [(''index.html'', []), (''header.html'', ''<h1>new</h1>'')]) exampleSession))
     = Some ''<p>old body</p>'' \<and>
   loadBundle exampleEnv
      (Zip [(''index.html'', []), (''header.html'', ''<h1>new</h1>'')]) exampleSession
     = loadBundle exampleEnv (Zip [(''header.html'', ''<h1>new</h1>'')]) exampleSession"
proof -
  have present: "map_of [(''index.html'', []), (''header.html'', ''<h1>new</h1>'')] ''index.html''
      = Some []"
    by simp
  have old: "htmlTemplate exampleSession = Some ''<p>old body</p>''"
    by (simp add: exampleSession_def)
  have del: "AList.delete ''index.html'' [(''index.html'', []), (''header.html'', ''<h1>new</h1>'')]
      = [(''header.html'', ''<h1>new</h1>'')]"
    by (simp add: AList.delete_simps)
  from present old del show ?thesis
    using loadBundle_empty_text_member
      [of "[(''index.html'', []), (''header.html'', ''<h1>new</h1>'')]" exampleEnv exampleSession
        NotAZip]
    by auto
qed

subsection \<open>The invalid example model\<close>

text \<open>
  C5, as amended. When \<^verbatim>\<open>example-model.json\<close> is present, not empty and no JSON,
  loadBundle rejects with the \<^verbatim>\<open>SyntaxError\<close> of \<^verbatim>\<open>JSON.parse\<close> (the specification's
  MalformedModel). When the member is present and empty, the guard
  \<^verbatim>\<open>if (exampleModelStr)\<close> skips it: it raises nothing, and the call fails only if
  \<^verbatim>\<open>options.json\<close> is not empty and no JSON. In both cases \<^verbatim>\<open>model\<close> and \<^verbatim>\<open>modelStr\<close> of the
  target are what they were.
\<close>

theorem loadBundle_invalid_exampleModel:
  assumes "map_of z ''example-model.json'' = Some s" and "JSON_parse E s = None"
  shows "(s \<noteq> [] \<longrightarrow> fst (loadBundle E (Zip z) t) = Some SyntaxError) \<and>
    (s = [] \<longrightarrow>
       (fst (loadBundle E (Zip z) t) = None) =
       (\<forall>optionsStr. map_of z ''options.json'' = Some optionsStr \<and> optionsStr \<noteq> []
          \<longrightarrow> JSON_parse E optionsStr \<noteq> None)) \<and>
    model (snd (loadBundle E (Zip z) t)) = model t \<and>
    modelStr (snd (loadBundle E (Zip z) t)) = modelStr t"
proof -
  have str: "exampleModelStr z = s"
    using assms(1) by (simp add: exampleModelStr_def)
  have bad: "s \<noteq> [] \<longrightarrow> fst (loadBundle E (Zip z) t) = Some SyntaxError"
    using assms(2) by (simp add: loadBundle_outcome str)
  have empty: "s = [] \<longrightarrow>
       (fst (loadBundle E (Zip z) t) = None) =
       (\<forall>optionsStr. map_of z ''options.json'' = Some optionsStr \<and> optionsStr \<noteq> []
          \<longrightarrow> JSON_parse E optionsStr \<noteq> None)"
    by (auto simp: loadBundle_outcome str split: option.splits)
  have kept: "model (snd (loadBundle E (Zip z) t)) = model t \<and>
      modelStr (snd (loadBundle E (Zip z) t)) = modelStr t"
  proof (cases "fst (loadBundle E (Zip z) t)")
    case None
    from loadBundle_model_ok [OF this] show ?thesis
      using assms(2) by (simp add: str split: if_splits)
  next
    case (Some e)
    then show ?thesis
      by (simp add: loadBundle_model_fail)
  qed
  from bad empty kept show ?thesis
    by blast
qed

theorem loadBundle_invalid_exampleModel_witness:
  "map_of [(''index.html'', ''<p>new</p>''), (''example-model.json'', ''{not json'')]
       ''example-model.json'' = Some ''{not json'' \<and>
   JSON_parse exampleEnv ''{not json'' = None \<and>
   fst (loadBundle exampleEnv
      (Zip [(''index.html'', ''<p>new</p>''), (''example-model.json'', ''{not json'')])
      exampleSession) = Some SyntaxError \<and>
   model (snd (loadBundle exampleEnv
      (Zip [(''index.html'', ''<p>new</p>''), (''example-model.json'', ''{not json'')])
      exampleSession)) = JObj [(''title'', JStr ''Report'')]"
proof -
  have present: "map_of [(''index.html'', ''<p>new</p>''), (''example-model.json'', ''{not json'')]
       ''example-model.json'' = Some ''{not json''"
    by simp
  have invalid: "JSON_parse exampleEnv ''{not json'' = None"
    by (simp add: exampleEnv_def ref_codec_defs)
  have old: "model exampleSession = JObj [(''title'', JStr ''Report'')]"
    by (simp add: exampleSession_def)
  from loadBundle_invalid_exampleModel [OF present invalid, of exampleSession] present invalid old
  show ?thesis
    by simp
qed

text \<open>
  The claim as stated fails where the member is present and empty: the empty text is
  no JSON, yet loadBundle resolves.
\<close>

theorem loadBundle_empty_exampleModel_counterexample:
  "map_of [(''example-model.json'', [])] ''example-model.json'' = Some [] \<and>
   JSON_parse exampleEnv [] = None \<and>
   loadBundle exampleEnv (Zip [(''example-model.json'', [])]) exampleSession
     = (None, exampleSession)"
  by (simp add: load_defs exampleEnv_def ref_codec_defs)

subsection \<open>The options of an archive\<close>

lemma map_of_spread_into_at:
  "map_of (spread_into acc kvs) k =
     (case map_of (rev kvs) k of None \<Rightarrow> map_of acc k | Some x \<Rightarrow> Some x)"
proof (induction kvs arbitrary: acc)
  case Nil
  then show ?case by (simp add: spread_into_def)
next
  case (Cons kv kvs)
  have "spread_into acc (kv # kvs) = spread_into (AList.update (fst kv) (snd kv) acc) kvs"
    by (simp add: spread_into_def)
  then show ?case
    by (cases kv) (simp add: Cons.IH AList.update_conv' map_add_def split: option.splits)
qed

lemma map_of_spread_into: "map_of (spread_into acc kvs) = map_of acc ++ map_of (rev kvs)"
  by (rule ext) (simp add: map_of_spread_into_at map_add_def)

lemma keys_spread_into: "fst ` set (spread_into acc kvs) = fst ` set acc \<union> fst ` set kvs"
  by (induction kvs arbitrary: acc) (auto simp: spread_into_def AList.dom_update)

text \<open>
  C6, as amended. When \<^verbatim>\<open>options.json\<close> is present, not empty and JSON, loadBundle sets
  the options of the target to the base options overlaid with the properties of the
  parsed member. Read as a map from keys to values (the later of two properties with one
  key counts), the new options are the base options overridden by the member's: a key of
  the member has the member's value, every other key has its base value, and every key of
  the base options is a key of the new options. This holds whether or not a later
  statement of loadBundle throws.
\<close>

theorem loadBundle_options_overlay:
  assumes "map_of z ''options.json'' = Some s" and "s \<noteq> []" and "JSON_parse E s = Some v"
  shows "options (snd (loadBundle E (Zip z) t))
      = spread_into (spread_into [] (getBaseOptions E)) (own_properties v) \<and>
    map_of (options (snd (loadBundle E (Zip z) t)))
      = map_of (rev (getBaseOptions E)) ++ map_of (rev (own_properties v)) \<and>
    (\<forall>k. k \<notin> fst ` set (own_properties v) \<longrightarrow>
       map_of (options (snd (loadBundle E (Zip z) t))) k = map_of (rev (getBaseOptions E)) k) \<and>
    (\<forall>k \<in> fst ` set (getBaseOptions E).
       map_of (options (snd (loadBundle E (Zip z) t))) k \<noteq> None)"
proof -
  let ?o = "options (snd (loadBundle E (Zip z) t))"
  have eq: "?o = spread_into (spread_into [] (getBaseOptions E)) (own_properties v)"
    using assms by (simp add: loadBundle_options)
  have m: "map_of ?o = map_of (rev (getBaseOptions E)) ++ map_of (rev (own_properties v))"
    by (simp add: eq map_of_spread_into)
  have absent: "map_of ?o k = map_of (rev (getBaseOptions E)) k"
    if "k \<notin> fst ` set (own_properties v)" for k
  proof -
    from that have "map_of (rev (own_properties v)) k = None"
      by (simp add: map_of_eq_None_iff)
    then show ?thesis
      by (simp add: m map_add_def)
  qed
  have filled: "map_of ?o k \<noteq> None" if "k \<in> fst ` set (getBaseOptions E)" for k
  proof -
    from that have "k \<in> fst ` set ?o"
      by (simp add: eq keys_spread_into)
    then show ?thesis
      by (simp add: map_of_eq_None_iff)
  qed
  from eq m absent filled show ?thesis
    by blast
qed

theorem loadBundle_options_overlay_witness:
  "map_of [(''options.json'', ''{\"landscape\":true}'')] ''options.json''
     = Some ''{\"landscape\":true}'' \<and>
   JSON_parse exampleEnv ''{\"landscape\":true}'' = Some (JObj [(''landscape'', JBool True)]) \<and>
   options (snd (loadBundle exampleEnv (Zip [(''options.json'', ''{\"landscape\":true}'')])
      (exampleSession\<lparr>options := []\<rparr>)))
     = [(''landscape'', JBool True),
        (''pageFormat'', JStr ''A4''),
        (''margins'', JObj [(''top'', JNum 25), (''right'', JNum 25),
                            (''bottom'', JNum 20), (''left'', JNum 25)])]"
proof -
  have present: "map_of [(''options.json'', ''{\"landscape\":true}'')] ''options.json''
     = Some ''{\"landscape\":true}''"
    by simp
  have nonempty: "''{\"landscape\":true}'' \<noteq> []"
    by simp
  have parsed: "JSON_parse exampleEnv ''{\"landscape\":true}''
      = Some (JObj [(''landscape'', JBool True)])"
    by (simp add: exampleEnv_def ref_codec_defs)
  have overlay: "spread_into (spread_into [] (getBaseOptions exampleEnv))
        (own_properties (JObj [(''landscape'', JBool True)]))
     = [(''landscape'', JBool True),
        (''pageFormat'', JStr ''A4''),
        (''margins'', JObj [(''top'', JNum 25), (''right'', JNum 25),
                            (''bottom'', JNum 20), (''left'', JNum 25)])]"
    by (simp add: spread_into_def own_properties_def exampleEnv_def exampleBaseOptions_def)
  from loadBundle_options_overlay [OF present nonempty parsed, of "exampleSession\<lparr>options := []\<rparr>"]
    present parsed overlay
  show ?thesis
    by simp
qed

text \<open>
  The claim as stated fails where \<^verbatim>\<open>options.json\<close> is present and empty: the options of
  the target stay as they were, so a key of the base options that the target lacks stays
  absent.
\<close>

theorem loadBundle_empty_options_counterexample:
  "map_of [(''options.json'', [])] ''options.json'' = Some [] \<and>
   map_of (getBaseOptions exampleEnv) ''pageFormat'' = Some (JStr ''A4'') \<and>
   fst (loadBundle exampleEnv (Zip [(''options.json'', [])])
      (exampleSession\<lparr>options := [(''landscape'', JBool True)]\<rparr>)) = None \<and>
   options (snd (loadBundle exampleEnv (Zip [(''options.json'', [])])
      (exampleSession\<lparr>options := [(''landscape'', JBool True)]\<rparr>)))
     = [(''landscape'', JBool True)] \<and>
   map_of (options (snd (loadBundle exampleEnv (Zip [(''options.json'', [])])
      (exampleSession\<lparr>options := [(''landscape'', JBool True)]\<rparr>)))) ''pageFormat'' = None"
  by (simp add: load_defs exampleEnv_def exampleBaseOptions_def ref_codec_defs)

subsection \<open>Members that an archive lacks\<close>

lemma loadBundle_no_assets:
  assumes "\<forall>k \<in> fst ` set z. \<not> prefix (BundleAssetsFolder E @ ''/'') k \<or> k = BundleAssetsFolder E @ ''/''"
  shows "assets (snd (loadBundle E (Zip z) t)) = assets t"
proof (cases "fst (loadBundle E (Zip z) t)")
  case None
  have "read_assets (BundleAssetsFolder E @ ''/'') z (map fst z) = []"
    using assms by (intro read_assets_none) auto
  with loadBundle_assets_ok [OF None] show ?thesis
    by simp
next
  case (Some e)
  then show ?thesis
    by (simp add: loadBundle_model_fail)
qed

lemma loadBundle_model_default:
  assumes "fst (loadBundle E (Zip z) t) = None" and "map_of z ''example-model.json'' = None"
  shows "JSON_parse E ''{}'' = Some (model (snd (loadBundle E (Zip z) t)))"
    and "modelStr (snd (loadBundle E (Zip z) t))
      = JSON_stringify2 E (model (snd (loadBundle E (Zip z) t)))"
proof -
  have str: "exampleModelStr z = ''{}''"
    using assms(2) by (simp add: exampleModelStr_def)
  have "JSON_parse E ''{}'' \<noteq> None"
    using assms(1) by (simp add: loadBundle_outcome str split: if_splits)
  then obtain m where m: "JSON_parse E ''{}'' = Some m"
    by auto
  with loadBundle_model_ok [OF assms(1)]
  have "model (snd (loadBundle E (Zip z) t)) = m"
    "modelStr (snd (loadBundle E (Zip z) t)) = JSON_stringify2 E m"
    by (simp_all add: str)
  with m show "JSON_parse E ''{}'' = Some (model (snd (loadBundle E (Zip z) t)))"
    and "modelStr (snd (loadBundle E (Zip z) t))
      = JSON_stringify2 E (model (snd (loadBundle E (Zip z) t)))"
    by simp_all
qed

lemma loadBundle_model_present:
  assumes "fst (loadBundle E (Zip z) t) = None" and "map_of z ''example-model.json'' = Some s"
    and "s \<noteq> []"
  shows "JSON_parse E s = Some (model (snd (loadBundle E (Zip z) t)))"
    and "modelStr (snd (loadBundle E (Zip z) t))
      = JSON_stringify2 E (model (snd (loadBundle E (Zip z) t)))"
proof -
  have str: "exampleModelStr z = s"
    using assms(2) by (simp add: exampleModelStr_def)
  have "JSON_parse E s \<noteq> None"
    using assms(1,3) by (simp add: loadBundle_outcome str split: if_splits)
  then obtain m where m: "JSON_parse E s = Some m"
    by auto
  with loadBundle_model_ok [OF assms(1)] assms(3)
  have "model (snd (loadBundle E (Zip z) t)) = m"
    "modelStr (snd (loadBundle E (Zip z) t)) = JSON_stringify2 E m"
    by (simp_all add: str)
  with m show "JSON_parse E s = Some (model (snd (loadBundle E (Zip z) t)))"
    and "modelStr (snd (loadBundle E (Zip z) t))
      = JSON_stringify2 E (model (snd (loadBundle E (Zip z) t)))"
    by simp_all
qed

text \<open>
  C1, as amended. For every archive and target, with \<^verbatim>\<open>t'\<close> the target as loadBundle
  leaves it and \<^verbatim>\<open>r\<close> its outcome: the body, the header, the footer and the options are
  unchanged when their member is absent, the assets are unchanged when no member lies
  under the assets path, and the template engine is never written. A text member that
  is present and not empty overwrites its field. When the call resolves, a present and
  non-empty \<^verbatim>\<open>options.json\<close> has replaced the options by the overlay on the base options,
  a present and non-empty \<^verbatim>\<open>example-model.json\<close> has replaced the model by its parse and
  the model string by the indented print of that value, and the members under the assets
  path, if there are any, have replaced the assets. The example model is not framed: when
  \<^verbatim>\<open>example-model.json\<close> is absent its text defaults to \<^verbatim>\<open>{}\<close>, and a call that resolves
  has set the model to the parse of \<^verbatim>\<open>{}\<close> and the model string to its indented print.
\<close>

theorem loadBundle_absent_members:
  assumes "loadBundle E (Zip z) t = (r, t')"
  shows "(map_of z ''index.html'' = None \<longrightarrow> htmlTemplate t' = htmlTemplate t) \<and>
    (map_of z ''header.html'' = None \<longrightarrow> headerHtmlTemplate t' = headerHtmlTemplate t) \<and>
    (map_of z ''footer.html'' = None \<longrightarrow> footerHtmlTemplate t' = footerHtmlTemplate t) \<and>
    (map_of z ''options.json'' = None \<longrightarrow> options t' = options t) \<and>
    ((\<forall>k \<in> fst ` set z. \<not> prefix (BundleAssetsFolder E @ ''/'') k \<or> k = BundleAssetsFolder E @ ''/'')
       \<longrightarrow> assets t' = assets t) \<and>
    templateEngine t' = templateEngine t \<and>
    (\<forall>s. map_of z ''index.html'' = Some s \<and> s \<noteq> [] \<longrightarrow> htmlTemplate t' = Some s) \<and>
    (\<forall>s. map_of z ''header.html'' = Some s \<and> s \<noteq> [] \<longrightarrow> headerHtmlTemplate t' = Some s) \<and>
    (\<forall>s. map_of z ''footer.html'' = Some s \<and> s \<noteq> [] \<longrightarrow> footerHtmlTemplate t' = Some s) \<and>
    (\<forall>s. r = None \<and> map_of z ''options.json'' = Some s \<and> s \<noteq> [] \<longrightarrow>
       (\<exists>v. JSON_parse E s = Some v \<and>
          options t' = spread_into (spread_into [] (getBaseOptions E)) (own_properties v))) \<and>
    (\<forall>s. r = None \<and> map_of z ''example-model.json'' = Some s \<and> s \<noteq> [] \<longrightarrow>
       JSON_parse E s = Some (model t') \<and> modelStr t' = JSON_stringify2 E (model t')) \<and>
    (r = None \<and> read_assets (BundleAssetsFolder E @ ''/'') z (map fst z) \<noteq> [] \<longrightarrow>
       assets t' = read_assets (BundleAssetsFolder E @ ''/'') z (map fst z)) \<and>
    (r = None \<and> map_of z ''example-model.json'' = None \<longrightarrow>
       JSON_parse E ''{}'' = Some (model t') \<and> modelStr t' = JSON_stringify2 E (model t'))"
proof -
  have r: "fst (loadBundle E (Zip z) t) = r" and t': "snd (loadBundle E (Zip z) t) = t'"
    using assms by simp_all
  have absent_text:
    "map_of z ''index.html'' = None \<longrightarrow> htmlTemplate t' = htmlTemplate t"
    "map_of z ''header.html'' = None \<longrightarrow> headerHtmlTemplate t' = headerHtmlTemplate t"
    "map_of z ''footer.html'' = None \<longrightarrow> footerHtmlTemplate t' = footerHtmlTemplate t"
    "templateEngine t' = templateEngine t"
    using loadBundle_templates [of E z t] by (simp_all add: t' truthy_def)
  have present_text:
    "\<forall>s. map_of z ''index.html'' = Some s \<and> s \<noteq> [] \<longrightarrow> htmlTemplate t' = Some s"
    "\<forall>s. map_of z ''header.html'' = Some s \<and> s \<noteq> [] \<longrightarrow> headerHtmlTemplate t' = Some s"
    "\<forall>s. map_of z ''footer.html'' = Some s \<and> s \<noteq> [] \<longrightarrow> footerHtmlTemplate t' = Some s"
    using loadBundle_templates [of E z t] by (simp_all add: t' truthy_def)
  have absent_options: "map_of z ''options.json'' = None \<longrightarrow> options t' = options t"
    using loadBundle_options [of E z t] by (simp add: t')
  have present_options:
    "\<forall>s. r = None \<and> map_of z ''options.json'' = Some s \<and> s \<noteq> [] \<longrightarrow>
       (\<exists>v. JSON_parse E s = Some v \<and>
          options t' = spread_into (spread_into [] (getBaseOptions E)) (own_properties v))"
    using loadBundle_options [of E z t] loadBundle_outcome [of E z t]
    by (auto simp: t' r split: if_splits)
  have absent_assets:
    "(\<forall>k \<in> fst ` set z. \<not> prefix (BundleAssetsFolder E @ ''/'') k \<or> k = BundleAssetsFolder E @ ''/'')
       \<longrightarrow> assets t' = assets t"
    using loadBundle_no_assets [of z E t] by (simp add: t')
  have present_assets:
    "r = None \<and> read_assets (BundleAssetsFolder E @ ''/'') z (map fst z) \<noteq> [] \<longrightarrow>
       assets t' = read_assets (BundleAssetsFolder E @ ''/'') z (map fst z)"
    using loadBundle_assets_ok [of E z t] by (simp add: t' r)
  have present_model:
    "\<forall>s. r = None \<and> map_of z ''example-model.json'' = Some s \<and> s \<noteq> [] \<longrightarrow>
       JSON_parse E s = Some (model t') \<and> modelStr t' = JSON_stringify2 E (model t')"
    using loadBundle_model_present [of E z t] by (simp add: t' r)
  have absent_model:
    "r = None \<and> map_of z ''example-model.json'' = None \<longrightarrow>
       JSON_parse E ''{}'' = Some (model t') \<and> modelStr t' = JSON_stringify2 E (model t')"
    using loadBundle_model_default [of E z t] by (simp add: t' r)
  from absent_text present_text absent_options present_options absent_assets present_assets
    present_model absent_model
  show ?thesis
    by blast
qed

text \<open>
  The header-only archive that \<^verbatim>\<open>downloadBundle("onlyHeader")\<close> packs, loaded into a
  session with every field set: the header is replaced and the body, the footer, the
  options and the assets stay, but the example model becomes the empty object.
\<close>

theorem loadBundle_absent_members_witness:
  "packBundle exampleEnv (exampleSession\<lparr>headerHtmlTemplate := Some ''<h1>new</h1>''\<rparr>)
       (downloadBundle_includedFiles (Some OnlyHeader))
     = Inr (Zip [(''header.html'', ''<h1>new</h1>'')]) \<and>
   loadBundle exampleEnv (Zip [(''header.html'', ''<h1>new</h1>'')]) exampleSession
     = (None, exampleSession\<lparr>headerHtmlTemplate := Some ''<h1>new</h1>'',
                             model := JObj [], modelStr := ''{}''\<rparr>) \<and>
   htmlTemplate (exampleSession\<lparr>headerHtmlTemplate := Some ''<h1>new</h1>'',
                             model := JObj [], modelStr := ''{}''\<rparr>)
     = htmlTemplate exampleSession \<and>
   JSON_parse exampleEnv ''{}'' = Some (model (exampleSession\<lparr>headerHtmlTemplate := Some ''<h1>new</h1>'',
                             model := JObj [], modelStr := ''{}''\<rparr>))"
proof -
  have packed: "packBundle exampleEnv (exampleSession\<lparr>headerHtmlTemplate := Some ''<h1>new</h1>''\<rparr>)
       (downloadBundle_includedFiles (Some OnlyHeader))
     = Inr (Zip [(''header.html'', ''<h1>new</h1>'')])"
    by (simp add: pack_defs exampleSession_def)
  have loaded: "loadBundle exampleEnv (Zip [(''header.html'', ''<h1>new</h1>'')]) exampleSession
     = (None, exampleSession\<lparr>headerHtmlTemplate := Some ''<h1>new</h1>'',
                             model := JObj [], modelStr := ''{}''\<rparr>)"
    by (simp add: load_defs exampleEnv_def ref_codec_defs)
  have absent: "map_of [(''header.html'', ''<h1>new</h1>'')] ''index.html'' = None"
    "map_of [(''header.html'', ''<h1>new</h1>'')] ''example-model.json'' = None"
    by simp_all
  from loadBundle_absent_members [OF loaded] absent
  have "htmlTemplate (exampleSession\<lparr>headerHtmlTemplate := Some ''<h1>new</h1>'',
                             model := JObj [], modelStr := ''{}''\<rparr>)
     = htmlTemplate exampleSession"
    and "JSON_parse exampleEnv ''{}'' = Some (model (exampleSession\<lparr>headerHtmlTemplate := Some ''<h1>new</h1>'',
                             model := JObj [], modelStr := ''{}''\<rparr>))"
    by blast+
  with packed loaded show ?thesis
    by blast
qed

text \<open>
  The claim as stated fails on that archive: \<^verbatim>\<open>example-model.json\<close> is absent, the call
  resolves, and the model of the target is replaced.
\<close>

theorem loadBundle_header_only_counterexample:
  "packBundle exampleEnv (exampleSession\<lparr>headerHtmlTemplate := Some ''<h1>new</h1>''\<rparr>)
       (downloadBundle_includedFiles (Some OnlyHeader))
     = Inr (Zip [(''header.html'', ''<h1>new</h1>'')]) \<and>
   map_of [(''header.html'', ''<h1>new</h1>'')] ''example-model.json'' = None \<and>
   fst (loadBundle exampleEnv (Zip [(''header.html'', ''<h1>new</h1>'')]) exampleSession) = None \<and>
   model exampleSession = JObj [(''title'', JStr ''Report'')] \<and>
   model (snd (loadBundle exampleEnv (Zip [(''header.html'', ''<h1>new</h1>'')]) exampleSession))
     = JObj [] \<and>
   modelStr (snd (loadBundle exampleEnv (Zip [(''header.html'', ''<h1>new</h1>'')]) exampleSession))
     = ''{}''"
proof -
  have packed: "packBundle exampleEnv (exampleSession\<lparr>headerHtmlTemplate := Some ''<h1>new</h1>''\<rparr>)
       (downloadBundle_includedFiles (Some OnlyHeader))
     = Inr (Zip [(''header.html'', ''<h1>new</h1>'')])"
    by (simp add: pack_defs exampleSession_def)
  have loaded: "loadBundle exampleEnv (Zip [(''header.html'', ''<h1>new</h1>'')]) exampleSession
     = (None, exampleSession\<lparr>headerHtmlTemplate := Some ''<h1>new</h1>'',
                             model := JObj [], modelStr := ''{}''\<rparr>)"
    by (simp add: load_defs exampleEnv_def ref_codec_defs)
  have old: "model exampleSession = JObj [(''title'', JStr ''Report'')]"
    by (simp add: exampleSession_def)
  from packed loaded old show ?thesis
    by simp
qed

subsection \<open>getBundle\<close>

lemma loadBundle_CorruptArchive:
  assumes "loadBundle E a t = (Some CorruptArchive, t')"
  shows "t' = t" and "a = NotAZip"
proof -
  have "a = NotAZip"
  proof (cases a)
    case NotAZip
    then show ?thesis .
  next
    case (Zip z)
    with assms have "fst (loadBundle E (Zip z) t) = Some CorruptArchive"
      by simp
    then show ?thesis
      by (simp add: loadBundle_outcome split: if_splits)
  qed
  then show "a = NotAZip" .
  with assms show "t' = t"
    by simp
qed

lemma loadBundle_rejected_kept:
  assumes "loadBundle E a t = (Some e, t')"
  shows "model t' = model t" "modelStr t' = modelStr t" "assets t' = assets t"
    "templateEngine t' = templateEngine t"
proof -
  have f: "fst (loadBundle E a t) \<noteq> None" and s: "snd (loadBundle E a t) = t'"
    using assms by simp_all
  from loadBundle_model_fail [OF f]
  show "model t' = model t" "modelStr t' = modelStr t" "assets t' = assets t"
    by (simp_all add: s)
  show "templateEngine t' = templateEngine t"
    using s by (cases a) (auto simp: loadBundle_templates)
qed

lemma loadBundle_templateEngine: "templateEngine (snd (loadBundle E a t)) = templateEngine t"
  by (cases a) (simp_all add: loadBundle_templates)

text \<open>A call that rejects and leaves a changed target has queued the watcher.\<close>

lemma loadBundle_rejected_triggers:
  assumes "loadBundle E a t = (Some e, t')" and "t' \<noteq> t"
  shows "loadBundle_triggers E a t"
proof (cases a)
  case NotAZip
  with assms show ?thesis
    by simp
next
  case (Zip z)
  have outcome: "load_options E z u = Inl x \<longleftrightarrow> load_options E z t = Inl x" for u x
    by (auto simp: load_options_def split: option.splits if_splits)
  show ?thesis
  proof (cases E z t rule: loadBundle_cases)
    case options_fail
    with assms Zip show ?thesis
      by (auto simp: loadBundle_triggers_def)
  next
    case (model_fail t4)
    from model_fail(1) obtain u where u: "load_options E z t = Inr u"
      using outcome [of "load_templates z t"] by (cases "load_options E z t") auto
    from model_fail(1) have assigned: "t4 \<noteq> load_templates z t \<longrightarrow> truthy (map_of z ''options.json'')"
      by (auto simp: load_options_def truthy_def split: option.splits if_splits)
    from assms Zip model_fail(3) have "t4 \<noteq> t"
      by simp
    with assigned have "load_templates z t \<noteq> t \<or> truthy (map_of z ''options.json'')"
      by auto
    then show ?thesis
      by (auto simp: loadBundle_triggers_def Zip u split: sum.splits)
  next
    case (ok t4 t5)
    with assms Zip show ?thesis
      by simp
  qed
qed

lemma session_flushJobs [simp]:
  "session (flushJobs queued st) = session st"
  "currentBundle (flushJobs queued st) = currentBundle st"
  "bundleError (flushJobs queued st) = bundleError st"
  "bundleFileInputModel (flushJobs queued st) = bundleFileInputModel st"
  "localStorage_currentBundle (flushJobs queued st) = localStorage_currentBundle st"
  "dirty (flushJobs queued st) = (queued \<or> dirty st)"
  by (simp_all add: flushJobs_def session_watch_def)

lemma flushJobs_dirty: "flushJobs queued st = st\<lparr>dirty := queued \<or> dirty st\<rparr>"
  by (simp add: flushJobs_def session_watch_def)

text \<open>
  C2, as amended. The outcomes of getBundle, by the reply to the request. When the
  request is rejected, the response is not ok or its form data cannot be read, the error
  is set and nothing else of the state changes. When loadBundle rejects, the error is set,
  the current bundle keeps its value, and the session is the target as loadBundle left
  it: the model, the model string, the assets and the template engine are what they
  were, and so is the whole session when the bytes are no archive; the body, the header,
  the footer and the options that were assigned before \<^verbatim>\<open>JSON.parse\<close> threw stay assigned,
  and the dirty flag is set when one of these assignments queued the watcher, which every
  assignment that changed the session did. When loadBundle resolves, getBundle sets the
  template engine from the tag and the current bundle to the identifier and the name of
  the form; the dirty flag, which line 169 clears, ends cleared when the tag leaves the
  template engine as it was, and ends set when the tag changes it, because the watcher
  that line 166 queued runs after line 169.
\<close>

theorem getBundle_outcome:
  "(fetch E (bundle_url E ident) = FetchRejected \<longrightarrow>
      getBundle E ident st =
        st\<lparr>bundleError := Some (''Error loading bundle: '' @ error_text E TransportFailure)\<rparr>) \<and>
   (\<forall>statusText form.
      fetch E (bundle_url E ident) = Response False statusText form \<longrightarrow>
      getBundle E ident st = st\<lparr>bundleError := Some (''Error loading bundle: '' @ statusText)\<rparr>) \<and>
   (\<forall>statusText.
      fetch E (bundle_url E ident) = Response True statusText None \<longrightarrow>
      getBundle E ident st =
        st\<lparr>bundleError := Some (''Error loading bundle: '' @ error_text E TransportFailure)\<rparr>) \<and>
   (\<forall>statusText data e t'.
      fetch E (bundle_url E ident) = Response True statusText (Some data) \<and>
      loadBundle E (form_bundle data) (session st) = (Some e, t') \<longrightarrow>
      getBundle E ident st =
        st\<lparr>session := t',
           dirty := loadBundle_triggers E (form_bundle data) (session st) \<or> dirty st,
           bundleError := Some (''Error loading bundle: '' @ error_text E e)\<rparr> \<and>
      model t' = model (session st) \<and> modelStr t' = modelStr (session st) \<and>
      assets t' = assets (session st) \<and> templateEngine t' = templateEngine (session st) \<and>
      (e = CorruptArchive \<longrightarrow>
         t' = session st \<and> \<not> loadBundle_triggers E (form_bundle data) (session st)) \<and>
      (t' \<noteq> session st \<longrightarrow> loadBundle_triggers E (form_bundle data) (session st))) \<and>
   (\<forall>statusText data t'.
      fetch E (bundle_url E ident) = Response True statusText (Some data) \<and>
      loadBundle E (form_bundle data) (session st) = (None, t') \<longrightarrow>
      getBundle E ident st =
        st\<lparr>session := t'\<lparr>templateEngine :=
                EnumRenderTemplateDataTemplateEngine E (form_templateEngine data)\<rparr>,
           currentBundle := Some \<lparr>bundle_id = ident, bundle_name = form_name data\<rparr>,
           dirty := EnumRenderTemplateDataTemplateEngine E (form_templateEngine data)
                      \<noteq> templateEngine (session st)\<rparr>)"
proof -
  let ?url = "bundle_url E ident"
  have rejected: "fetch E ?url = FetchRejected \<longrightarrow>
      getBundle E ident st =
        st\<lparr>bundleError := Some (''Error loading bundle: '' @ error_text E TransportFailure)\<rparr>"
    by (simp add: getBundle_def)
  have not_ok: "\<forall>statusText form. fetch E ?url = Response False statusText form \<longrightarrow>
      getBundle E ident st = st\<lparr>bundleError := Some (''Error loading bundle: '' @ statusText)\<rparr>"
    by (simp add: getBundle_def)
  have no_form: "\<forall>statusText. fetch E ?url = Response True statusText None \<longrightarrow>
      getBundle E ident st =
        st\<lparr>bundleError := Some (''Error loading bundle: '' @ error_text E TransportFailure)\<rparr>"
    by (simp add: getBundle_def)
  have load_failed: "\<forall>statusText data e t'.
      fetch E ?url = Response True statusText (Some data) \<and>
      loadBundle E (form_bundle data) (session st) = (Some e, t') \<longrightarrow>
      getBundle E ident st =
        st\<lparr>session := t',
           dirty := loadBundle_triggers E (form_bundle data) (session st) \<or> dirty st,
           bundleError := Some (''Error loading bundle: '' @ error_text E e)\<rparr> \<and>
      model t' = model (session st) \<and> modelStr t' = modelStr (session st) \<and>
      assets t' = assets (session st) \<and> templateEngine t' = templateEngine (session st) \<and>
      (e = CorruptArchive \<longrightarrow>
         t' = session st \<and> \<not> loadBundle_triggers E (form_bundle data) (session st)) \<and>
      (t' \<noteq> session st \<longrightarrow> loadBundle_triggers E (form_bundle data) (session st))"
  proof (intro allI impI, elim conjE)
    fix statusText data e t'
    assume f: "fetch E ?url = Response True statusText (Some data)"
      and l: "loadBundle E (form_bundle data) (session st) = (Some e, t')"
    have g: "getBundle E ident st =
        st\<lparr>session := t',
           dirty := loadBundle_triggers E (form_bundle data) (session st) \<or> dirty st,
           bundleError := Some (''Error loading bundle: '' @ error_text E e)\<rparr>"
      by (simp add: getBundle_def f l flushJobs_dirty)
    have c: "e = CorruptArchive \<longrightarrow>
         t' = session st \<and> \<not> loadBundle_triggers E (form_bundle data) (session st)"
      using l loadBundle_CorruptArchive [of E "form_bundle data" "session st" t']
      by (auto simp: loadBundle_triggers_def)
    have q: "t' \<noteq> session st \<longrightarrow> loadBundle_triggers E (form_bundle data) (session st)"
      using loadBundle_rejected_triggers [OF l] by blast
    from g c q loadBundle_rejected_kept [OF l]
    show "getBundle E ident st =
        st\<lparr>session := t',
           dirty := loadBundle_triggers E (form_bundle data) (session st) \<or> dirty st,
           bundleError := Some (''Error loading bundle: '' @ error_text E e)\<rparr> \<and>
      model t' = model (session st) \<and> modelStr t' = modelStr (session st) \<and>
      assets t' = assets (session st) \<and> templateEngine t' = templateEngine (session st) \<and>
      (e = CorruptArchive \<longrightarrow>
         t' = session st \<and> \<not> loadBundle_triggers E (form_bundle data) (session st)) \<and>
      (t' \<noteq> session st \<longrightarrow> loadBundle_triggers E (form_bundle data) (session st))"
      by blast
  qed
  have loaded: "\<forall>statusText data t'.
      fetch E ?url = Response True statusText (Some data) \<and>
      loadBundle E (form_bundle data) (session st) = (None, t') \<longrightarrow>
      getBundle E ident st =
        st\<lparr>session := t'\<lparr>templateEngine :=
                EnumRenderTemplateDataTemplateEngine E (form_templateEngine data)\<rparr>,
           currentBundle := Some \<lparr>bundle_id = ident, bundle_name = form_name data\<rparr>,
           dirty := EnumRenderTemplateDataTemplateEngine E (form_templateEngine data)
                      \<noteq> templateEngine (session st)\<rparr>"
  proof (intro allI impI, elim conjE)
    fix statusText data t'
    assume f: "fetch E ?url = Response True statusText (Some data)"
      and l: "loadBundle E (form_bundle data) (session st) = (None, t')"
    have "templateEngine t' = templateEngine (session st)"
      using loadBundle_templateEngine [of E "form_bundle data" "session st"] by (simp add: l)
    then show "getBundle E ident st =
        st\<lparr>session := t'\<lparr>templateEngine :=
                EnumRenderTemplateDataTemplateEngine E (form_templateEngine data)\<rparr>,
           currentBundle := Some \<lparr>bundle_id = ident, bundle_name = form_name data\<rparr>,
           dirty := EnumRenderTemplateDataTemplateEngine E (form_templateEngine data)
                      \<noteq> templateEngine (session st)\<rparr>"
      by (simp add: getBundle_def f l flushJobs_dirty Let_def)
  qed
  from rejected not_ok no_form load_failed loaded show ?thesis
    by blast
qed

text \<open>
  A bundle is fetched into a session whose template engine is another one, and into the
  same session with the template engine of the bundle: the current bundle and the
  template engine are set in both, and the dirty flag ends set in the first and cleared
  in the second.
\<close>

theorem getBundle_outcome_witness:
  "fetch (exampleEnv\<lparr>fetch := replyWith invoiceBundle\<rparr>)
       (bundle_url (exampleEnv\<lparr>fetch := replyWith invoiceBundle\<rparr>) ''b1'')
     = Response True ''OK''
         (Some \<lparr>form_bundle = invoiceBundle, form_templateEngine = ''handlebars'',
                form_name = ''Invoice''\<rparr>) \<and>
   fst (loadBundle (exampleEnv\<lparr>fetch := replyWith invoiceBundle\<rparr>) invoiceBundle
          (session exampleState)) = None \<and>
   currentBundle (getBundle (exampleEnv\<lparr>fetch := replyWith invoiceBundle\<rparr>) ''b1'' exampleState)
     = Some \<lparr>bundle_id = ''b1'', bundle_name = ''Invoice''\<rparr> \<and>
   templateEngine (session exampleState) = Some ''golang'' \<and>
   templateEngine (session
      (getBundle (exampleEnv\<lparr>fetch := replyWith invoiceBundle\<rparr>) ''b1'' exampleState))
     = Some ''handlebars'' \<and>
   dirty (getBundle (exampleEnv\<lparr>fetch := replyWith invoiceBundle\<rparr>) ''b1'' exampleState) = True \<and>
   dirty (getBundle (exampleEnv\<lparr>fetch := replyWith invoiceBundle\<rparr>) ''b1''
      (exampleState\<lparr>session := exampleSession\<lparr>templateEngine := Some ''handlebars''\<rparr>\<rparr>)) = False"
proof -
  let ?E = "exampleEnv\<lparr>fetch := replyWith invoiceBundle\<rparr>"
  let ?st = "exampleState\<lparr>session := exampleSession\<lparr>templateEngine := Some ''handlebars''\<rparr>\<rparr>"
  have reply: "fetch ?E (bundle_url ?E ''b1'')
     = Response True ''OK''
         (Some \<lparr>form_bundle = invoiceBundle, form_templateEngine = ''handlebars'',
                form_name = ''Invoice''\<rparr>)"
    by (simp add: replyWith_def)
  have ok: "fst (loadBundle ?E invoiceBundle t) = None" for t
    by (simp add: invoiceBundle_def loadBundle_outcome exampleModelStr_def exampleEnv_def
        ref_codec_defs)
  from ok [of "session exampleState"]
  obtain t' where l: "loadBundle ?E invoiceBundle (session exampleState) = (None, t')"
    by (cases "loadBundle ?E invoiceBundle (session exampleState)") simp
  from ok [of "session ?st"]
  obtain t'' where l': "loadBundle ?E invoiceBundle (session ?st) = (None, t'')"
    by (cases "loadBundle ?E invoiceBundle (session ?st)") simp
  have engine: "EnumRenderTemplateDataTemplateEngine exampleEnv ''handlebars'' = Some ''handlebars''"
    by (simp add: exampleEnv_def)
  have before: "templateEngine (session exampleState) = Some ''golang''"
    "templateEngine (session ?st) = Some ''handlebars''"
    by (simp_all add: exampleState_def exampleSession_def)
  note loaded = getBundle_outcome [of ?E "''b1''", THEN conjunct2, THEN conjunct2, THEN conjunct2,
      THEN conjunct2, rule_format, OF conjI, OF reply]
  have "getBundle ?E ''b1'' exampleState =
      exampleState\<lparr>session := t'\<lparr>templateEngine := Some ''handlebars''\<rparr>,
           currentBundle := Some \<lparr>bundle_id = ''b1'', bundle_name = ''Invoice''\<rparr>,
           dirty := True\<rparr>"
    using loaded [of exampleState t'] l by (simp add: engine before)
  moreover have "getBundle ?E ''b1'' ?st =
      ?st\<lparr>session := t''\<lparr>templateEngine := Some ''handlebars''\<rparr>,
           currentBundle := Some \<lparr>bundle_id = ''b1'', bundle_name = ''Invoice''\<rparr>,
           dirty := False\<rparr>"
    using loaded [of ?st t''] l' by (simp add: engine before)
  ultimately show ?thesis
    using reply ok [of "session exampleState"] before(1) by simp
qed

text \<open>
  The claim as stated fails when the decoding fails after the first assignment: the
  fetched bundle has a body and an example model that is no JSON, getBundle sets the
  error, and the body of the session is the one of the bundle.
\<close>

theorem getBundle_partial_load_counterexample:
  "JSON_parse exampleEnv ''{not json'' = None \<and>
   bundleError (getBundle (exampleEnv\<lparr>fetch := replyWith brokenBundle\<rparr>) ''b1'' exampleState)
     \<noteq> None \<and>
   htmlTemplate (session exampleState) = Some ''<p>old body</p>'' \<and>
   htmlTemplate (session
      (getBundle (exampleEnv\<lparr>fetch := replyWith brokenBundle\<rparr>) ''b1'' exampleState))
     = Some ''<p>new</p>''"
proof -
  let ?E = "exampleEnv\<lparr>fetch := replyWith brokenBundle\<rparr>"
  have invalid: "JSON_parse exampleEnv ''{not json'' = None"
    by (simp add: exampleEnv_def ref_codec_defs)
  have l: "loadBundle ?E brokenBundle (session exampleState)
      = (Some SyntaxError, exampleSession\<lparr>htmlTemplate := Some ''<p>new</p>''\<rparr>)"
    by (simp add: brokenBundle_def load_defs exampleEnv_def exampleState_def ref_codec_defs)
  have "getBundle ?E ''b1'' exampleState =
      (flushJobs (loadBundle_triggers ?E brokenBundle (session exampleState))
         (exampleState\<lparr>session := exampleSession\<lparr>htmlTemplate := Some ''<p>new</p>''\<rparr>\<rparr>))
        \<lparr>bundleError := Some (''Error loading bundle: '' @ error_text ?E SyntaxError)\<rparr>"
    by (simp add: getBundle_def replyWith_def l)
  moreover have "htmlTemplate (session exampleState) = Some ''<p>old body</p>''"
    by (simp add: exampleState_def exampleSession_def)
  ultimately show ?thesis
    using invalid by simp
qed

text \<open>
  The clear of line 169 does not last when the bundle brings another template engine:
  in a session without unsaved changes, the fetch of such a bundle succeeds and leaves
  the dirty flag set. A failed fetch that has written the body leaves it set too.
\<close>

lemma getBundle_dirty_after_success:
  "dirty (exampleState\<lparr>dirty := False\<rparr>) = False \<and>
   bundleError (getBundle (exampleEnv\<lparr>fetch := replyWith invoiceBundle\<rparr>) ''b1''
      (exampleState\<lparr>dirty := False\<rparr>)) = None \<and>
   currentBundle (getBundle (exampleEnv\<lparr>fetch := replyWith invoiceBundle\<rparr>) ''b1''
      (exampleState\<lparr>dirty := False\<rparr>)) = Some \<lparr>bundle_id = ''b1'', bundle_name = ''Invoice''\<rparr> \<and>
   dirty (getBundle (exampleEnv\<lparr>fetch := replyWith invoiceBundle\<rparr>) ''b1''
      (exampleState\<lparr>dirty := False\<rparr>)) = True"
proof -
  let ?E = "exampleEnv\<lparr>fetch := replyWith invoiceBundle\<rparr>"
  let ?st = "exampleState\<lparr>dirty := False\<rparr>"
  have ok: "fst (loadBundle ?E invoiceBundle (session exampleState)) = None"
    by (simp add: invoiceBundle_def loadBundle_outcome exampleModelStr_def exampleEnv_def
        ref_codec_defs)
  then obtain t' where l: "loadBundle ?E invoiceBundle (session exampleState) = (None, t')"
    by (cases "loadBundle ?E invoiceBundle (session exampleState)") simp
  have "templateEngine (snd (loadBundle ?E invoiceBundle (session exampleState)))
      = templateEngine (session exampleState)"
    by (rule loadBundle_templateEngine)
  then have "templateEngine t' = templateEngine (session exampleState)"
    unfolding l by simp
  also have "\<dots> = Some ''golang''"
    by (simp add: exampleState_def exampleSession_def)
  finally have before: "templateEngine t' = Some ''golang''" .
  have engine: "EnumRenderTemplateDataTemplateEngine exampleEnv ''handlebars'' = Some ''handlebars''"
    by (simp add: exampleEnv_def)
  have "getBundle ?E ''b1'' ?st =
      ?st\<lparr>session := t'\<lparr>templateEngine := Some ''handlebars''\<rparr>,
           currentBundle := Some \<lparr>bundle_id = ''b1'', bundle_name = ''Invoice''\<rparr>,
           dirty := True\<rparr>"
    by (simp add: getBundle_def replyWith_def flushJobs_dirty Let_def l before engine)
  then show ?thesis
    by (simp add: exampleState_def)
qed

lemma getBundle_dirty_after_failure:
  "dirty (exampleState\<lparr>dirty := False\<rparr>) = False \<and>
   dirty (getBundle (exampleEnv\<lparr>fetch := replyWith brokenBundle\<rparr>) ''b1''
      (exampleState\<lparr>dirty := False\<rparr>)) = True"
proof -
  let ?E = "exampleEnv\<lparr>fetch := replyWith brokenBundle\<rparr>"
  let ?st = "exampleState\<lparr>dirty := False\<rparr>"
  have l: "loadBundle ?E brokenBundle (session exampleState)
      = (Some SyntaxError, exampleSession\<lparr>htmlTemplate := Some ''<p>new</p>''\<rparr>)"
    by (simp add: brokenBundle_def load_defs exampleEnv_def exampleState_def ref_codec_defs)
  have q: "loadBundle_triggers ?E brokenBundle (session exampleState)"
    by (simp add: loadBundle_triggers_def brokenBundle_def load_templates_def truthy_def
        exampleState_def exampleSession_def)
  show ?thesis
    by (simp add: getBundle_def replyWith_def Let_def l q)
qed

subsection \<open>The import of a local file\<close>

text \<open>
  C4, as amended. When the file input receives an archive and loadBundle resolves, the
  session is the target as loadBundle left it, the current bundle is cleared, the
  \<^verbatim>\<open>currentBundle\<close> item of the local storage is removed and the file input is reset.
  The import never clears the dirty flag: this watcher does not write it, and the watcher
  of the session, which the framework runs after the decoded fields are assigned, sets
  it. When loadBundle rejects, this watcher stops there: of the state, only the session
  may have changed.
\<close>

theorem bundleFileInput_watch_outcome:
  "(\<forall>t'. loadBundle E file (session st) = (None, t') \<longrightarrow>
      bundleFileInput_watch E (Some file) st =
        st\<lparr>session := t', currentBundle := None, bundleFileInputModel := None,
           localStorage_currentBundle := None\<rparr>) \<and>
   (\<forall>e t'. loadBundle E file (session st) = (Some e, t') \<longrightarrow>
      bundleFileInput_watch E (Some file) st = st\<lparr>session := t'\<rparr>) \<and>
   bundleFileInput_watch E None st = st\<lparr>bundleFileInputModel := None\<rparr> \<and>
   dirty (bundleFileInput_watch E b st) = dirty st \<and>
   dirty (session_watch (bundleFileInput_watch E b st)) = True \<and>
   bundleError (bundleFileInput_watch E b st) = bundleError st"
proof -
  have resolved: "\<forall>t'. loadBundle E file (session st) = (None, t') \<longrightarrow>
      bundleFileInput_watch E (Some file) st =
        st\<lparr>session := t', currentBundle := None, bundleFileInputModel := None,
           localStorage_currentBundle := None\<rparr>"
    by (simp add: bundleFileInput_watch_def cleanLocalStorageBundle_def)
  have rejected: "\<forall>e t'. loadBundle E file (session st) = (Some e, t') \<longrightarrow>
      bundleFileInput_watch E (Some file) st = st\<lparr>session := t'\<rparr>"
    by (simp add: bundleFileInput_watch_def)
  have none: "bundleFileInput_watch E None st = st\<lparr>bundleFileInputModel := None\<rparr>"
    by (simp add: bundleFileInput_watch_def)
  have kept: "dirty (bundleFileInput_watch E b st) = dirty st \<and>
      bundleError (bundleFileInput_watch E b st) = bundleError st"
    by (simp add: bundleFileInput_watch_def cleanLocalStorageBundle_def
        split: option.splits prod.splits)
  have watched: "dirty (session_watch (bundleFileInput_watch E b st)) = True"
    by (simp add: session_watch_def)
  from resolved rejected none kept watched show ?thesis
    by blast
qed

theorem bundleFileInput_watch_outcome_witness:
  "fst (loadBundle exampleEnv invoiceBundle (session exampleState)) = None \<and>
   session (bundleFileInput_watch exampleEnv (Some invoiceBundle) exampleState)
     = snd (loadBundle exampleEnv invoiceBundle (session exampleState)) \<and>
   currentBundle (bundleFileInput_watch exampleEnv (Some invoiceBundle) exampleState) = None \<and>
   localStorage_currentBundle (bundleFileInput_watch exampleEnv (Some invoiceBundle) exampleState)
     = None \<and>
   dirty (bundleFileInput_watch exampleEnv (Some invoiceBundle) exampleState) = dirty exampleState"
proof -
  have ok: "fst (loadBundle exampleEnv invoiceBundle (session exampleState)) = None"
    by (simp add: invoiceBundle_def loadBundle_outcome exampleModelStr_def exampleEnv_def
        ref_codec_defs)
  then obtain t' where l: "loadBundle exampleEnv invoiceBundle (session exampleState) = (None, t')"
    by (cases "loadBundle exampleEnv invoiceBundle (session exampleState)") simp
  from bundleFileInput_watch_outcome [of exampleEnv invoiceBundle exampleState "Some invoiceBundle"] l
  have "bundleFileInput_watch exampleEnv (Some invoiceBundle) exampleState =
      exampleState\<lparr>session := t', currentBundle := None, bundleFileInputModel := None,
           localStorage_currentBundle := None\<rparr>"
    and "dirty (bundleFileInput_watch exampleEnv (Some invoiceBundle) exampleState)
      = dirty exampleState"
    by blast+
  with ok l show ?thesis
    by simp
qed

text \<open>
  The claim as stated fails on a session with unsaved changes: the import resolves, the
  link is cleared, and the dirty flag is still set.
\<close>

theorem bundleFileInput_watch_dirty_counterexample:
  "dirty exampleState = True \<and>
   fst (loadBundle exampleEnv invoiceBundle (session exampleState)) = None \<and>
   currentBundle (bundleFileInput_watch exampleEnv (Some invoiceBundle) exampleState) = None \<and>
   dirty (bundleFileInput_watch exampleEnv (Some invoiceBundle) exampleState) = True"
proof -
  have ok: "fst (loadBundle exampleEnv invoiceBundle (session exampleState)) = None"
    by (simp add: invoiceBundle_def loadBundle_outcome exampleModelStr_def exampleEnv_def
        ref_codec_defs)
  have d: "dirty exampleState = True"
    by (simp add: exampleState_def)
  from ok obtain t' where l: "loadBundle exampleEnv invoiceBundle (session exampleState) = (None, t')"
    by (cases "loadBundle exampleEnv invoiceBundle (session exampleState)") simp
  then have "bundleFileInput_watch exampleEnv (Some invoiceBundle) exampleState =
      exampleState\<lparr>session := t', currentBundle := None, bundleFileInputModel := None,
           localStorage_currentBundle := None\<rparr>"
    by (simp add: bundleFileInput_watch_def cleanLocalStorageBundle_def)
  with ok d show ?thesis
    by simp
qed

subsection \<open>storeBundle\<close>

text \<open>
  C8, as amended. When packBundle throws or the store rejects the request, storeBundle
  sets the error, returns the empty string and leaves the current bundle and the dirty
  flag as they were. When the store answers, storeBundle returns the identifier of the
  answer, sets the current bundle to that identifier and the given name, and clears the
  dirty flag. The returned string tells a failure from a success only when the store
  answers with an identifier that is not empty: the code returns whatever the store
  sends.
\<close>

theorem storeBundle_outcome:
  "(\<forall>e. packBundle E (session st) includedFilesAll = Inl e \<longrightarrow>
      storeBundle E nm st =
        ([], st\<lparr>bundleError := Some (''Error saving bundle: '' @ error_text E e)\<rparr>)) \<and>
   (\<forall>bundle e.
      packBundle E (session st) includedFilesAll = Inr bundle \<and>
      SaveHtmlBundleService_htmlBundle E
        \<lparr>req_bundle = bundle, req_name = nm,
         req_id = (case currentBundle st of None \<Rightarrow> [] | Some b \<Rightarrow> bundle_id b),
         req_templateEngine = templateEngine (session st)\<rparr> = Inl e \<longrightarrow>
      storeBundle E nm st =
        ([], st\<lparr>bundleError := Some (''Error saving bundle: '' @ error_text E e)\<rparr>)) \<and>
   (\<forall>bundle res_id.
      packBundle E (session st) includedFilesAll = Inr bundle \<and>
      SaveHtmlBundleService_htmlBundle E
        \<lparr>req_bundle = bundle, req_name = nm,
         req_id = (case currentBundle st of None \<Rightarrow> [] | Some b \<Rightarrow> bundle_id b),
         req_templateEngine = templateEngine (session st)\<rparr> = Inr res_id \<longrightarrow>
      storeBundle E nm st =
        (res_id, st\<lparr>currentBundle := Some \<lparr>bundle_id = res_id, bundle_name = nm\<rparr>,
                    dirty := False\<rparr>) \<and>
      (fst (storeBundle E nm st) \<noteq> []) = (res_id \<noteq> []))"
proof -
  have pack_failed: "\<forall>e. packBundle E (session st) includedFilesAll = Inl e \<longrightarrow>
      storeBundle E nm st =
        ([], st\<lparr>bundleError := Some (''Error saving bundle: '' @ error_text E e)\<rparr>)"
    by (simp add: storeBundle_def)
  have store_failed: "\<forall>bundle e.
      packBundle E (session st) includedFilesAll = Inr bundle \<and>
      SaveHtmlBundleService_htmlBundle E
        \<lparr>req_bundle = bundle, req_name = nm,
         req_id = (case currentBundle st of None \<Rightarrow> [] | Some b \<Rightarrow> bundle_id b),
         req_templateEngine = templateEngine (session st)\<rparr> = Inl e \<longrightarrow>
      storeBundle E nm st =
        ([], st\<lparr>bundleError := Some (''Error saving bundle: '' @ error_text E e)\<rparr>)"
    by (simp add: storeBundle_def)
  have stored: "\<forall>bundle res_id.
      packBundle E (session st) includedFilesAll = Inr bundle \<and>
      SaveHtmlBundleService_htmlBundle E
        \<lparr>req_bundle = bundle, req_name = nm,
         req_id = (case currentBundle st of None \<Rightarrow> [] | Some b \<Rightarrow> bundle_id b),
         req_templateEngine = templateEngine (session st)\<rparr> = Inr res_id \<longrightarrow>
      storeBundle E nm st =
        (res_id, st\<lparr>currentBundle := Some \<lparr>bundle_id = res_id, bundle_name = nm\<rparr>,
                    dirty := False\<rparr>) \<and>
      (fst (storeBundle E nm st) \<noteq> []) = (res_id \<noteq> [])"
    by (simp add: storeBundle_def)
  from pack_failed store_failed stored show ?thesis
    by blast
qed

theorem storeBundle_outcome_witness:
  "packBundle exampleEnv (session (exampleState\<lparr>session := exampleSession\<lparr>modelStr := ''{not json''\<rparr>\<rparr>))
       includedFilesAll = Inl SyntaxError \<and>
   fst (storeBundle exampleEnv ''Invoice''
      (exampleState\<lparr>session := exampleSession\<lparr>modelStr := ''{not json''\<rparr>\<rparr>)) = [] \<and>
   bundleError (snd (storeBundle exampleEnv ''Invoice''
      (exampleState\<lparr>session := exampleSession\<lparr>modelStr := ''{not json''\<rparr>\<rparr>))) \<noteq> None \<and>
   currentBundle (snd (storeBundle exampleEnv ''Invoice''
      (exampleState\<lparr>session := exampleSession\<lparr>modelStr := ''{not json''\<rparr>\<rparr>)))
     = Some \<lparr>bundle_id = ''b0'', bundle_name = ''Old''\<rparr> \<and>
   dirty (snd (storeBundle exampleEnv ''Invoice''
      (exampleState\<lparr>session := exampleSession\<lparr>modelStr := ''{not json''\<rparr>\<rparr>))) = True"
proof -
  let ?st = "exampleState\<lparr>session := exampleSession\<lparr>modelStr := ''{not json''\<rparr>\<rparr>"
  have p: "packBundle exampleEnv (session ?st) includedFilesAll = Inl SyntaxError"
    by (simp add: packBundle_def pack_members_def pack_exampleModel_def includedFilesAll_def exampleEnv_def
        ref_codec_defs)
  from storeBundle_outcome [of exampleEnv ?st "''Invoice''"] p
  have "storeBundle exampleEnv ''Invoice'' ?st
     = ([], ?st\<lparr>bundleError := Some (''Error saving bundle: '' @ error_text exampleEnv SyntaxError)\<rparr>)"
    by blast
  with p show ?thesis
    by (simp add: exampleState_def)
qed

text \<open>
  The claim as stated fails for a store that answers with the empty identifier: the save
  succeeds, and storeBundle returns the string it returns on a failure.
\<close>

theorem storeBundle_empty_id_counterexample:
  "fst (storeBundle exampleEnv ''Invoice'' exampleState) = [] \<and>
   bundleError (snd (storeBundle exampleEnv ''Invoice'' exampleState)) \<noteq> None \<and>
   fst (storeBundle (exampleEnv\<lparr>SaveHtmlBundleService_htmlBundle := (\<lambda>req. Inr [])\<rparr>)
          ''Invoice'' exampleState) = [] \<and>
   snd (storeBundle (exampleEnv\<lparr>SaveHtmlBundleService_htmlBundle := (\<lambda>req. Inr [])\<rparr>)
          ''Invoice'' exampleState)
     = exampleState\<lparr>currentBundle := Some \<lparr>bundle_id = [], bundle_name = ''Invoice''\<rparr>,
                    dirty := False\<rparr>"
proof -
  have p: "\<exists>bundle. packBundle E exampleSession includedFilesAll = Inr bundle"
    if "JSON_parse E = ref_parse" for E
    using that
    by (simp add: packBundle_def pack_members_def pack_exampleModel_def includedFilesAll_def exampleSession_def
        ref_codec_defs)
  have s: "session exampleState = exampleSession"
    by (simp add: exampleState_def)
  from p [of exampleEnv] obtain b1 where
    b1: "packBundle exampleEnv exampleSession includedFilesAll = Inr b1"
    by (auto simp: exampleEnv_def)
  from p [of "exampleEnv\<lparr>SaveHtmlBundleService_htmlBundle := (\<lambda>req. Inr [])\<rparr>"] obtain b2 where
    b2: "packBundle (exampleEnv\<lparr>SaveHtmlBundleService_htmlBundle := (\<lambda>req. Inr [])\<rparr>)
      exampleSession includedFilesAll = Inr b2"
    by (auto simp: exampleEnv_def)
  have failed: "storeBundle exampleEnv ''Invoice'' exampleState
      = ([], exampleState\<lparr>bundleError :=
            Some (''Error saving bundle: '' @ error_text exampleEnv TransportFailure)\<rparr>)"
  proof -
    have "SaveHtmlBundleService_htmlBundle exampleEnv req = Inl TransportFailure" for req
      by (simp add: exampleEnv_def)
    then show ?thesis
      by (simp add: storeBundle_def s b1)
  qed
  have saved: "storeBundle (exampleEnv\<lparr>SaveHtmlBundleService_htmlBundle := (\<lambda>req. Inr [])\<rparr>)
          ''Invoice'' exampleState
      = ([], exampleState\<lparr>currentBundle := Some \<lparr>bundle_id = [], bundle_name = ''Invoice''\<rparr>,
                    dirty := False\<rparr>)"
    by (simp add: storeBundle_def s b2)
  from failed saved show ?thesis
    by simp
qed

subsection \<open>Folders\<close>

lemma forceTrailingSlash_ends [simp]:
  "forceTrailingSlash p \<noteq> []" "last (forceTrailingSlash p) = CHR ''/''"
  by (simp_all add: forceTrailingSlash_def)

lemma forceTrailingSlash_prefix: "prefix q p \<Longrightarrow> prefix q (forceTrailingSlash p)"
  by (simp add: forceTrailingSlash_def prefix_prefix)

lemma before_last_slash:
  "rev (drop 1 (dropWhile (\<lambda>c. c \<noteq> CHR ''/'') (rev (xs @ CHR ''/'' # ys)))) =
     (if CHR ''/'' \<in> set ys
      then xs @ CHR ''/'' # rev (drop 1 (dropWhile (\<lambda>c. c \<noteq> CHR ''/'') (rev ys)))
      else xs)"
proof (cases "CHR ''/'' \<in> set ys")
  case True
  then have d: "dropWhile (\<lambda>c. c \<noteq> CHR ''/'') (rev ys @ CHR ''/'' # rev xs)
      = dropWhile (\<lambda>c. c \<noteq> CHR ''/'') (rev ys) @ CHR ''/'' # rev xs"
    by (intro dropWhile_append1 [of "CHR ''/''"]) simp_all
  from True have "dropWhile (\<lambda>c. c \<noteq> CHR ''/'') (rev ys) \<noteq> []"
    by (simp add: dropWhile_eq_Nil_conv)
  then have "drop 1 (dropWhile (\<lambda>c. c \<noteq> CHR ''/'') (rev ys) @ CHR ''/'' # rev xs)
      = drop 1 (dropWhile (\<lambda>c. c \<noteq> CHR ''/'') (rev ys)) @ CHR ''/'' # rev xs"
    by (cases "dropWhile (\<lambda>c. c \<noteq> CHR ''/'') (rev ys)") simp_all
  with True d show ?thesis
    by simp
next
  case False
  have "dropWhile (\<lambda>c. c \<noteq> CHR ''/'') (rev ys @ CHR ''/'' # rev xs)
      = dropWhile (\<lambda>c. c \<noteq> CHR ''/'') (CHR ''/'' # rev xs)"
    by (rule dropWhile_append2) (use False in auto)
  with False show ?thesis
    by simp
qed

lemma dropWhile_no_slash:
  "CHR ''/'' \<notin> set q \<Longrightarrow> dropWhile (\<lambda>c. c \<noteq> CHR ''/'') (rev q) = []"
  by auto

lemma parentFolder_no_slash: "CHR ''/'' \<notin> set p \<Longrightarrow> parentFolder p = []"
proof -
  assume a: "CHR ''/'' \<notin> set p"
  then have "\<not> (p \<noteq> [] \<and> last p = CHR ''/'')"
    by (metis last_in_set)
  then have "parentFolder p = rev (drop 1 (dropWhile (\<lambda>c. c \<noteq> CHR ''/'') (rev p)))"
    unfolding parentFolder_def Let_def by (simp only: if_False)
  with a show ?thesis
    by (simp add: dropWhile_no_slash)
qed

lemma parentFolder_slash_only: "CHR ''/'' \<notin> set p \<Longrightarrow> parentFolder (p @ ''/'') = []"
proof -
  assume a: "CHR ''/'' \<notin> set p"
  have "parentFolder (p @ ''/'') = rev (drop 1 (dropWhile (\<lambda>c. c \<noteq> CHR ''/'') (rev p)))"
    by (simp add: parentFolder_def)
  with a show ?thesis
    by (simp add: dropWhile_no_slash)
qed

lemma parentFolder_in_folder:
  assumes "CHR ''/'' \<notin> set n" and "n \<noteq> []"
  shows "parentFolder (f @ CHR ''/'' # n) = f"
proof -
  have "last (f @ CHR ''/'' # n) = last n"
    using assms(2) by simp
  moreover have "last n \<in> set n"
    using assms(2) by (rule last_in_set)
  ultimately have "\<not> (f @ CHR ''/'' # n \<noteq> [] \<and> last (f @ CHR ''/'' # n) = CHR ''/'')"
    using assms(1) by auto
  then have "parentFolder (f @ CHR ''/'' # n)
      = rev (drop 1 (dropWhile (\<lambda>c. c \<noteq> CHR ''/'') (rev (f @ CHR ''/'' # n))))"
    unfolding parentFolder_def Let_def by (simp only: if_False)
  also have "\<dots> = f"
    using assms(1) by (simp only: before_last_slash if_False)
  finally show ?thesis .
qed

text \<open>The folder of a path under \<^verbatim>\<open>assets/\<close> lies under it too.\<close>

lemma parentFolder_under_assets:
  assumes "prefix ''assets/'' p" and "parentFolder p \<noteq> []"
  shows "prefix ''assets/'' (forceTrailingSlash (parentFolder p))"
proof -
  from assms(1) obtain n where p: "p = ''assets'' @ CHR ''/'' # n"
    by (auto simp: prefix_def)
  define q where "q = (if p \<noteq> [] \<and> last p = CHR ''/'' then butlast p else p)"
  have pf: "parentFolder p = rev (drop 1 (dropWhile (\<lambda>c. c \<noteq> CHR ''/'') (rev q)))"
    by (simp add: parentFolder_def q_def)
  have "q \<noteq> ''assets''"
  proof
    assume "q = ''assets''"
    then have "parentFolder p = []"
      unfolding pf by simp
    with assms(2) show False ..
  qed
  have "\<exists>n'. q = ''assets'' @ CHR ''/'' # n'"
  proof (cases "p \<noteq> [] \<and> last p = CHR ''/''")
    case False
    then show ?thesis
      using p by (auto simp: q_def)
  next
    case True
    then have q: "q = butlast p"
      by (simp add: q_def)
    show ?thesis
    proof (cases "n = []")
      case True
      with q p have "q = ''assets''"
        by simp
      with \<open>q \<noteq> ''assets''\<close> show ?thesis ..
    next
      case False
      then have "butlast p = ''assets'' @ CHR ''/'' # butlast n"
        by (simp add: p butlast_append)
      with q show ?thesis
        by blast
    qed
  qed
  then obtain n' where q: "q = ''assets'' @ CHR ''/'' # n'"
    by blast
  have "parentFolder p =
      (if CHR ''/'' \<in> set n'
       then ''assets'' @ CHR ''/'' # rev (drop 1 (dropWhile (\<lambda>c. c \<noteq> CHR ''/'') (rev n')))
       else ''assets'')"
    unfolding pf q by (rule before_last_slash)
  then show ?thesis
    by (auto simp: forceTrailingSlash_def)
qed

subsection \<open>What folderAdd and fileAdd do to the members\<close>

lemma folderAdd_present:
  "map_of z (forceTrailingSlash f) \<noteq> None \<Longrightarrow> folderAdd f z = z"
  by (subst folderAdd.simps) (simp add: Let_def)

lemma folderAdd_absent:
  "map_of z (forceTrailingSlash f) = None \<Longrightarrow>
     folderAdd f z =
       AList.update (forceTrailingSlash f) []
         (if parentFolder (forceTrailingSlash f) \<noteq> []
          then folderAdd (parentFolder (forceTrailingSlash f)) z else z)"
  by (subst folderAdd.simps) (simp add: Let_def)

lemma folderAdd_keeps:
  "map_of z k = Some v \<Longrightarrow> map_of (folderAdd f z) k = Some v"
proof (induction f z rule: folderAdd.induct)
  case (1 f z)
  show ?case
  proof (cases "map_of z (forceTrailingSlash f) = None")
    case False
    then show ?thesis
      using 1(2) by (simp add: folderAdd_present)
  next
    case True
    with 1(2) have ne: "k \<noteq> forceTrailingSlash f"
      by auto
    show ?thesis
    proof (cases "parentFolder (forceTrailingSlash f) = []")
      case True
      with \<open>map_of z (forceTrailingSlash f) = None\<close> ne 1(2) show ?thesis
        by (simp add: folderAdd_absent AList.update_conv')
    next
      case False
      from 1(1) [OF refl _ refl False] True 1(2)
      have "map_of (folderAdd (parentFolder (forceTrailingSlash f)) z) k = Some v"
        by simp
      with True False ne show ?thesis
        by (simp add: folderAdd_absent AList.update_conv')
    qed
  qed
qed

lemma folderAdd_distinct:
  "distinct (map fst z) \<Longrightarrow> distinct (map fst (folderAdd f z))"
proof (induction f z rule: folderAdd.induct)
  case (1 f z)
  show ?case
  proof (cases "map_of z (forceTrailingSlash f) = None")
    case False
    then show ?thesis
      using 1(2) by (simp add: folderAdd_present)
  next
    case True
    show ?thesis
    proof (cases "parentFolder (forceTrailingSlash f) = []")
      case True
      with \<open>map_of z (forceTrailingSlash f) = None\<close> 1(2) show ?thesis
        by (simp add: folderAdd_absent AList.distinct_update)
    next
      case False
      from 1(1) [OF refl _ refl False] True 1(2)
      have "distinct (map fst (folderAdd (parentFolder (forceTrailingSlash f)) z))"
        by simp
      with True False show ?thesis
        by (simp add: folderAdd_absent AList.distinct_update)
    qed
  qed
qed

text \<open>The folders that a call adds are those it adds to the empty archive, at most.\<close>

lemma folderAdd_keys_subset:
  "fst ` set (folderAdd f z) \<subseteq> fst ` set z \<union> fst ` set (folderAdd f [])"
proof (induction f z rule: folderAdd.induct)
  case (1 f z)
  let ?n = "forceTrailingSlash f"
  have e: "folderAdd f [] =
      AList.update ?n [] (if parentFolder ?n \<noteq> [] then folderAdd (parentFolder ?n) [] else [])"
    by (rule folderAdd_absent) simp
  have ke: "fst ` set (folderAdd f []) =
      insert ?n (if parentFolder ?n \<noteq> [] then fst ` set (folderAdd (parentFolder ?n) []) else {})"
    unfolding e AList.dom_update by simp
  show ?case
  proof (cases "map_of z ?n = None")
    case False
    then have "folderAdd f z = z"
      by (simp add: folderAdd_present)
    then show ?thesis
      by simp
  next
    case True
    then have u: "folderAdd f z =
        AList.update ?n [] (if parentFolder ?n \<noteq> [] then folderAdd (parentFolder ?n) z else z)"
      by (rule folderAdd_absent)
    have ku: "fst ` set (folderAdd f z) =
        insert ?n (if parentFolder ?n \<noteq> [] then fst ` set (folderAdd (parentFolder ?n) z)
                   else fst ` set z)"
      unfolding u AList.dom_update by simp
    show ?thesis
    proof (cases "parentFolder ?n = []")
      case True
      then show ?thesis
        unfolding ku ke by auto
    next
      case False
      from 1(1) [OF refl _ refl False] True
      have "fst ` set (folderAdd (parentFolder ?n) z)
          \<subseteq> fst ` set z \<union> fst ` set (folderAdd (parentFolder ?n) [])"
        by simp
      with False show ?thesis
        unfolding ku ke by auto
    qed
  qed
qed

lemma folderAdd_keys_superset: "fst ` set z \<subseteq> fst ` set (folderAdd f z)"
proof
  fix k
  assume "k \<in> fst ` set z"
  then obtain v where "map_of z k = Some v"
    by (metis map_of_eq_None_iff not_Some_eq)
  then have "map_of (folderAdd f z) k = Some v"
    by (rule folderAdd_keeps)
  then show "k \<in> fst ` set (folderAdd f z)"
    by (metis map_of_eq_None_iff option.distinct(1))
qed

lemma folderAdd_new_empty:
  "map_of z k = None \<Longrightarrow> map_of (folderAdd f z) k = None \<or> map_of (folderAdd f z) k = Some []"
proof (induction f z rule: folderAdd.induct)
  case (1 f z)
  let ?n = "forceTrailingSlash f"
  show ?case
  proof (cases "map_of z ?n = None")
    case False
    then show ?thesis
      using 1(2) by (simp add: folderAdd_present)
  next
    case True
    show ?thesis
    proof (cases "parentFolder ?n = []")
      case True
      with \<open>map_of z ?n = None\<close> 1(2) show ?thesis
        by (simp add: folderAdd_absent AList.update_conv')
    next
      case False
      from 1(1) [OF refl _ refl False] True 1(2)
      have "map_of (folderAdd (parentFolder ?n) z) k = None
          \<or> map_of (folderAdd (parentFolder ?n) z) k = Some []"
        by simp
      with True False show ?thesis
        by (auto simp: folderAdd_absent AList.update_conv')
    qed
  qed
qed

lemma folderAdd_empty_keys:
  "fst ` set (folderAdd f []) = insert (forceTrailingSlash f) (set (folders (forceTrailingSlash f)))"
proof -
  let ?n = "forceTrailingSlash f"
  have e: "folderAdd f [] =
      AList.update ?n [] (if parentFolder ?n \<noteq> [] then folderAdd (parentFolder ?n) [] else [])"
    by (rule folderAdd_absent) simp
  show ?thesis
    unfolding e AList.dom_update by (auto simp: folders_def Let_def)
qed

lemma folders_no_slash: "CHR ''/'' \<notin> set p \<Longrightarrow> folders p = []"
  by (simp add: folders_def Let_def parentFolder_no_slash)

lemma folders_closed_aux:
  "z = [] \<Longrightarrow> k \<in> fst ` set (folderAdd f z) \<Longrightarrow> set (folders k) \<subseteq> fst ` set (folderAdd f z)"
proof (induction f z arbitrary: k rule: folderAdd.induct)
  case (1 f z)
  let ?n = "forceTrailingSlash f"
  note z = \<open>z = []\<close>
  have ke: "fst ` set (folderAdd f z) = insert ?n (set (folders ?n))"
    unfolding z by (rule folderAdd_empty_keys)
  show ?case
  proof (cases "k = ?n")
    case True
    then show ?thesis
      unfolding ke by auto
  next
    case False
    with 1(3) have k: "k \<in> set (folders ?n)"
      unfolding ke by simp
    then have ne: "parentFolder ?n \<noteq> []"
      by (auto simp: folders_def Let_def split: if_splits)
    with k have "k \<in> fst ` set (folderAdd (parentFolder ?n) z)"
      by (simp add: folders_def Let_def z)
    moreover have "\<not> map_of z ?n \<noteq> None"
      by (simp add: z)
    ultimately have "set (folders k) \<subseteq> fst ` set (folderAdd (parentFolder ?n) z)"
      using 1(1) [OF refl _ refl ne z] by blast
    also have "\<dots> = set (folders ?n)"
      using ne by (simp add: folders_def Let_def z)
    finally show ?thesis
      unfolding ke by auto
  qed
qed

lemma folders_closed: "k \<in> set (folders p) \<Longrightarrow> set (folders k) \<subseteq> set (folders p)"
proof -
  assume k: "k \<in> set (folders p)"
  then have ne: "parentFolder p \<noteq> []"
    by (auto simp: folders_def Let_def split: if_splits)
  with k have "k \<in> fst ` set (folderAdd (parentFolder p) [])"
    by (simp add: folders_def Let_def)
  then have "set (folders k) \<subseteq> fst ` set (folderAdd (parentFolder p) [])"
    by (rule folders_closed_aux [OF refl])
  with ne show ?thesis
    by (simp add: folders_def Let_def)
qed

text \<open>
  In an archive that has the folders of each of its members, a call adds exactly the
  folders that it adds to the empty archive.
\<close>

lemma folderAdd_keys:
  assumes "\<forall>k \<in> fst ` set z. set (folders k) \<subseteq> fst ` set z"
  shows "fst ` set (folderAdd f z) = fst ` set z \<union> fst ` set (folderAdd f [])"
proof
  show "fst ` set (folderAdd f z) \<subseteq> fst ` set z \<union> fst ` set (folderAdd f [])"
    by (rule folderAdd_keys_subset)
  have "fst ` set (folderAdd f []) \<subseteq> fst ` set (folderAdd f z)"
    using assms
  proof (induction f z rule: folderAdd.induct)
    case (1 f z)
    let ?n = "forceTrailingSlash f"
    have ke: "fst ` set (folderAdd f []) = insert ?n (set (folders ?n))"
      by (rule folderAdd_empty_keys)
    show ?case
    proof (cases "map_of z ?n = None")
      case False
      then have same: "folderAdd f z = z"
        by (simp add: folderAdd_present)
      from False have "?n \<in> fst ` set z"
        by (simp add: map_of_eq_None_iff)
      moreover from this 1(2) have "set (folders ?n) \<subseteq> fst ` set z"
        by blast
      ultimately show ?thesis
        unfolding ke same by blast
    next
      case True
      then have u: "folderAdd f z =
          AList.update ?n [] (if parentFolder ?n \<noteq> [] then folderAdd (parentFolder ?n) z else z)"
        by (rule folderAdd_absent)
      have ku: "fst ` set (folderAdd f z) =
          insert ?n (if parentFolder ?n \<noteq> [] then fst ` set (folderAdd (parentFolder ?n) z)
                     else fst ` set z)"
        unfolding u AList.dom_update by simp
      show ?thesis
      proof (cases "parentFolder ?n = []")
        case True
        then show ?thesis
          unfolding ku ke by (simp add: folders_def Let_def)
      next
        case False
        from 1(1) [OF refl _ refl False 1(2)] True
        have "fst ` set (folderAdd (parentFolder ?n) []) \<subseteq> fst ` set (folderAdd (parentFolder ?n) z)"
          by simp
        with False show ?thesis
          unfolding ku ke by (auto simp: folders_def Let_def)
      qed
    qed
  qed
  then show "fst ` set z \<union> fst ` set (folderAdd f []) \<subseteq> fst ` set (folderAdd f z)"
    using folderAdd_keys_superset [of z f] by blast
qed

subsection \<open>What zip.file does to the members\<close>

lemma zip_file_keys_subset:
  "fst ` set (zip_file z p c) \<subseteq> insert p (fst ` set z \<union> set (folders p))"
proof (cases "parentFolder p = []")
  case True
  then show ?thesis
    by (auto simp: zip_file_def fileAdd_def Let_def AList.dom_update folders_def)
next
  case False
  with folderAdd_keys_subset [of "parentFolder p" z] show ?thesis
    by (auto simp: zip_file_def fileAdd_def Let_def AList.dom_update folders_def)
qed

lemma zip_file_keys:
  assumes "\<forall>k \<in> fst ` set z. set (folders k) \<subseteq> fst ` set z"
  shows "fst ` set (zip_file z p c) = insert p (fst ` set z \<union> set (folders p))"
proof (cases "parentFolder p = []")
  case True
  then show ?thesis
    by (auto simp: zip_file_def fileAdd_def Let_def AList.dom_update folders_def)
next
  case False
  with folderAdd_keys [OF assms, of "parentFolder p"] show ?thesis
    by (auto simp: zip_file_def fileAdd_def Let_def AList.dom_update folders_def)
qed

lemma zip_file_closed:
  assumes "\<forall>k \<in> fst ` set z. set (folders k) \<subseteq> fst ` set z"
  shows "\<forall>k \<in> fst ` set (zip_file z p c). set (folders k) \<subseteq> fst ` set (zip_file z p c)"
  unfolding zip_file_keys [OF assms] using assms folders_closed [of _ p] by blast

lemma map_of_zip_file_same: "map_of (zip_file z p c) p = Some c"
  by (simp add: zip_file_def fileAdd_def Let_def AList.update_conv')

lemma map_of_zip_file_keeps:
  "k \<noteq> p \<Longrightarrow> map_of z k = Some v \<Longrightarrow> map_of (zip_file z p c) k = Some v"
  by (simp add: zip_file_def fileAdd_def Let_def AList.update_conv' folderAdd_keeps)

lemma map_of_zip_file_other:
  assumes "k \<noteq> p" and "k \<notin> set (folders p)"
  shows "map_of (zip_file z p c) k = map_of z k"
proof (cases "map_of z k")
  case (Some v)
  with assms(1) show ?thesis
    by (simp add: map_of_zip_file_keeps)
next
  case None
  then have "k \<notin> fst ` set z"
    by (simp add: map_of_eq_None_iff)
  with assms zip_file_keys_subset [of z p c] have "k \<notin> fst ` set (zip_file z p c)"
    by blast
  then have "map_of (zip_file z p c) k = None"
    by (simp add: map_of_eq_None_iff)
  with None show ?thesis
    by simp
qed

lemma distinct_zip_file: "distinct (map fst z) \<Longrightarrow> distinct (map fst (zip_file z p c))"
  by (simp add: zip_file_def fileAdd_def Let_def AList.distinct_update folderAdd_distinct)

text \<open>A name without a slash has no folder: the member is assigned and nothing else.\<close>

lemma zip_file_plain: "CHR ''/'' \<notin> set n \<Longrightarrow> zip_file z n c = AList.update n c z"
  by (simp add: zip_file_def fileAdd_def Let_def parentFolder_no_slash)

lemma map_of_zip_file:
  "CHR ''/'' \<notin> set n \<Longrightarrow> map_of (zip_file z n c) k = (if k = n then Some c else map_of z k)"
  by (simp add: zip_file_plain AList.update_conv')

lemma keys_zip_file:
  "CHR ''/'' \<notin> set n \<Longrightarrow> fst ` set (zip_file z n c) = insert n (fst ` set z)"
  by (simp add: zip_file_plain AList.dom_update)

subsection \<open>What generateAsync writes\<close>

lemma map_fst_written:
  "map fst (map (\<lambda>(n, c). (n, h n c)) z) = map fst z"
  by (induction z) auto

lemma map_of_written:
  "map_of (map (\<lambda>(n, c). (n, h n c)) z) k = map_option (h k) (map_of z k)"
  by (induction z) auto

subsection \<open>The members that packBundle writes\<close>

lemma folderAdd_under_assets:
  "z = [] \<Longrightarrow> prefix ''assets/'' (forceTrailingSlash f) \<Longrightarrow> k \<in> fst ` set (folderAdd f z)
     \<Longrightarrow> prefix ''assets/'' k"
proof (induction f z rule: folderAdd.induct)
  case (1 f z)
  let ?n = "forceTrailingSlash f"
  note z = \<open>z = []\<close>
  have ke: "fst ` set (folderAdd f z) = insert ?n (set (folders ?n))"
    unfolding z by (rule folderAdd_empty_keys)
  show ?case
  proof (cases "k = ?n")
    case True
    with 1(3) show ?thesis
      by simp
  next
    case False
    with 1(4) have k: "k \<in> set (folders ?n)"
      unfolding ke by simp
    then have ne: "parentFolder ?n \<noteq> []"
      by (auto simp: folders_def Let_def split: if_splits)
    with k have "k \<in> fst ` set (folderAdd (parentFolder ?n) z)"
      by (simp add: folders_def Let_def z)
    moreover have "\<not> map_of z ?n \<noteq> None"
      by (simp add: z)
    moreover have "prefix ''assets/'' (forceTrailingSlash (parentFolder ?n))"
      using 1(3) ne by (rule parentFolder_under_assets)
    ultimately show ?thesis
      using 1(1) [OF refl _ refl ne z] by blast
  qed
qed

lemma asset_path_prefix: "prefix ''assets/'' (asset_path a)"
  by (simp add: asset_path_def)

lemma asset_path_inj: "asset_path a = asset_path b \<longleftrightarrow> name a = name b"
  by (simp add: asset_path_def)

lemma distinct_asset_path: "distinct (map asset_path as) = distinct (map name as)"
  by (induction as) (auto simp: asset_path_inj)

lemma folders_under_assets:
  assumes "k \<in> set (folders (asset_path a))"
  shows "prefix ''assets/'' k"
proof -
  from assms have ne: "parentFolder (asset_path a) \<noteq> []"
    by (auto simp: folders_def Let_def split: if_splits)
  with assms have "k \<in> fst ` set (folderAdd (parentFolder (asset_path a)) [])"
    by (simp add: folders_def Let_def)
  moreover have "prefix ''assets/'' (forceTrailingSlash (parentFolder (asset_path a)))"
    using asset_path_prefix ne by (rule parentFolder_under_assets)
  ultimately show ?thesis
    using folderAdd_under_assets [OF refl] by blast
qed

text \<open>An asset whose name is not empty and has no slash lies in the folder \<^verbatim>\<open>assets/\<close>.\<close>

lemma folders_plain_asset:
  assumes "name a \<noteq> []" and "CHR ''/'' \<notin> set (name a)"
  shows "folders (asset_path a) = [''assets/'']"
proof -
  have p: "parentFolder (asset_path a) = ''assets''"
    using parentFolder_in_folder [OF assms(2,1), of "''assets''"] by (simp add: asset_path_def)
  have top: "parentFolder ''assets/'' = []"
    using parentFolder_slash_only [of "''assets''"] by simp
  have "folderAdd ''assets'' [] = AList.update ''assets/'' [] []"
    using folderAdd_absent [of "[]" "''assets''"] by (simp add: forceTrailingSlash_def top)
  then show ?thesis
    by (simp add: folders_def p)
qed

lemma pack_assets_fold:
  "pack_assets data sel z =
     (if incl_assets sel then fold (\<lambda>a zz. zip_file zz (asset_path a) (blob a)) (assets data) z
      else z)"
  by (simp add: pack_assets_def)

lemma fold_assets_keys:
  assumes "\<forall>k \<in> fst ` set z. set (folders k) \<subseteq> fst ` set z"
  shows "fst ` set (fold (\<lambda>a zz. zip_file zz (asset_path a) (blob a)) as z)
      = fst ` set z \<union> asset_path ` set as \<union> (\<Union>a \<in> set as. set (folders (asset_path a)))"
  using assms
proof (induction as arbitrary: z)
  case Nil
  then show ?case by simp
next
  case (Cons a as)
  let ?z = "zip_file z (asset_path a) (blob a)"
  have "\<forall>k \<in> fst ` set ?z. set (folders k) \<subseteq> fst ` set ?z"
    using Cons.prems by (rule zip_file_closed)
  then have "fst ` set (fold (\<lambda>a zz. zip_file zz (asset_path a) (blob a)) as ?z)
      = fst ` set ?z \<union> asset_path ` set as \<union> (\<Union>a \<in> set as. set (folders (asset_path a)))"
    by (rule Cons.IH)
  then show ?case
    unfolding zip_file_keys [OF Cons.prems] by auto
qed

lemma fold_assets_distinct:
  "distinct (map fst z) \<Longrightarrow>
     distinct (map fst (fold (\<lambda>a zz. zip_file zz (asset_path a) (blob a)) as z))"
  by (induction as arbitrary: z) (auto simp: distinct_zip_file)

lemma fold_assets_keeps:
  "map_of z k = Some v \<Longrightarrow> k \<notin> asset_path ` set as \<Longrightarrow>
     map_of (fold (\<lambda>a zz. zip_file zz (asset_path a) (blob a)) as z) k = Some v"
  by (induction as arbitrary: z) (auto simp: map_of_zip_file_keeps)

lemma fold_assets_other:
  "\<not> prefix ''assets/'' k \<Longrightarrow>
     map_of (fold (\<lambda>a zz. zip_file zz (asset_path a) (blob a)) as z) k = map_of z k"
proof (induction as arbitrary: z)
  case Nil
  then show ?case by simp
next
  case (Cons a as)
  have "k \<noteq> asset_path a"
    using Cons.prems asset_path_prefix by blast
  moreover have "k \<notin> set (folders (asset_path a))"
    using Cons.prems folders_under_assets by blast
  ultimately have "map_of (zip_file z (asset_path a) (blob a)) k = map_of z k"
    by (rule map_of_zip_file_other)
  with Cons.IH [OF Cons.prems] show ?case
    by simp
qed

lemma fold_assets_content:
  "distinct (map asset_path as) \<Longrightarrow> a \<in> set as \<Longrightarrow>
     map_of (fold (\<lambda>a zz. zip_file zz (asset_path a) (blob a)) as z) (asset_path a)
       = Some (blob a)"
proof (induction as arbitrary: z)
  case Nil
  then show ?case by simp
next
  case (Cons b as)
  show ?case
  proof (cases "a \<in> set as")
    case True
    with Cons show ?thesis
      by simp
  next
    case False
    with Cons.prems have "a = b" and "asset_path a \<notin> asset_path ` set as"
      by auto
    then show ?thesis
      by (simp add: fold_assets_keeps map_of_zip_file_same)
  qed
qed

lemma pack_members_fails:
  "pack_members E data sel = Inl e \<longleftrightarrow>
     e = SyntaxError \<and> incl_exampleModel sel \<and> JSON_parse E (modelStr data) = None"
  by (auto simp: pack_members_def pack_exampleModel_def split: option.splits)

lemma pack_exampleModel_Inr:
  assumes "pack_exampleModel E data sel y = Inr z"
  obtains (skipped) "\<not> incl_exampleModel sel" "z = y"
  | (written) m where "incl_exampleModel sel" "JSON_parse E (modelStr data) = Some m"
      "z = zip_file y ''example-model.json'' (JSON_stringify E m)"
  using assms by (auto simp: pack_exampleModel_def split: option.splits if_splits)

lemma map_of_pack_index:
  "map_of (pack_index data sel y) k =
     (if k = ''index.html'' \<and> incl_index sel
      then Some (case htmlTemplate data of None \<Rightarrow> [] | Some s \<Rightarrow> s) else map_of y k)"
  by (simp add: pack_index_def map_of_zip_file)

lemma map_of_pack_header:
  "map_of (pack_header data sel y) k =
     (if k = ''header.html'' \<and> incl_header sel \<and> truthy (headerHtmlTemplate data)
      then headerHtmlTemplate data else map_of y k)"
  by (simp add: pack_header_def map_of_zip_file truthy_def split: option.splits)

lemma map_of_pack_footer:
  "map_of (pack_footer data sel y) k =
     (if k = ''footer.html'' \<and> incl_footer sel \<and> truthy (footerHtmlTemplate data)
      then footerHtmlTemplate data else map_of y k)"
  by (simp add: pack_footer_def map_of_zip_file truthy_def split: option.splits)

lemma map_of_pack_options:
  "map_of (pack_options E data sel y) k =
     (if k = ''options.json'' \<and> incl_options sel
      then Some (JSON_stringify E (JObj (options data))) else map_of y k)"
  by (simp add: pack_options_def map_of_zip_file)

lemma map_of_pack_exampleModel:
  assumes "pack_exampleModel E data sel y = Inr z"
  shows "map_of z k =
     (if k = ''example-model.json'' \<and> incl_exampleModel sel
      then map_option (JSON_stringify E) (JSON_parse E (modelStr data)) else map_of y k)"
  using assms by (cases rule: pack_exampleModel_Inr) (simp_all add: map_of_zip_file)

lemma pack_members_map_of:
  assumes "pack_members E data sel = Inr z"
  shows "map_of z k =
     (if k = ''example-model.json'' \<and> incl_exampleModel sel
        then map_option (JSON_stringify E) (JSON_parse E (modelStr data))
      else if k = ''options.json'' \<and> incl_options sel
        then Some (JSON_stringify E (JObj (options data)))
      else if k = ''footer.html'' \<and> incl_footer sel \<and> truthy (footerHtmlTemplate data)
        then footerHtmlTemplate data
      else if k = ''header.html'' \<and> incl_header sel \<and> truthy (headerHtmlTemplate data)
        then headerHtmlTemplate data
      else if k = ''index.html'' \<and> incl_index sel
        then Some (case htmlTemplate data of None \<Rightarrow> [] | Some s \<Rightarrow> s)
      else None)"
  using map_of_pack_exampleModel [OF assms [unfolded pack_members_def], of k]
  by (simp only: map_of_pack_options map_of_pack_footer map_of_pack_header map_of_pack_index
      map_of.simps)

lemma pack_members_keys:
  assumes "pack_members E data sel = Inr z"
  shows "fst ` set z =
     (if incl_index sel then {''index.html''} else {}) \<union>
     (if incl_header sel \<and> truthy (headerHtmlTemplate data) then {''header.html''} else {}) \<union>
     (if incl_footer sel \<and> truthy (footerHtmlTemplate data) then {''footer.html''} else {}) \<union>
     (if incl_options sel then {''options.json''} else {}) \<union>
     (if incl_exampleModel sel then {''example-model.json''} else {})"
proof -
  have i: "fst ` set (pack_index data sel []) = (if incl_index sel then {''index.html''} else {})"
    by (simp add: pack_index_def keys_zip_file)
  have h: "fst ` set (pack_header data sel y) =
      (if incl_header sel \<and> truthy (headerHtmlTemplate data) then {''header.html''} else {})
        \<union> fst ` set y" for y
    by (simp add: pack_header_def keys_zip_file truthy_def split: option.splits)
  have f: "fst ` set (pack_footer data sel y) =
      (if incl_footer sel \<and> truthy (footerHtmlTemplate data) then {''footer.html''} else {})
        \<union> fst ` set y" for y
    by (simp add: pack_footer_def keys_zip_file truthy_def split: option.splits)
  have o: "fst ` set (pack_options E data sel y) =
      (if incl_options sel then {''options.json''} else {}) \<union> fst ` set y" for y
    by (simp add: pack_options_def keys_zip_file)
  have m: "fst ` set z =
      (if incl_exampleModel sel then {''example-model.json''} else {}) \<union> fst ` set y"
    if "pack_exampleModel E data sel y = Inr z" for y
    using that by (cases rule: pack_exampleModel_Inr) (simp_all add: keys_zip_file)
  from assms have "fst ` set z =
      (if incl_exampleModel sel then {''example-model.json''} else {}) \<union>
      fst ` set (pack_options E data sel
         (pack_footer data sel (pack_header data sel (pack_index data sel []))))"
    unfolding pack_members_def by (rule m)
  then show ?thesis
    unfolding o f h i by blast
qed

lemma pack_members_distinct:
  assumes "pack_members E data sel = Inr z"
  shows "distinct (map fst z)"
proof -
  have i: "distinct (map fst (pack_index data sel []))"
    by (simp add: pack_index_def distinct_zip_file)
  have h: "distinct (map fst y) \<Longrightarrow> distinct (map fst (pack_header data sel y))" for y
    by (simp add: pack_header_def distinct_zip_file split: option.splits)
  have f: "distinct (map fst y) \<Longrightarrow> distinct (map fst (pack_footer data sel y))" for y
    by (simp add: pack_footer_def distinct_zip_file split: option.splits)
  have o: "distinct (map fst y) \<Longrightarrow> distinct (map fst (pack_options E data sel y))" for y
    by (simp add: pack_options_def distinct_zip_file)
  have m: "distinct (map fst z)"
    if "pack_exampleModel E data sel y = Inr z" "distinct (map fst y)" for y
    using that by (cases rule: pack_exampleModel_Inr) (simp_all add: distinct_zip_file)
  from assms show ?thesis
    unfolding pack_members_def by (rule m) (intro o f h i)
qed

lemma pack_members_plain:
  assumes "pack_members E data sel = Inr z" and "k \<in> fst ` set z"
  shows "CHR ''/'' \<notin> set k"
proof -
  from assms have "k = ''index.html'' \<or> k = ''header.html'' \<or> k = ''footer.html''
      \<or> k = ''options.json'' \<or> k = ''example-model.json''"
    unfolding pack_members_keys [OF assms(1)] by (auto split: if_splits)
  then show ?thesis
    by auto
qed

lemma pack_members_no_asset:
  assumes "pack_members E data sel = Inr z" and "k \<in> fst ` set z"
  shows "\<not> prefix ''assets/'' k"
  using pack_members_plain [OF assms] prefix_slash [of "''assets''" k] by auto

lemma pack_members_closed:
  assumes "pack_members E data sel = Inr z"
  shows "\<forall>k \<in> fst ` set z. set (folders k) \<subseteq> fst ` set z"
  using pack_members_plain [OF assms] by (simp add: folders_no_slash)

subsection \<open>The archive that packBundle returns\<close>

lemma packBundle_Inr:
  assumes "packBundle E data sel = Inr a"
  obtains z5 where "pack_members E data sel = Inr z5"
    "a = generateAsync (pack_assets data sel z5)"
  using assms by (auto simp: packBundle_def split: sum.splits)

lemma pack_assets_other:
  "\<not> prefix ''assets/'' k \<Longrightarrow> map_of (pack_assets data sel z) k = map_of z k"
  by (simp add: pack_assets_fold fold_assets_other)

lemma pack_assets_keys:
  assumes "\<forall>k \<in> fst ` set z. set (folders k) \<subseteq> fst ` set z"
  shows "fst ` set (pack_assets data sel z) =
     fst ` set z \<union>
     (if incl_assets sel
      then asset_path ` set (assets data) \<union> (\<Union>a \<in> set (assets data). set (folders (asset_path a)))
      else {})"
  using fold_assets_keys [OF assms, of "assets data"] by (auto simp: pack_assets_fold)

lemma pack_assets_distinct:
  "distinct (map fst z) \<Longrightarrow> distinct (map fst (pack_assets data sel z))"
  by (simp add: pack_assets_fold fold_assets_distinct)

lemma pack_assets_content:
  assumes "incl_assets sel" and "distinct (map name (assets data))" and "a \<in> set (assets data)"
  shows "map_of (pack_assets data sel z) (asset_path a) = Some (blob a)"
  using assms by (simp add: pack_assets_fold fold_assets_content distinct_asset_path)

lemma zip_file_new_empty:
  assumes "k \<noteq> p" and "map_of z k = None"
  shows "map_of (zip_file z p c) k = None \<or> map_of (zip_file z p c) k = Some []"
proof (cases "parentFolder p = []")
  case True
  with assms show ?thesis
    by (simp add: zip_file_def fileAdd_def Let_def AList.update_conv')
next
  case False
  with assms folderAdd_new_empty [OF assms(2), of "parentFolder p"] show ?thesis
    by (auto simp: zip_file_def fileAdd_def Let_def AList.update_conv')
qed

lemma fold_assets_new_empty:
  "map_of z k = None \<or> map_of z k = Some [] \<Longrightarrow> k \<notin> asset_path ` set as \<Longrightarrow>
     map_of (fold (\<lambda>a zz. zip_file zz (asset_path a) (blob a)) as z) k = None \<or>
     map_of (fold (\<lambda>a zz. zip_file zz (asset_path a) (blob a)) as z) k = Some []"
proof (induction as arbitrary: z)
  case Nil
  then show ?case by simp
next
  case (Cons a as)
  from Cons.prems(2) have ne: "k \<noteq> asset_path a" and rest: "k \<notin> asset_path ` set as"
    by auto
  have "map_of (zip_file z (asset_path a) (blob a)) k = None
      \<or> map_of (zip_file z (asset_path a) (blob a)) k = Some []"
    using Cons.prems(1) zip_file_new_empty [OF ne] map_of_zip_file_keeps [OF ne] by blast
  from Cons.IH [OF this rest] show ?case
    by simp
qed

lemma pack_assets_folder_empty:
  assumes "map_of z k = None" and "k \<notin> asset_path ` set (assets data)"
    and "k \<in> fst ` set (pack_assets data sel z)"
  shows "map_of (pack_assets data sel z) k = Some []"
proof -
  from assms(3) have "map_of (pack_assets data sel z) k \<noteq> None"
    by (simp add: map_of_eq_None_iff)
  moreover have "map_of (pack_assets data sel z) k = None \<or> map_of (pack_assets data sel z) k = Some []"
    using assms(1,2) by (simp add: pack_assets_fold fold_assets_new_empty)
  ultimately show ?thesis
    by auto
qed

lemma generateAsync_members:
  assumes "generateAsync y = Zip z"
  shows "map fst z = map fst y"
    and "map_of z k = map_option (\<lambda>c. if k \<noteq> [] \<and> last k = CHR ''/'' then [] else c) (map_of y k)"
proof -
  from assms have z: "z = map (\<lambda>(n, c). (n, if n \<noteq> [] \<and> last n = CHR ''/'' then [] else c)) y"
    by (simp add: generateAsync_def)
  show "map fst z = map fst y"
    unfolding z by (rule map_fst_written)
  show "map_of z k = map_option (\<lambda>c. if k \<noteq> [] \<and> last k = CHR ''/'' then [] else c) (map_of y k)"
    unfolding z by (rule map_of_written)
qed

lemma packBundle_fails:
  "packBundle E data sel = Inl e \<longleftrightarrow>
     e = SyntaxError \<and> incl_exampleModel sel \<and> JSON_parse E (modelStr data) = None"
  using pack_members_fails [of E data sel e]
  by (auto simp: packBundle_def split: sum.splits)

lemma packBundle_returns:
  "(\<exists>z. packBundle E data sel = Inr (Zip z)) =
     (\<not> (incl_exampleModel sel \<and> JSON_parse E (modelStr data) = None))"
proof (cases "packBundle E data sel")
  case (Inl e)
  then have "incl_exampleModel sel \<and> JSON_parse E (modelStr data) = None"
    by (simp add: packBundle_fails)
  with Inl show ?thesis
    by simp
next
  case (Inr a)
  then have "\<exists>z. a = Zip z"
    by (auto simp: packBundle_def generateAsync_def split: sum.splits)
  moreover from Inr have "\<not> (incl_exampleModel sel \<and> JSON_parse E (modelStr data) = None)"
    using packBundle_fails [of E data sel SyntaxError] by auto
  ultimately show ?thesis
    using Inr by auto
qed

text \<open>
  C7. packBundle returns an archive unless it is to write the example model and the model
  string is no JSON, when it throws. In the archive it returns, for every session and
  selection, the members have distinct names. \<^verbatim>\<open>index.html\<close> is a member exactly when the
  body is selected, with the body or the empty string as content; \<^verbatim>\<open>header.html\<close> and
  \<^verbatim>\<open>footer.html\<close> exactly when selected and not empty; \<^verbatim>\<open>options.json\<close> exactly when
  selected, with the printed options; \<^verbatim>\<open>example-model.json\<close> exactly when selected, with
  the print of the parsed model string. The names of the members are these and, when the
  assets are selected, the paths \<^verbatim>\<open>assets/<name>\<close> of the assets and the folders above
  these paths, which \<^verbatim>\<open>zip.file\<close> adds, and nothing else. When the names of the assets are
  distinct, the member of an asset has its blob as content (no content, if the path ends
  in a slash, which makes it a folder). A member under \<^verbatim>\<open>assets/\<close> that is not the path
  of an asset is a folder without content. For an asset whose name is not empty and has
  no slash, the one folder is \<^verbatim>\<open>assets/\<close>.
\<close>

theorem packBundle_members:
  "(packBundle E data sel = Inl SyntaxError) =
     (incl_exampleModel sel \<and> JSON_parse E (modelStr data) = None) \<and>
   (\<exists>z. packBundle E data sel = Inr (Zip z)) =
     (\<not> (incl_exampleModel sel \<and> JSON_parse E (modelStr data) = None)) \<and>
   (\<forall>z. packBundle E data sel = Inr (Zip z) \<longrightarrow>
      distinct (map fst z) \<and>
      map_of z ''index.html'' =
        (if incl_index sel then Some (case htmlTemplate data of None \<Rightarrow> [] | Some s \<Rightarrow> s)
         else None) \<and>
      map_of z ''header.html'' =
        (if incl_header sel \<and> truthy (headerHtmlTemplate data) then headerHtmlTemplate data
         else None) \<and>
      map_of z ''footer.html'' =
        (if incl_footer sel \<and> truthy (footerHtmlTemplate data) then footerHtmlTemplate data
         else None) \<and>
      map_of z ''options.json'' =
        (if incl_options sel then Some (JSON_stringify E (JObj (options data))) else None) \<and>
      map_of z ''example-model.json'' =
        (if incl_exampleModel sel
         then map_option (JSON_stringify E) (JSON_parse E (modelStr data)) else None) \<and>
      fst ` set z =
        (if incl_index sel then {''index.html''} else {}) \<union>
        (if incl_header sel \<and> truthy (headerHtmlTemplate data) then {''header.html''} else {}) \<union>
        (if incl_footer sel \<and> truthy (footerHtmlTemplate data) then {''footer.html''} else {}) \<union>
        (if incl_options sel then {''options.json''} else {}) \<union>
        (if incl_exampleModel sel then {''example-model.json''} else {}) \<union>
        (if incl_assets sel
         then asset_path ` set (assets data) \<union>
              (\<Union>a \<in> set (assets data). set (folders (asset_path a)))
         else {}) \<and>
      (\<forall>a \<in> set (assets data). incl_assets sel \<and> distinct (map name (assets data)) \<longrightarrow>
         map_of z (asset_path a) = Some (if last (asset_path a) = CHR ''/'' then [] else blob a)) \<and>
      (\<forall>k \<in> fst ` set z. prefix ''assets/'' k \<and> k \<notin> asset_path ` set (assets data) \<longrightarrow>
         map_of z k = Some [])) \<and>
   (\<forall>a. name a \<noteq> [] \<and> CHR ''/'' \<notin> set (name a) \<longrightarrow> folders (asset_path a) = [''assets/''])"
proof -
  have fails: "(packBundle E data sel = Inl SyntaxError) =
     (incl_exampleModel sel \<and> JSON_parse E (modelStr data) = None)"
    by (simp add: packBundle_fails)
  have plain: "\<forall>a. name a \<noteq> [] \<and> CHR ''/'' \<notin> set (name a) \<longrightarrow> folders (asset_path a) = [''assets/'']"
    by (simp add: folders_plain_asset)
  have members: "distinct (map fst z) \<and>
      map_of z ''index.html'' =
        (if incl_index sel then Some (case htmlTemplate data of None \<Rightarrow> [] | Some s \<Rightarrow> s)
         else None) \<and>
      map_of z ''header.html'' =
        (if incl_header sel \<and> truthy (headerHtmlTemplate data) then headerHtmlTemplate data
         else None) \<and>
      map_of z ''footer.html'' =
        (if incl_footer sel \<and> truthy (footerHtmlTemplate data) then footerHtmlTemplate data
         else None) \<and>
      map_of z ''options.json'' =
        (if incl_options sel then Some (JSON_stringify E (JObj (options data))) else None) \<and>
      map_of z ''example-model.json'' =
        (if incl_exampleModel sel
         then map_option (JSON_stringify E) (JSON_parse E (modelStr data)) else None) \<and>
      fst ` set z =
        (if incl_index sel then {''index.html''} else {}) \<union>
        (if incl_header sel \<and> truthy (headerHtmlTemplate data) then {''header.html''} else {}) \<union>
        (if incl_footer sel \<and> truthy (footerHtmlTemplate data) then {''footer.html''} else {}) \<union>
        (if incl_options sel then {''options.json''} else {}) \<union>
        (if incl_exampleModel sel then {''example-model.json''} else {}) \<union>
        (if incl_assets sel
         then asset_path ` set (assets data) \<union>
              (\<Union>a \<in> set (assets data). set (folders (asset_path a)))
         else {}) \<and>
      (\<forall>a \<in> set (assets data). incl_assets sel \<and> distinct (map name (assets data)) \<longrightarrow>
         map_of z (asset_path a) = Some (if last (asset_path a) = CHR ''/'' then [] else blob a)) \<and>
      (\<forall>k \<in> fst ` set z. prefix ''assets/'' k \<and> k \<notin> asset_path ` set (assets data) \<longrightarrow>
         map_of z k = Some [])"
    if packed: "packBundle E data sel = Inr (Zip z)" for z
  proof -
    from packed obtain z5 where z5: "pack_members E data sel = Inr z5"
      and gen: "generateAsync (pack_assets data sel z5) = Zip z"
      by (auto elim: packBundle_Inr)
    let ?y = "pack_assets data sel z5"
    note names = generateAsync_members(1) [OF gen]
    note content = generateAsync_members(2) [OF gen]
    have keys_eq: "fst ` set z = fst ` set ?y"
      using names by (metis set_map)
    have d: "distinct (map fst z)"
      unfolding names by (intro pack_assets_distinct pack_members_distinct [OF z5])
    have np: "\<not> prefix ''assets/'' ''index.html''" "\<not> prefix ''assets/'' ''header.html''"
      "\<not> prefix ''assets/'' ''footer.html''" "\<not> prefix ''assets/'' ''options.json''"
      "\<not> prefix ''assets/'' ''example-model.json''"
      by simp_all
    have i: "map_of z ''index.html'' =
        (if incl_index sel then Some (case htmlTemplate data of None \<Rightarrow> [] | Some s \<Rightarrow> s)
         else None)"
      by (simp add: content pack_assets_other [OF np(1)] pack_members_map_of [OF z5])
    have h: "map_of z ''header.html'' =
        (if incl_header sel \<and> truthy (headerHtmlTemplate data) then headerHtmlTemplate data
         else None)"
      by (simp add: content pack_assets_other [OF np(2)] pack_members_map_of [OF z5]
          option.map_ident)
    have f: "map_of z ''footer.html'' =
        (if incl_footer sel \<and> truthy (footerHtmlTemplate data) then footerHtmlTemplate data
         else None)"
      by (simp add: content pack_assets_other [OF np(3)] pack_members_map_of [OF z5]
          option.map_ident)
    have o: "map_of z ''options.json'' =
        (if incl_options sel then Some (JSON_stringify E (JObj (options data))) else None)"
      by (simp add: content pack_assets_other [OF np(4)] pack_members_map_of [OF z5])
    have m: "map_of z ''example-model.json'' =
        (if incl_exampleModel sel
         then map_option (JSON_stringify E) (JSON_parse E (modelStr data)) else None)"
      by (simp add: content pack_assets_other [OF np(5)] pack_members_map_of [OF z5]
          option.map_ident)
    have k: "fst ` set z =
        (if incl_index sel then {''index.html''} else {}) \<union>
        (if incl_header sel \<and> truthy (headerHtmlTemplate data) then {''header.html''} else {}) \<union>
        (if incl_footer sel \<and> truthy (footerHtmlTemplate data) then {''footer.html''} else {}) \<union>
        (if incl_options sel then {''options.json''} else {}) \<union>
        (if incl_exampleModel sel then {''example-model.json''} else {}) \<union>
        (if incl_assets sel
         then asset_path ` set (assets data) \<union>
              (\<Union>a \<in> set (assets data). set (folders (asset_path a)))
         else {})"
      unfolding keys_eq pack_assets_keys [OF pack_members_closed [OF z5]]
        pack_members_keys [OF z5] ..
    have c: "\<forall>a \<in> set (assets data). incl_assets sel \<and> distinct (map name (assets data)) \<longrightarrow>
         map_of z (asset_path a) = Some (if last (asset_path a) = CHR ''/'' then [] else blob a)"
    proof (intro ballI impI, elim conjE)
      fix a
      assume "a \<in> set (assets data)" and "incl_assets sel" and "distinct (map name (assets data))"
      then have "map_of ?y (asset_path a) = Some (blob a)"
        by (simp add: pack_assets_content)
      moreover have "asset_path a \<noteq> []"
        by (simp add: asset_path_def)
      ultimately show "map_of z (asset_path a)
          = Some (if last (asset_path a) = CHR ''/'' then [] else blob a)"
        by (simp add: content)
    qed
    have e: "\<forall>k \<in> fst ` set z. prefix ''assets/'' k \<and> k \<notin> asset_path ` set (assets data) \<longrightarrow>
         map_of z k = Some []"
    proof (intro ballI impI, elim conjE)
      fix k
      assume kz: "k \<in> fst ` set z" and p: "prefix ''assets/'' k"
        and na: "k \<notin> asset_path ` set (assets data)"
      from p pack_members_no_asset [OF z5] have "k \<notin> fst ` set z5"
        by blast
      then have "map_of z5 k = None"
        by (simp add: map_of_eq_None_iff)
      from pack_assets_folder_empty [OF this na] kz have "map_of ?y k = Some []"
        unfolding keys_eq by blast
      then show "map_of z k = Some []"
        by (simp add: content)
    qed
    from d i h f o m k c e show ?thesis
      by blast
  qed
  from fails packBundle_returns [of E data sel] members plain show ?thesis
    by blast
qed

text \<open>
  The end-to-end scenario of the specification: the full selection packs the scenario
  session into exactly three members with the contents the specification lists. The
  selection of the assets alone packs the asset of the example session and the folder
  \<^verbatim>\<open>assets/\<close> above it.
\<close>

theorem packBundle_members_witness:
  "packBundle exampleEnv scenarioSession includedFilesAll =
     Inr (Zip [(''index.html'', ''<p>hi</p>''),
               (''options.json'', ''{\"pageFormat\":\"A4\",\"landscape\":false}''),
               (''example-model.json'', ''{}'')]) \<and>
   map_of [(''index.html'', ''<p>hi</p>''),
           (''options.json'', ''{\"pageFormat\":\"A4\",\"landscape\":false}''),
           (''example-model.json'', ''{}'')] ''header.html'' = None \<and>
   fst ` set [(''index.html'', ''<p>hi</p>''),
           (''options.json'', ''{\"pageFormat\":\"A4\",\"landscape\":false}''),
           (''example-model.json'', ''{}'')]
     = {''index.html'', ''options.json'', ''example-model.json''} \<and>
   packBundle exampleEnv exampleSession (downloadBundle_includedFiles (Some OnlyAssets)) =
     Inr (Zip [(''assets/'', []), (''assets/logo.png'', ''PNG-bytes'')]) \<and>
   fst ` set [(''assets/'', []), (''assets/logo.png'', ''PNG-bytes'')]
     = {''assets/logo.png'', ''assets/''} \<and>
   map_of [(''assets/'', []), (''assets/logo.png'', ''PNG-bytes'')] ''assets/logo.png''
     = Some ''PNG-bytes''"
proof -
  let ?z = "[(''index.html'', ''<p>hi</p>''),
           (''options.json'', ''{\"pageFormat\":\"A4\",\"landscape\":false}''),
           (''example-model.json'', ''{}'')]"
  let ?a = "[(''assets/'', []), (''assets/logo.png'', ''PNG-bytes'')]"
  let ?only = "downloadBundle_includedFiles (Some OnlyAssets)"
  have packed: "packBundle exampleEnv scenarioSession includedFilesAll = Inr (Zip ?z)"
    by (simp add: pack_defs scenarioSession_def exampleEnv_def ref_codec_defs)
  have sel: "incl_index includedFilesAll" "incl_header includedFilesAll"
    "incl_footer includedFilesAll" "incl_options includedFilesAll"
    "incl_exampleModel includedFilesAll" "incl_assets includedFilesAll"
    by (simp_all add: includedFilesAll_def)
  have data: "truthy (headerHtmlTemplate scenarioSession) = False"
    "truthy (footerHtmlTemplate scenarioSession) = False"
    "assets scenarioSession = []"
    by (simp_all add: scenarioSession_def truthy_def)
  note members = packBundle_members [of exampleEnv scenarioSession includedFilesAll,
      THEN conjunct2, THEN conjunct2, THEN conjunct1, rule_format, OF packed]
  have scenario: "map_of ?z ''header.html'' = None"
    "fst ` set ?z = {''index.html'', ''options.json'', ''example-model.json''}"
    using members sel data by auto
  have only: "incl_assets ?only" "\<not> incl_index ?only" "\<not> incl_header ?only"
    "\<not> incl_footer ?only" "\<not> incl_options ?only" "\<not> incl_exampleModel ?only"
    by (simp_all add: downloadBundle_includedFiles_def noFiles_def)
  have logo: "assets exampleSession = [\<lparr>name = ''logo.png'', blob = ''PNG-bytes''\<rparr>]"
    "asset_path \<lparr>name = ''logo.png'', blob = ''PNG-bytes''\<rparr> = ''assets/logo.png''"
    by (simp_all add: exampleSession_def asset_path_def)
  have assets_only: "packBundle exampleEnv exampleSession ?only = Inr (Zip ?a)"
    by (simp add: pack_defs exampleSession_def)
  note plain = packBundle_members [of exampleEnv exampleSession ?only,
      THEN conjunct2, THEN conjunct2, THEN conjunct2, rule_format,
      of "\<lparr>name = ''logo.png'', blob = ''PNG-bytes''\<rparr>"]
  have folder: "folders ''assets/logo.png'' = [''assets/'']"
    using plain by (simp add: logo(2))
  note members_only = packBundle_members [of exampleEnv exampleSession ?only,
      THEN conjunct2, THEN conjunct2, THEN conjunct1, rule_format, OF assets_only]
  have "fst ` set ?a = {''assets/logo.png'', ''assets/''}"
    and "map_of ?a ''assets/logo.png'' = Some ''PNG-bytes''"
    using members_only only logo folder by auto
  with packed scenario assets_only show ?thesis
    by blast
qed

subsection \<open>The example model and its string\<close>

lemma loadBundle_in_sync:
  assumes "model_in_sync E t" and "reparses_archive E a"
  shows "model_in_sync E (snd (loadBundle E a t))"
proof (cases "fst (loadBundle E a t)")
  case (Some e)
  then have "fst (loadBundle E a t) \<noteq> None"
    by simp
  from loadBundle_model_fail(1,2) [OF this] assms(1) show ?thesis
    by (simp add: model_in_sync_def)
next
  case None
  then obtain z where a: "a = Zip z"
    by (cases a) simp_all
  from None have ok: "fst (loadBundle E (Zip z) t) = None"
    by (simp add: a)
  show ?thesis
  proof (cases "exampleModelStr z = []")
    case True
    with loadBundle_model_ok [OF ok] assms(1) show ?thesis
      by (simp add: a model_in_sync_def)
  next
    case False
    with ok have "JSON_parse E (exampleModelStr z) \<noteq> None"
      by (simp add: loadBundle_outcome split: if_splits)
    then obtain m where m: "JSON_parse E (exampleModelStr z) = Some m"
      by auto
    with assms(2) have "JSON_parse E (JSON_stringify2 E m) = Some m"
      by (simp add: a reparses_archive_def reparses_def)
    with loadBundle_model_ok [OF ok] False m show ?thesis
      by (simp add: a model_in_sync_def)
  qed
qed

lemma loadBundle_installs_in_sync:
  assumes "fst (loadBundle E (Zip z) t) = None" and "exampleModelStr z \<noteq> []"
  shows "model_in_sync E (snd (loadBundle E (Zip z) t)) = reparses E (exampleModelStr z)"
proof -
  from assms have "JSON_parse E (exampleModelStr z) \<noteq> None"
    by (simp add: loadBundle_outcome split: if_splits)
  then obtain m where m: "JSON_parse E (exampleModelStr z) = Some m"
    by auto
  with loadBundle_model_ok [OF assms(1)] assms(2)
  have "model (snd (loadBundle E (Zip z) t)) = m"
    "modelStr (snd (loadBundle E (Zip z) t)) = JSON_stringify2 E m"
    by simp_all
  with m show ?thesis
    by (simp add: model_in_sync_def reparses_def)
qed

lemma model_in_sync_templateEngine [simp]:
  "model_in_sync E (t\<lparr>templateEngine := e\<rparr>) = model_in_sync E t"
  by (simp add: model_in_sync_def)

lemma getBundle_in_sync:
  assumes "model_in_sync E (session st)"
    and "\<forall>statusText data. fetch E (bundle_url E ident) = Response True statusText (Some data)
        \<longrightarrow> reparses_archive E (form_bundle data)"
  shows "model_in_sync E (session (getBundle E ident st))"
proof (cases "fetch E (bundle_url E ident)")
  case FetchRejected
  with assms(1) show ?thesis
    by (simp add: getBundle_def)
next
  case (Response ok statusText form)
  show ?thesis
  proof (cases "ok \<and> form \<noteq> None")
    case False
    with Response assms(1) show ?thesis
      by (auto simp: getBundle_def)
  next
    case True
    then obtain data where form: "form = Some data" and ok: "ok"
      by auto
    with Response assms(2) have "reparses_archive E (form_bundle data)"
      by simp
    from loadBundle_in_sync [OF assms(1) this]
    have "model_in_sync E (snd (loadBundle E (form_bundle data) (session st)))" .
    then show ?thesis
      by (cases "loadBundle E (form_bundle data) (session st)")
        (auto simp: getBundle_def Let_def Response form ok split: option.splits)
  qed
qed

lemma bundleFileInput_watch_in_sync:
  assumes "model_in_sync E (session st)" and "\<forall>file. b = Some file \<longrightarrow> reparses_archive E file"
  shows "model_in_sync E (session (bundleFileInput_watch E b st))"
proof (cases b)
  case None
  with assms(1) show ?thesis
    by (simp add: bundleFileInput_watch_def)
next
  case (Some bytes)
  with assms(2) have "reparses_archive E bytes"
    by simp
  from loadBundle_in_sync [OF assms(1) this]
  have "model_in_sync E (snd (loadBundle E bytes (session st)))" .
  then show ?thesis
    by (cases "loadBundle E bytes (session st)")
      (auto simp: bundleFileInput_watch_def cleanLocalStorageBundle_def Some split: option.splits)
qed

lemma storeBundle_session: "session (snd (storeBundle E nm st)) = session st"
  by (simp add: storeBundle_def split: sum.splits)

lemma pack_stages_model_irrelevant:
  "pack_index (data\<lparr>model := m\<rparr>) sel y = pack_index data sel y"
  "pack_header (data\<lparr>model := m\<rparr>) sel y = pack_header data sel y"
  "pack_footer (data\<lparr>model := m\<rparr>) sel y = pack_footer data sel y"
  "pack_options E (data\<lparr>model := m\<rparr>) sel y = pack_options E data sel y"
  "pack_exampleModel E (data\<lparr>model := m\<rparr>) sel y = pack_exampleModel E data sel y"
  "pack_assets (data\<lparr>model := m\<rparr>) sel y = pack_assets data sel y"
  by (simp_all add: pack_index_def pack_header_def pack_footer_def pack_options_def
      pack_exampleModel_def pack_assets_def)

lemma packBundle_model_irrelevant:
  "packBundle E (data\<lparr>model := m\<rparr>) sel = packBundle E data sel"
  by (simp add: packBundle_def pack_members_def pack_stages_model_irrelevant cong: sum.case_cong)

text \<open>
  C9, as amended. The invariant is that the model string parses to the model. loadBundle
  keeps it, whatever its outcome, when the indented print of the archive's example model
  parses back to that model; this is what the claim leaves out, and it is needed: after a
  call that resolves and has installed a model, the model is the parse of the installed
  string exactly when the print parses back. When loadBundle rejects, the model and the
  model string are the ones before the call. getBundle, the import of a local file and
  storeBundle keep the invariant under the same condition. packBundle does not read the
  cached model: its result is the same for every value of the \<^verbatim>\<open>model\<close> field, and it
  throws, with the \<^verbatim>\<open>SyntaxError\<close> of \<^verbatim>\<open>JSON.parse\<close>, exactly when it is to write the
  example model and the model string is not valid JSON; the full selection always writes
  it.
\<close>

theorem model_stays_in_sync:
  "(model_in_sync E t \<and> reparses_archive E a \<longrightarrow> model_in_sync E (snd (loadBundle E a t))) \<and>
   (fst (loadBundle E (Zip z) t) = None \<and> exampleModelStr z \<noteq> [] \<longrightarrow>
      model_in_sync E (snd (loadBundle E (Zip z) t)) = reparses E (exampleModelStr z)) \<and>
   (fst (loadBundle E a t) \<noteq> None \<longrightarrow>
      model (snd (loadBundle E a t)) = model t \<and> modelStr (snd (loadBundle E a t)) = modelStr t) \<and>
   (model_in_sync E (session st) \<and>
    (\<forall>statusText data. fetch E (bundle_url E ident) = Response True statusText (Some data)
        \<longrightarrow> reparses_archive E (form_bundle data))
      \<longrightarrow> model_in_sync E (session (getBundle E ident st))) \<and>
   (model_in_sync E (session st) \<and> (\<forall>file. b = Some file \<longrightarrow> reparses_archive E file)
      \<longrightarrow> model_in_sync E (session (bundleFileInput_watch E b st))) \<and>
   session (snd (storeBundle E nm st)) = session st \<and>
   packBundle E (t\<lparr>model := m\<rparr>) sel = packBundle E t sel \<and>
   ((\<exists>e. packBundle E t sel = Inl e) =
      (incl_exampleModel sel \<and> JSON_parse E (modelStr t) = None)) \<and>
   ((packBundle E t includedFilesAll = Inl SyntaxError) = (JSON_parse E (modelStr t) = None))"
proof -
  have full: "(packBundle E t includedFilesAll = Inl SyntaxError) = (JSON_parse E (modelStr t) = None)"
    by (simp add: packBundle_fails includedFilesAll_def)
  have some: "(\<exists>e. packBundle E t sel = Inl e) =
      (incl_exampleModel sel \<and> JSON_parse E (modelStr t) = None)"
    by (auto simp: packBundle_fails)
  have rejected: "fst (loadBundle E a t) \<noteq> None \<longrightarrow>
      model (snd (loadBundle E a t)) = model t \<and> modelStr (snd (loadBundle E a t)) = modelStr t"
    using loadBundle_model_fail(1,2) [of E a t] by blast
  have installed: "fst (loadBundle E (Zip z) t) = None \<and> exampleModelStr z \<noteq> [] \<longrightarrow>
      model_in_sync E (snd (loadBundle E (Zip z) t)) = reparses E (exampleModelStr z)"
    using loadBundle_installs_in_sync [of E z t] by blast
  from loadBundle_in_sync [of E t a] installed rejected
    getBundle_in_sync [of E st ident] bundleFileInput_watch_in_sync [of E st b]
    storeBundle_session [of E nm st]
    packBundle_model_irrelevant [where E = E and data = t and m = m and sel = sel] some full
  show ?thesis
    by blast
qed

theorem model_stays_in_sync_witness:
  "model_in_sync exampleEnv exampleSession \<and>
   reparses_archive exampleEnv invoiceBundle \<and>
   fst (loadBundle exampleEnv invoiceBundle exampleSession) = None \<and>
   model_in_sync exampleEnv (snd (loadBundle exampleEnv invoiceBundle exampleSession)) \<and>
   model (snd (loadBundle exampleEnv invoiceBundle exampleSession)) = JObj [(''total'', JNum 12)] \<and>
   fst (loadBundle exampleEnv brokenBundle exampleSession) = Some SyntaxError \<and>
   model (snd (loadBundle exampleEnv brokenBundle exampleSession)) = model exampleSession \<and>
   modelStr (snd (loadBundle exampleEnv brokenBundle exampleSession)) = modelStr exampleSession \<and>
   packBundle exampleEnv (exampleSession\<lparr>modelStr := ''{not json''\<rparr>) includedFilesAll
     = Inl SyntaxError"
proof -
  have sync: "model_in_sync exampleEnv exampleSession"
    by (simp add: model_in_sync_def exampleSession_def exampleEnv_def ref_codec_defs)
  have law: "reparses_archive exampleEnv invoiceBundle"
    by (simp add: reparses_archive_def reparses_def invoiceBundle_def exampleModelStr_def
        exampleEnv_def ref_codec_defs)
  have ok: "fst (loadBundle exampleEnv invoiceBundle exampleSession) = None"
    by (simp add: invoiceBundle_def loadBundle_outcome exampleModelStr_def exampleEnv_def
        ref_codec_defs)
  have installed: "model (snd (loadBundle exampleEnv invoiceBundle exampleSession))
      = JObj [(''total'', JNum 12)]"
    using loadBundle_model_ok [of exampleEnv _ exampleSession, OF ok [unfolded invoiceBundle_def]]
    by (simp add: invoiceBundle_def exampleModelStr_def exampleEnv_def ref_codec_defs)
  have broken: "fst (loadBundle exampleEnv brokenBundle exampleSession) = Some SyntaxError"
    by (simp add: brokenBundle_def loadBundle_outcome exampleModelStr_def exampleEnv_def
        ref_codec_defs)
  have invalid: "JSON_parse exampleEnv (modelStr (exampleSession\<lparr>modelStr := ''{not json''\<rparr>)) = None"
    by (simp add: exampleEnv_def ref_codec_defs)
  from model_stays_in_sync [where E = exampleEnv and t = exampleSession and a = invoiceBundle]
    sync law
  have after: "model_in_sync exampleEnv (snd (loadBundle exampleEnv invoiceBundle exampleSession))"
    by blast
  from model_stays_in_sync [where E = exampleEnv and t = exampleSession and a = brokenBundle]
    broken
  have kept: "model (snd (loadBundle exampleEnv brokenBundle exampleSession)) = model exampleSession"
    "modelStr (snd (loadBundle exampleEnv brokenBundle exampleSession)) = modelStr exampleSession"
    by simp_all
  from model_stays_in_sync
    [where E = exampleEnv and t = "exampleSession\<lparr>modelStr := ''{not json''\<rparr>"] invalid
  have thrown: "packBundle exampleEnv (exampleSession\<lparr>modelStr := ''{not json''\<rparr>) includedFilesAll
     = Inl SyntaxError"
    by blast
  from sync law ok after installed broken kept thrown show ?thesis
    by blast
qed

text \<open>
  The claim as stated fails for an archive whose example model holds a numeral beyond the
  range of a double: \<^verbatim>\<open>JSON.parse\<close> gives an infinite number, which \<^verbatim>\<open>JSON.stringify\<close>
  prints as \<^verbatim>\<open>null\<close>. loadBundle resolves, and the model string it installs parses to
  another value than the model it installs.
\<close>

theorem loadBundle_infinite_model_counterexample:
  "model_in_sync exampleEnv exampleSession \<and>
   JSON_parse exampleEnv ''{\"n\":1e999}'' = Some (JObj [(''n'', JInfinity)]) \<and>
   fst (loadBundle exampleEnv (Zip [(''example-model.json'', ''{\"n\":1e999}'')]) exampleSession)
     = None \<and>
   model (snd (loadBundle exampleEnv (Zip [(''example-model.json'', ''{\"n\":1e999}'')])
      exampleSession)) = JObj [(''n'', JInfinity)] \<and>
   JSON_parse exampleEnv
      (modelStr (snd (loadBundle exampleEnv (Zip [(''example-model.json'', ''{\"n\":1e999}'')])
         exampleSession))) = Some (JObj [(''n'', JNull)]) \<and>
   model_in_sync exampleEnv
      (snd (loadBundle exampleEnv (Zip [(''example-model.json'', ''{\"n\":1e999}'')])
         exampleSession)) = False"
proof -
  have sync: "model_in_sync exampleEnv exampleSession"
    by (simp add: model_in_sync_def exampleSession_def exampleEnv_def ref_codec_defs)
  have parsed: "JSON_parse exampleEnv ''{\"n\":1e999}'' = Some (JObj [(''n'', JInfinity)])"
    by (simp add: exampleEnv_def ref_codec_defs)
  have folder: "BundleAssetsFolder exampleEnv = ''assets''"
    by (simp add: exampleEnv_def)
  have loaded: "loadBundle exampleEnv (Zip [(''example-model.json'', ''{\"n\":1e999}'')]) exampleSession
      = (None, exampleSession\<lparr>model := JObj [(''n'', JInfinity)],
                              modelStr := JSON_stringify2 exampleEnv (JObj [(''n'', JInfinity)])\<rparr>)"
    using parsed folder by (simp add: load_defs)
  have printed: "JSON_parse exampleEnv (JSON_stringify2 exampleEnv (JObj [(''n'', JInfinity)]))
      = Some (JObj [(''n'', JNull)])"
    by (simp add: exampleEnv_def ref_codec_defs)
  from sync parsed loaded printed show ?thesis
    by (simp add: model_in_sync_def)
qed

subsection \<open>Packing and loading again\<close>

lemma update_fresh: "n \<notin> fst ` set z \<Longrightarrow> AList.update n c z = z @ [(n, c)]"
  by (induction z) auto

lemma folderAdd_assets_present:
  "''assets/'' \<in> fst ` set z \<Longrightarrow> folderAdd ''assets'' z = z"
  by (rule folderAdd_present) (simp add: forceTrailingSlash_def map_of_eq_None_iff)

lemma folderAdd_assets_absent:
  assumes "''assets/'' \<notin> fst ` set z"
  shows "folderAdd ''assets'' z = z @ [(''assets/'', [])]"
proof -
  have n: "forceTrailingSlash ''assets'' = ''assets/''"
    by (simp add: forceTrailingSlash_def)
  have top: "parentFolder ''assets/'' = []"
    using parentFolder_slash_only [of "''assets''"] by simp
  have "map_of z (forceTrailingSlash ''assets'') = None"
    using assms by (simp add: n map_of_eq_None_iff)
  from folderAdd_absent [OF this] have "folderAdd ''assets'' z = AList.update ''assets/'' [] z"
    by (simp add: n top)
  with assms show ?thesis
    by (simp add: update_fresh)
qed

lemma zip_file_plain_asset:
  assumes "name a \<noteq> []" and "CHR ''/'' \<notin> set (name a)"
  shows "zip_file z (asset_path a) c = AList.update (asset_path a) c (folderAdd ''assets'' z)"
proof -
  have "parentFolder (asset_path a) = ''assets''"
    using parentFolder_in_folder [OF assms(2,1), of "''assets''"] by (simp add: asset_path_def)
  then show ?thesis
    by (simp add: zip_file_def fileAdd_def)
qed

lemma fold_assets_plain:
  assumes "\<forall>a \<in> set as. name a \<noteq> [] \<and> CHR ''/'' \<notin> set (name a)"
    and "distinct (map asset_path as)" and "asset_path ` set as \<inter> fst ` set z = {}"
    and "''assets/'' \<in> fst ` set z"
  shows "fold (\<lambda>a zz. zip_file zz (asset_path a) (blob a)) as z
      = z @ map (\<lambda>a. (asset_path a, blob a)) as"
  using assms
proof (induction as arbitrary: z)
  case Nil
  then show ?case by simp
next
  case (Cons a as)
  from Cons.prems have plain: "name a \<noteq> []" "CHR ''/'' \<notin> set (name a)"
    and fresh: "asset_path a \<notin> fst ` set z"
    by auto
  have step: "zip_file z (asset_path a) (blob a) = z @ [(asset_path a, blob a)]"
    using fresh Cons.prems(4)
    by (simp add: zip_file_plain_asset [OF plain] folderAdd_assets_present update_fresh)
  have "asset_path ` set as \<inter> fst ` set (z @ [(asset_path a, blob a)]) = {}"
    using Cons.prems by auto
  moreover have "''assets/'' \<in> fst ` set (z @ [(asset_path a, blob a)])"
    using Cons.prems(4) by auto
  ultimately have "fold (\<lambda>a zz. zip_file zz (asset_path a) (blob a)) as
        (z @ [(asset_path a, blob a)])
      = (z @ [(asset_path a, blob a)]) @ map (\<lambda>a. (asset_path a, blob a)) as"
    using Cons.prems by (intro Cons.IH) auto
  then show ?case
    by (simp add: step)
qed

lemma pack_assets_plain:
  assumes "\<forall>a \<in> set (assets s). name a \<noteq> [] \<and> CHR ''/'' \<notin> set (name a)"
    and "distinct (map name (assets s))" and "assets s \<noteq> []"
    and "\<forall>k \<in> fst ` set z. \<not> prefix ''assets/'' k"
  shows "pack_assets s includedFilesAll z
      = z @ (''assets/'', []) # map (\<lambda>a. (asset_path a, blob a)) (assets s)"
proof -
  from assms(3) obtain a as where as: "assets s = a # as"
    by (cases "assets s") auto
  from assms(1) as have plain: "name a \<noteq> []" "CHR ''/'' \<notin> set (name a)"
    by auto
  have no_folder: "''assets/'' \<notin> fst ` set z"
    using assms(4) by auto
  have fresh: "asset_path b \<notin> fst ` set z" for b
    using assms(4) asset_path_prefix by blast
  have differs: "asset_path b \<noteq> ''assets/''" if "b \<in> set (assets s)" for b
    using assms(1) that by (auto simp: asset_path_def)
  let ?z1 = "z @ [(''assets/'', []), (asset_path a, blob a)]"
  have "asset_path a \<notin> fst ` set (z @ [(''assets/'', [])])"
    using fresh [of a] differs [of a] as by auto
  then have step: "zip_file z (asset_path a) (blob a) = ?z1"
    by (simp add: zip_file_plain_asset [OF plain] folderAdd_assets_absent [OF no_folder]
        update_fresh)
  have d: "distinct (map asset_path (a # as))"
    using assms(2) as by (simp only: distinct_asset_path)
  have "asset_path x \<notin> fst ` set ?z1" if "x \<in> set as" for x
  proof -
    from that as have "x \<in> set (assets s)"
      by simp
    then have "asset_path x \<noteq> ''assets/''"
      by (rule differs)
    moreover have "asset_path a \<notin> asset_path ` set as"
      using d by simp
    with that have "asset_path x \<noteq> asset_path a"
      by (metis imageI)
    moreover have "asset_path x \<notin> fst ` set z"
      by (rule fresh)
    ultimately show ?thesis
      by simp
  qed
  then have "asset_path ` set as \<inter> fst ` set ?z1 = {}"
    by blast
  moreover have "''assets/'' \<in> fst ` set ?z1"
    by simp
  moreover have "\<forall>a \<in> set as. name a \<noteq> [] \<and> CHR ''/'' \<notin> set (name a)"
    using assms(1) as by simp
  moreover have "distinct (map asset_path as)"
    using d by simp
  ultimately have "fold (\<lambda>a zz. zip_file zz (asset_path a) (blob a)) as ?z1
      = ?z1 @ map (\<lambda>a. (asset_path a, blob a)) as"
    by (intro fold_assets_plain)
  then show ?thesis
    by (simp add: pack_assets_fold includedFilesAll_def as step)
qed

lemma generateAsync_plain:
  assumes "\<forall>kv \<in> set z. fst kv \<noteq> [] \<and> last (fst kv) = CHR ''/'' \<longrightarrow> snd kv = []"
  shows "generateAsync z = Zip z"
proof -
  have "map (\<lambda>(n, c). (n, if n \<noteq> [] \<and> last n = CHR ''/'' then [] else c)) z = z"
    using assms by (induction z) auto
  then show ?thesis
    by (simp add: generateAsync_def)
qed

lemma read_assets_append:
  "read_assets p z (ks @ ks') = read_assets p z ks @ read_assets p z ks'"
  by (induction ks) (auto split: option.splits)

lemma read_assets_asset_paths:
  assumes "\<forall>a \<in> set as. name a \<noteq> [] \<and> map_of z (asset_path a) = Some (blob a)"
  shows "read_assets ''assets/'' z (map asset_path as) = as"
  using assms
proof (induction as)
  case Nil
  then show ?case by simp
next
  case (Cons a as)
  then have n: "name a \<noteq> []" and b: "map_of z (asset_path a) = Some (blob a)"
    by simp_all
  have p: "prefix ''assets/'' (asset_path a)" and ne: "asset_path a \<noteq> ''assets/''"
    and d: "drop (length ''assets/'') (asset_path a) = name a"
    using n by (simp_all add: asset_path_def)
  have "read_assets ''assets/'' z (asset_path a # map asset_path as)
      = \<lparr>name = name a, blob = blob a\<rparr> # read_assets ''assets/'' z (map asset_path as)"
    using p ne b d by (simp del: length_Cons)
  with Cons show ?case
    by simp
qed

lemma map_of_rev_distinct: "distinct (map fst xs) \<Longrightarrow> map_of (rev xs) = map_of xs"
proof (induction xs)
  case Nil
  then show ?case by simp
next
  case (Cons kv xs)
  then have fresh: "map_of xs (fst kv) = None" and IH: "map_of (rev xs) = map_of xs"
    by (simp_all add: map_of_eq_None_iff)
  show ?case
  proof (rule ext)
    fix k
    show "map_of (rev (kv # xs)) k = map_of (kv # xs) k"
      using fresh by (cases kv) (auto simp: IH map_add_def split: option.splits)
  qed
qed

lemma spread_base_covered:
  assumes "fst ` set base \<subseteq> fst ` set kvs" and "distinct (map fst kvs)"
  shows "map_of (spread_into (spread_into [] base) kvs) = map_of kvs"
    and "fst ` set (spread_into (spread_into [] base) kvs) = fst ` set kvs"
proof -
  show "map_of (spread_into (spread_into [] base) kvs) = map_of kvs"
  proof (rule ext)
    fix k
    show "map_of (spread_into (spread_into [] base) kvs) k = map_of kvs k"
    proof (cases "map_of kvs k")
      case None
      then have "k \<notin> fst ` set kvs"
        by (simp add: map_of_eq_None_iff)
      with assms(1) have "k \<notin> fst ` set base"
        by blast
      then have "map_of (rev base) k = None"
        by (simp add: map_of_eq_None_iff)
      with None assms(2) show ?thesis
        by (simp add: map_of_spread_into_at map_of_rev_distinct)
    next
      case (Some v)
      with assms(2) show ?thesis
        by (simp add: map_of_spread_into_at map_of_rev_distinct)
    qed
  qed
  show "fst ` set (spread_into (spread_into [] base) kvs) = fst ` set kvs"
    using assms(1) by (auto simp: keys_spread_into)
qed

text \<open>What the full selection packs, for a session with every text present.\<close>

lemma pack_members_full:
  assumes "htmlTemplate s = Some b" and "headerHtmlTemplate s = Some h" and "h \<noteq> []"
    and "footerHtmlTemplate s = Some f" and "f \<noteq> []" and "JSON_parse E (modelStr s) = Some m"
  shows "pack_members E s includedFilesAll =
     Inr [(''index.html'', b), (''header.html'', h), (''footer.html'', f),
          (''options.json'', JSON_stringify E (JObj (options s))),
          (''example-model.json'', JSON_stringify E m)]"
  using assms
  by (simp add: pack_members_def pack_exampleModel_def pack_options_def pack_footer_def
      pack_header_def pack_index_def zip_file_plain includedFilesAll_def)

lemma packBundle_full:
  assumes "htmlTemplate s = Some b" and "headerHtmlTemplate s = Some h" and "h \<noteq> []"
    and "footerHtmlTemplate s = Some f" and "f \<noteq> []" and "JSON_parse E (modelStr s) = Some m"
    and "distinct (map name (assets s))" and "assets s \<noteq> []"
    and "\<forall>a \<in> set (assets s). name a \<noteq> [] \<and> CHR ''/'' \<notin> set (name a)"
  shows "packBundle E s includedFilesAll =
     Inr (Zip ([(''index.html'', b), (''header.html'', h), (''footer.html'', f),
          (''options.json'', JSON_stringify E (JObj (options s))),
          (''example-model.json'', JSON_stringify E m)]
        @ (''assets/'', []) # map (\<lambda>a. (asset_path a, blob a)) (assets s)))"
proof -
  let ?z5 = "[(''index.html'', b), (''header.html'', h), (''footer.html'', f),
          (''options.json'', JSON_stringify E (JObj (options s))),
          (''example-model.json'', JSON_stringify E m)]"
  let ?z = "?z5 @ (''assets/'', []) # map (\<lambda>a. (asset_path a, blob a)) (assets s)"
  have z5: "pack_members E s includedFilesAll = Inr ?z5"
    using assms(1-6) by (rule pack_members_full)
  have "\<forall>k \<in> fst ` set ?z5. \<not> prefix ''assets/'' k"
    using pack_members_no_asset [OF z5] by blast
  with assms(9,7,8) have y: "pack_assets s includedFilesAll ?z5 = ?z"
    by (rule pack_assets_plain)
  have "last (asset_path a) \<noteq> CHR ''/''" if "a \<in> set (assets s)" for a
  proof -
    from that assms(9) have "name a \<noteq> []" and "CHR ''/'' \<notin> set (name a)"
      by auto
    then have "last (name a) \<noteq> CHR ''/''"
      by (metis last_in_set)
    with \<open>name a \<noteq> []\<close> show ?thesis
      by (simp add: asset_path_def)
  qed
  then have "\<forall>kv \<in> set ?z. fst kv \<noteq> [] \<and> last (fst kv) = CHR ''/'' \<longrightarrow> snd kv = []"
    by auto
  then have "generateAsync ?z = Zip ?z"
    by (rule generateAsync_plain)
  with z5 y show ?thesis
    by (simp add: packBundle_def)
qed

text \<open>
  C3, as amended. Take a session with a body, a header and a footer that are not empty,
  a model string that parses to \<^verbatim>\<open>m\<close>, and at least one asset, and suppose further that
  the names of the assets are distinct and are names of files (the folder that
  \<^verbatim>\<open>zip.file\<close> adds above a name with a slash would be read back as an asset), that the
  keys of the options are distinct and include every key of the base options, that the
  assets folder is \<^verbatim>\<open>assets\<close> (the literal that packBundle writes under), and that the
  platform prints the options and \<^verbatim>\<open>m\<close> as texts that are not empty and parse back to
  them. Then
  packing with the full selection and loading the result into any target (a fresh
  default one in particular) resolves, and the target has the body, the header and the
  footer of the session, options with the same keys and the same value for every key,
  the model \<^verbatim>\<open>m\<close> with its indented print as model string, and the assets of the session,
  name by name and blob by blob, in their order.
\<close>

theorem pack_then_load_roundtrip:
  assumes body: "htmlTemplate s = Some b" "b \<noteq> []"
    and header: "headerHtmlTemplate s = Some h" "h \<noteq> []"
    and footer: "footerHtmlTemplate s = Some f" "f \<noteq> []"
    and valid: "JSON_parse E (modelStr s) = Some m"
    and some_asset: "assets s \<noteq> []"
    and names: "distinct (map name (assets s))" "\<forall>a \<in> set (assets s). plain_name (name a)"
    and keys: "distinct (map fst (options s))" "fst ` set (getBaseOptions E) \<subseteq> fst ` set (options s)"
    and folder: "BundleAssetsFolder E = ''assets''"
    and options_text: "JSON_stringify E (JObj (options s)) \<noteq> []"
      "JSON_parse E (JSON_stringify E (JObj (options s))) = Some (JObj (options s))"
    and model_text: "JSON_stringify E m \<noteq> []" "JSON_parse E (JSON_stringify E m) = Some m"
  shows "fst (pack_then_load E s target) = None \<and>
    htmlTemplate (snd (pack_then_load E s target)) = htmlTemplate s \<and>
    headerHtmlTemplate (snd (pack_then_load E s target)) = headerHtmlTemplate s \<and>
    footerHtmlTemplate (snd (pack_then_load E s target)) = footerHtmlTemplate s \<and>
    map_of (options (snd (pack_then_load E s target))) = map_of (options s) \<and>
    fst ` set (options (snd (pack_then_load E s target))) = fst ` set (options s) \<and>
    model (snd (pack_then_load E s target)) = m \<and>
    modelStr (snd (pack_then_load E s target)) = JSON_stringify2 E m \<and>
    assets (snd (pack_then_load E s target)) = assets s"
proof -
  let ?z5 = "[(''index.html'', b), (''header.html'', h), (''footer.html'', f),
          (''options.json'', JSON_stringify E (JObj (options s))),
          (''example-model.json'', JSON_stringify E m)]"
  let ?A = "map (\<lambda>a. (asset_path a, blob a)) (assets s)"
  let ?z = "?z5 @ (''assets/'', []) # ?A"
  have plain: "\<forall>a \<in> set (assets s). name a \<noteq> [] \<and> CHR ''/'' \<notin> set (name a)"
    using names(2) by (simp add: plain_name_def)
  have packed: "packBundle E s includedFilesAll = Inr (Zip ?z)"
    using body(1) header footer valid names(1) some_asset plain by (rule packBundle_full)
  then have ptl: "pack_then_load E s target = loadBundle E (Zip ?z) target"
    by (simp add: pack_then_load_def)
  have i: "map_of ?z ''index.html'' = Some b" and hd: "map_of ?z ''header.html'' = Some h"
    and ft: "map_of ?z ''footer.html'' = Some f"
    and o: "map_of ?z ''options.json'' = Some (JSON_stringify E (JObj (options s)))"
    and em: "map_of ?z ''example-model.json'' = Some (JSON_stringify E m)"
    by simp_all
  have str: "exampleModelStr ?z = JSON_stringify E m"
    using em by (simp only: exampleModelStr_def option.case)
  have ok: "fst (loadBundle E (Zip ?z) target) = None"
    unfolding loadBundle_outcome o str using options_text model_text by simp
  have texts: "htmlTemplate (snd (loadBundle E (Zip ?z) target)) = htmlTemplate s"
    "headerHtmlTemplate (snd (loadBundle E (Zip ?z) target)) = headerHtmlTemplate s"
    "footerHtmlTemplate (snd (loadBundle E (Zip ?z) target)) = footerHtmlTemplate s"
    unfolding loadBundle_templates i hd ft using body header footer by (simp_all add: truthy_def)
  have "options (snd (loadBundle E (Zip ?z) target))
      = spread_into (spread_into [] (getBaseOptions E)) (options s)"
    unfolding loadBundle_options o using options_text by (simp add: own_properties_def)
  with spread_base_covered [OF keys(2,1)]
  have opts: "map_of (options (snd (loadBundle E (Zip ?z) target))) = map_of (options s)"
    "fst ` set (options (snd (loadBundle E (Zip ?z) target))) = fst ` set (options s)"
    by simp_all
  from loadBundle_model_ok [OF ok]
  have mdl: "model (snd (loadBundle E (Zip ?z) target)) = m"
    "modelStr (snd (loadBundle E (Zip ?z) target)) = JSON_stringify2 E m"
    unfolding str using model_text by simp_all
  note z5 = pack_members_full [OF body(1) header footer valid]
  have "\<forall>k \<in> fst ` set ?z5. \<not> prefix ''assets/'' k"
    using pack_members_no_asset [OF z5] by blast
  with plain names(1) some_asset have y: "pack_assets s includedFilesAll ?z5 = ?z"
    by (rule pack_assets_plain)
  have "distinct (map fst (pack_assets s includedFilesAll ?z5))"
    by (intro pack_assets_distinct pack_members_distinct [OF z5])
  then have dz: "distinct (map fst ?z)"
    unfolding y .
  have found_assets: "\<forall>a \<in> set (assets s). name a \<noteq> [] \<and> map_of ?z (asset_path a) = Some (blob a)"
  proof
    fix a
    assume a: "a \<in> set (assets s)"
    then have "(asset_path a, blob a) \<in> set ?z"
      by auto
    with dz have "map_of ?z (asset_path a) = Some (blob a)"
      by (rule map_of_is_SomeI)
    with plain a show "name a \<noteq> [] \<and> map_of ?z (asset_path a) = Some (blob a)"
      by simp
  qed
  have "read_assets ''assets/'' ?z (map fst ?z5) = []"
    by simp
  moreover have "read_assets ''assets/'' ?z [''assets/''] = []"
    by simp
  moreover have "read_assets ''assets/'' ?z (map fst ?A) = assets s"
  proof -
    have "map fst ?A = map asset_path (assets s)"
      by simp
    moreover have "read_assets ''assets/'' ?z (map asset_path (assets s)) = assets s"
      using found_assets by (rule read_assets_asset_paths)
    ultimately show ?thesis
      by (simp only:)
  qed
  moreover have "read_assets ''assets/'' ?z (map fst ?z) =
      read_assets ''assets/'' ?z (map fst ?z5) @ read_assets ''assets/'' ?z [''assets/'']
        @ read_assets ''assets/'' ?z (map fst ?A)"
    unfolding read_assets_append [symmetric] by simp
  moreover have "BundleAssetsFolder E @ ''/'' = ''assets/''"
    by (simp add: folder)
  ultimately have found: "read_assets (BundleAssetsFolder E @ ''/'') ?z (map fst ?z) = assets s"
    by (simp only: append_Nil)
  from loadBundle_assets_ok [OF ok]
  have ast: "assets (snd (loadBundle E (Zip ?z) target)) = assets s"
    unfolding found using some_asset by simp
  from ok texts opts mdl ast show ?thesis
    unfolding ptl by blast
qed


theorem pack_then_load_roundtrip_witness:
  "fst (pack_then_load exampleEnv exampleSession (getBaseRenderData exampleEnv)) = None \<and>
   htmlTemplate (snd (pack_then_load exampleEnv exampleSession (getBaseRenderData exampleEnv)))
     = Some ''<p>old body</p>'' \<and>
   headerHtmlTemplate (snd (pack_then_load exampleEnv exampleSession (getBaseRenderData exampleEnv)))
     = Some ''<h1>old header</h1>'' \<and>
   map_of (options (snd (pack_then_load exampleEnv exampleSession (getBaseRenderData exampleEnv))))
     = map_of (options exampleSession) \<and>
   model (snd (pack_then_load exampleEnv exampleSession (getBaseRenderData exampleEnv)))
     = JObj [(''title'', JStr ''Report'')] \<and>
   assets (snd (pack_then_load exampleEnv exampleSession (getBaseRenderData exampleEnv)))
     = [\<lparr>name = ''logo.png'', blob = ''PNG-bytes''\<rparr>]"
proof -
  have body: "htmlTemplate exampleSession = Some ''<p>old body</p>''" "''<p>old body</p>'' \<noteq> []"
    and header: "headerHtmlTemplate exampleSession = Some ''<h1>old header</h1>''"
      "''<h1>old header</h1>'' \<noteq> []"
    and footer: "footerHtmlTemplate exampleSession = Some ''<i>old footer</i>''"
      "''<i>old footer</i>'' \<noteq> []"
    and the_assets: "assets exampleSession = [\<lparr>name = ''logo.png'', blob = ''PNG-bytes''\<rparr>]"
    by (simp_all add: exampleSession_def)
  have valid: "JSON_parse exampleEnv (modelStr exampleSession) = Some (JObj [(''title'', JStr ''Report'')])"
    by (simp add: exampleSession_def exampleEnv_def ref_codec_defs)
  have some_asset: "assets exampleSession \<noteq> []"
    and names: "distinct (map name (assets exampleSession))"
      "\<forall>a \<in> set (assets exampleSession). plain_name (name a)"
    by (simp_all add: the_assets plain_name_def)
  have keys: "distinct (map fst (options exampleSession))"
    "fst ` set (getBaseOptions exampleEnv) \<subseteq> fst ` set (options exampleSession)"
    by (simp_all add: exampleSession_def exampleEnv_def exampleBaseOptions_def)
  have folder: "BundleAssetsFolder exampleEnv = ''assets''"
    by (simp add: exampleEnv_def)
  have options_text: "JSON_stringify exampleEnv (JObj (options exampleSession)) \<noteq> []"
    "JSON_parse exampleEnv (JSON_stringify exampleEnv (JObj (options exampleSession)))
      = Some (JObj (options exampleSession))"
    by (simp_all add: exampleSession_def exampleEnv_def ref_codec_defs)
  have model_text: "JSON_stringify exampleEnv (JObj [(''title'', JStr ''Report'')]) \<noteq> []"
    "JSON_parse exampleEnv (JSON_stringify exampleEnv (JObj [(''title'', JStr ''Report'')]))
      = Some (JObj [(''title'', JStr ''Report'')])"
    by (simp_all add: exampleEnv_def ref_codec_defs)
  from pack_then_load_roundtrip [OF body header footer valid some_asset names keys folder
      options_text model_text, of "getBaseRenderData exampleEnv"]
  show ?thesis
    by (simp add: body header the_assets)
qed

text \<open>
  The claim as stated fails for a session whose options lack a key of the base options:
  the session has every text, a valid model string and an asset, the round trip
  resolves, and the options come back with the base margins, which the session did not
  have.
\<close>

theorem pack_then_load_options_counterexample:
  "htmlTemplate exampleSession = Some ''<p>old body</p>'' \<and>
   headerHtmlTemplate exampleSession = Some ''<h1>old header</h1>'' \<and>
   footerHtmlTemplate exampleSession = Some ''<i>old footer</i>'' \<and>
   JSON_parse exampleEnv (modelStr exampleSession) = Some (JObj [(''title'', JStr ''Report'')]) \<and>
   assets exampleSession = [\<lparr>name = ''logo.png'', blob = ''PNG-bytes''\<rparr>] \<and>
   fst (pack_then_load exampleEnv
      (exampleSession\<lparr>options := [(''pageFormat'', JStr ''A4''), (''landscape'', JBool False)]\<rparr>)
      (getBaseRenderData exampleEnv)) = None \<and>
   options (snd (pack_then_load exampleEnv
      (exampleSession\<lparr>options := [(''pageFormat'', JStr ''A4''), (''landscape'', JBool False)]\<rparr>)
      (getBaseRenderData exampleEnv)))
     = [(''landscape'', JBool False),
        (''pageFormat'', JStr ''A4''),
        (''margins'', JObj [(''top'', JNum 25), (''right'', JNum 25),
                            (''bottom'', JNum 20), (''left'', JNum 25)])] \<and>
   map_of [(''pageFormat'', JStr ''A4''), (''landscape'', JBool False)] ''margins'' = None"
  by (simp add: pack_then_load_def pack_defs load_defs example_defs scenarioSession_def
      ref_codec_defs)

text \<open>
  An asset in a folder of its own does not come back alone: the folder that
  \<^verbatim>\<open>zip.file\<close> added above it lies under the assets path and is read as an asset too.
\<close>

lemma pack_then_load_folder_asset:
  "assets (snd (pack_then_load exampleEnv
      (exampleSession\<lparr>assets := [\<lparr>name = ''img/logo.png'', blob = ''PNG-bytes''\<rparr>]\<rparr>)
      (getBaseRenderData exampleEnv)))
     = [\<lparr>name = ''img/'', blob = []\<rparr>, \<lparr>name = ''img/logo.png'', blob = ''PNG-bytes''\<rparr>]"
  by (simp add: pack_then_load_def pack_defs load_defs example_defs scenarioSession_def
      ref_codec_defs)

end
